(* ===== verification/Prelude.thy ===== *)
theory Prelude
  imports Main "HOL-Library.Word" "HOL-Library.Sublist"
begin

text \<open>
  Shared vocabulary of the Ribon development.

  The C sources use fixed-width unsigned integers throughout; they are \<open>'w word\<close> here, so
  \<open>+\<close> and \<open>-\<close> wrap as in C. This theory names the widths, provides the facts that
  turn the sources' overflow guards (\<open>left > UINT64_MAX - right\<close>) and power-of-two masks
  (\<open>value & (value - 1)\<close>) into arithmetic on \<open>nat\<close>, and the byte-buffer operations
  \<open>slice\<close> (a read at an offset) and \<open>blit\<close> (a \<open>memcpy\<close> at an offset) with
  the laws the wire codecs rest on.
\<close>

unbundle bit_operations_syntax

named_theorems guard_simps \<open>overflow guards and masks as facts on natural numbers\<close>
named_theorems buffer_simps \<open>reads of a byte buffer after writes at fixed offsets\<close>

section \<open>Fixed-width integers\<close>

type_synonym u8 = "8 word"
type_synonym u16 = "16 word"
type_synonym u32 = "32 word"
type_synonym u64 = "64 word"

abbreviation UINT32_MAX :: u32 where "UINT32_MAX \<equiv> - 1"
abbreviation UINT64_MAX :: u64 where "UINT64_MAX \<equiv> - 1"

lemma unat_minus_one_eq: "unat (- 1 :: 'a::len word) = 2 ^ LENGTH('a) - 1"
  by (simp add: unsigned_minus_1_eq_mask mask_eq_exp_minus_1)

text \<open>The guard the sources put in front of every unsigned addition.\<close>

lemma guard_le_max_iff [guard_simps]:
  fixes a b :: "'a::len word"
  shows "a \<le> - 1 - b \<longleftrightarrow> unat a + unat b < 2 ^ LENGTH('a)"
proof -
  have "unat b < 2 ^ LENGTH('a)"
    by (rule unsigned_less)
  have "unat (- 1 - b) = unat (- 1 :: 'a word) - unat b"
    by (rule unat_sub) simp
  then have "a \<le> - 1 - b \<longleftrightarrow> unat a \<le> (2 ^ LENGTH('a) - 1) - unat b"
    by (simp add: word_le_nat_alt unat_minus_one_eq)
  also have "\<dots> \<longleftrightarrow> unat a + unat b < 2 ^ LENGTH('a)"
    using \<open>unat b < 2 ^ LENGTH('a)\<close> by linarith
  finally show ?thesis .
qed

lemma guard_gt_max_iff [guard_simps]:
  fixes a b :: "'a::len word"
  shows "- 1 - b < a \<longleftrightarrow> 2 ^ LENGTH('a) \<le> unat a + unat b"
  using guard_le_max_iff [of a b] by (simp add: not_le [symmetric])

lemma unat_add_no_overflow:
  fixes a b :: "'a::len word"
  assumes "unat a + unat b < 2 ^ LENGTH('a)"
  shows "unat (a + b) = unat a + unat b"
  using assms by (simp add: unat_word_ariths)

lemma unat_add_guarded:
  fixes a b :: "'a::len word"
  assumes "a \<le> - 1 - b"
  shows "unat (a + b) = unat a + unat b"
  using assms by (simp add: guard_simps unat_add_no_overflow)

lemma unat_sub_guarded:
  fixes a b :: "'a::len word"
  assumes "b \<le> a"
  shows "unat (a - b) = unat a - unat b"
  using assms by (rule unat_sub)

lemma unat_bound: "unat a < 2 ^ LENGTH('a)" for a :: "'a::len word"
  by (rule unsigned_less)

lemma unat_plus_one:
  fixes a :: "'a::len word"
  assumes "a \<noteq> - 1"
  shows "unat (a + 1) = unat a + 1"
proof -
  have "unat a \<noteq> unat (- 1 :: 'a word)"
    using assms by (simp only: word_unat_eq_iff not_False_eq_True)
  moreover have "unat a < 2 ^ LENGTH('a)"
    by (rule unsigned_less)
  ultimately have "unat a + 1 < 2 ^ LENGTH('a)"
    unfolding unat_minus_one_eq by linarith
  then show ?thesis
    by (simp add: unat_word_ariths)
qed

section \<open>Powers of two as masks\<close>

text \<open>\<open>value != 0 && (value & (value - 1)) == 0\<close>: the value is a power of two.\<close>

definition is_power_of_two :: "'a::len word \<Rightarrow> bool" where
  "is_power_of_two v \<longleftrightarrow> v \<noteq> 0 \<and> v AND (v - 1) = 0"

lemma nat_and_pred_power_of_two:
  "0 < n \<Longrightarrow> n AND (n - 1) = 0 \<Longrightarrow> \<exists>k. n = 2 ^ k" for n :: nat
proof (induction n rule: less_induct)
  case (less n)
  show ?case
  proof (cases "even n")
    case True
    then obtain m where m: "n = 2 * m" by blast
    with less.prems have "0 < m" by simp
    have half: "(n - 1) div 2 = m - 1" "odd (n - 1)"
      using m \<open>0 < m\<close> by auto
    have "n AND (n - 1) = of_bool (odd n \<and> odd (n - 1)) + 2 * (n div 2 AND (n - 1) div 2)"
      by (rule and_rec)
    then have "m AND (m - 1) = 0"
      using less.prems m half by simp
    with less.IH [of m] m \<open>0 < m\<close> obtain k where "m = 2 ^ k" by auto
    with m show ?thesis by (metis power_Suc)
  next
    case False
    then obtain m where m: "n = 2 * m + 1" by (metis oddE)
    have "n AND (n - 1) = of_bool (odd n \<and> odd (n - 1)) + 2 * (n div 2 AND (n - 1) div 2)"
      by (rule and_rec)
    then have "m = 0"
      using less.prems m by simp
    with m have "n = 2 ^ 0" by simp
    then show ?thesis by blast
  qed
qed

lemma power_of_two_cases:
  fixes v :: "'a::len word"
  assumes "is_power_of_two v"
  obtains k where "k < LENGTH('a)" and "v = 2 ^ k" and "unat v = 2 ^ k"
proof -
  from assms have pos: "0 < unat v"
    by (simp add: is_power_of_two_def unat_gt_0)
  have "unat (v AND (v - 1)) = unat v AND unat (v - 1)"
    by (simp add: unsigned_and_eq)
  moreover have "unat (v - 1) = unat v - 1"
    using pos by (simp add: unat_minus_one unat_gt_0)
  ultimately have "unat v AND (unat v - 1) = 0"
    using assms by (simp add: is_power_of_two_def)
  with pos obtain k where k: "unat v = 2 ^ k"
    using nat_and_pred_power_of_two by blast
  moreover have "unat v < 2 ^ LENGTH('a)"
    by (rule unsigned_less)
  ultimately have "k < LENGTH('a)"
    by simp
  moreover from k have "v = 2 ^ k"
    by (metis of_nat_numeral of_nat_power of_nat_unat ucast_id)
  ultimately show ?thesis
    using k that by blast
qed

text \<open>\<open>(value + alignment - 1) & ~(alignment - 1)\<close> and \<open>value & (alignment - 1)\<close>.\<close>

lemma unat_and_mask_eq:
  fixes x :: "'a::len word"
  assumes "is_power_of_two a"
  shows "unat (x AND (a - 1)) = unat x mod unat a"
proof -
  from assms obtain k where k: "k < LENGTH('a)" "a = 2 ^ k" "unat a = 2 ^ k"
    by (rule power_of_two_cases)
  have "x AND (a - 1) = take_bit k x"
    by (simp only: k take_bit_eq_mask mask_eq_exp_minus_1)
  then have "unat (x AND (a - 1)) = take_bit k (unat x)"
    using k(1) by (simp only: unsigned_take_bit_eq)
  then show ?thesis
    by (simp only: k(3) take_bit_eq_mod)
qed

lemma and_mask_eq_0_iff [guard_simps]:
  fixes x :: "'a::len word"
  assumes "is_power_of_two a"
  shows "x AND (a - 1) = 0 \<longleftrightarrow> unat a dvd unat x"
  using unat_and_mask_eq [OF assms, of x]
  by (metis dvd_eq_mod_eq_0 unat_eq_zero)

lemma unat_and_not_mask_eq:
  fixes x :: "'a::len word"
  assumes "is_power_of_two a"
  shows "unat (x AND NOT (a - 1)) = unat x - unat x mod unat a"
proof -
  have "x - (x AND (a - 1)) = x AND NOT (x AND (a - 1))"
    by (rule disjunctive_diff_eq_and_not) (rule bit_word_eqI, simp add: bit_simps)
  moreover have "x AND NOT (x AND (a - 1)) = x AND NOT (a - 1)"
    by (rule bit_word_eqI) (auto simp: bit_simps)
  ultimately have "x AND NOT (a - 1) = x - (x AND (a - 1))"
    by simp
  moreover have "x AND (a - 1) \<le> x"
    by (simp add: word_and_le2)
  ultimately show ?thesis
    by (simp add: unat_sub unat_and_mask_eq [OF assms])
qed

section \<open>Byte buffers\<close>

text \<open>
  \<open>slice off n\<close> is the \<open>n\<close>-byte view at \<open>bytes + off\<close>; \<open>blit off xs\<close> is
  \<open>memcpy(bytes + off, xs, sizeof xs)\<close>.
\<close>

definition slice :: "nat \<Rightarrow> nat \<Rightarrow> 'a list \<Rightarrow> 'a list" where
  "slice off n bs = take n (drop off bs)"

definition blit :: "nat \<Rightarrow> 'a list \<Rightarrow> 'a list \<Rightarrow> 'a list" where
  "blit off xs buf = take off buf @ xs @ drop (off + length xs) buf"

lemma length_slice [simp]: "length (slice off n bs) = min n (length bs - off)"
  by (simp add: slice_def min.commute)

lemma length_blit [simp]: "off + length xs \<le> length buf \<Longrightarrow> length (blit off xs buf) = length buf"
  by (simp add: blit_def)

lemma slice_blit_same [buffer_simps]:
  "off + length xs \<le> length buf \<Longrightarrow> n = length xs \<Longrightarrow> slice off n (blit off xs buf) = xs"
  by (simp add: slice_def blit_def)

lemma slice_blit_before [buffer_simps]:
  assumes "off + n \<le> o'" and "o' \<le> length buf"
  shows "slice off n (blit o' xs buf) = slice off n buf"
proof -
  have "take n (drop off (blit o' xs buf)) = drop off (take (off + n) (blit o' xs buf))"
    by (simp add: take_drop add.commute)
  also have "take (off + n) (blit o' xs buf) = take (off + n) buf"
    using assms by (simp add: blit_def min_def)
  finally show ?thesis
    by (simp add: slice_def take_drop add.commute)
qed

lemma slice_blit_after [buffer_simps]:
  assumes "o' + length xs \<le> off" and "o' + length xs \<le> length buf"
  shows "slice off n (blit o' xs buf) = slice off n buf"
proof -
  have "drop off (take o' buf @ xs @ drop (o' + length xs) buf) = drop off buf"
    using assms by (simp add: drop_append)
  then show ?thesis by (simp add: slice_def blit_def)
qed

lemma slice_replicate [buffer_simps]: "off + n \<le> m \<Longrightarrow> slice off n (replicate m z) = replicate n z"
  by (simp add: slice_def)

lemma slice_slice [buffer_simps]: "a + n \<le> m \<Longrightarrow> slice a n (slice b m xs) = slice (b + a) n xs"
  by (simp add: slice_def drop_take min_def add.commute)

lemma slice_all: "n = length bs \<Longrightarrow> slice 0 n bs = bs"
  by (simp add: slice_def)

lemma slice_append_slice: "slice off (n + m) bs = slice off n bs @ slice (off + n) m bs"
  by (simp add: slice_def take_add add.commute [of off])

lemma nth_slice: "i < n \<Longrightarrow> off + i < length bs \<Longrightarrow> slice off n bs ! i = bs ! (off + i)"
  by (simp add: slice_def)

lemma nth_eq_slice: "i < length bs \<Longrightarrow> bs ! i = hd (slice i 1 bs)"
  by (simp add: slice_def hd_drop_conv_nth take_Suc hd_take)

lemma update_eq_blit: "k < length bs \<Longrightarrow> bs[k := v] = blit k [v] bs"
  by (simp add: blit_def upd_conv_take_nth_drop)

lemma take_blit: "k \<le> off \<Longrightarrow> off \<le> length buf \<Longrightarrow> take k (blit off xs buf) = take k buf"
  by (simp add: blit_def min_def)

text \<open>Cutting a buffer into fields of the given lengths.\<close>

fun cut :: "nat list \<Rightarrow> nat \<Rightarrow> 'a list \<Rightarrow> 'a list list" where
  "cut [] k bs = []"
| "cut (n # ns) k bs = slice k n bs # cut ns (k + n) bs"

lemma concat_cut: "concat (cut ns k bs) = slice k (sum_list ns) bs"
  by (induction ns arbitrary: k) (simp add: slice_def, simp add: slice_append_slice)

lemma cut_eqI:
  "cut ns 0 xs = cut ns 0 ys \<Longrightarrow> sum_list ns = length xs \<Longrightarrow> sum_list ns = length ys \<Longrightarrow> xs = ys"
  by (metis concat_cut slice_all)

section \<open>Alignment\<close>

text \<open>The least multiple of \<open>n\<close> that is at least \<open>x\<close>.\<close>

definition align_up_nat :: "nat \<Rightarrow> nat \<Rightarrow> nat" where
  "align_up_nat n x = (x + n - 1) div n * n"

lemma align_up_nat_ge: "0 < n \<Longrightarrow> x \<le> align_up_nat n x"
proof -
  assume "0 < n"
  then have "(x + n - 1) mod n < n" by simp
  moreover have "(x + n - 1) div n * n + (x + n - 1) mod n = x + n - 1" by simp
  ultimately show ?thesis unfolding align_up_nat_def by linarith
qed

lemma align_up_nat_dvd: "n dvd align_up_nat n x"
  by (simp add: align_up_nat_def)

lemma align_up_nat_least: "0 < n \<Longrightarrow> n dvd y \<Longrightarrow> x \<le> y \<Longrightarrow> align_up_nat n x \<le> y"
proof -
  assume n: "0 < n" and "n dvd y" and le: "x \<le> y"
  then obtain q where y: "y = q * n" by (metis dvd_def mult.commute)
  have "(x + n - 1) div n \<le> (q * n + (n - 1)) div n"
    using le y n by (intro div_le_mono) simp
  also have "\<dots> = q" using n by (subst div_mult_self3) simp_all
  finally show ?thesis by (simp add: align_up_nat_def y)
qed

text \<open>The masked word arithmetic computes it, or its overflow guard fires.\<close>

lemma mask_align_up:
  fixes c a :: u64
  assumes pow: "is_power_of_two a" and fits: "\<not> UINT64_MAX - (a - 1) < c"
  shows "unat ((c + a - 1) AND NOT (a - 1)) = align_up_nat (unat a) (unat c)"
proof -
  have pos: "0 < unat a"
    using pow by (simp add: is_power_of_two_def unat_gt_0)
  have pred: "unat (a - 1) = unat a - 1"
    using pos by (simp add: unat_minus_one unat_gt_0)
  have "unat (c + (a - 1)) = unat c + unat (a - 1)"
    using fits by (intro unat_add_guarded) simp
  then have sum: "unat (c + a - 1) = unat c + unat a - 1"
    using pos unfolding pred by (simp add: add_diff_eq)
  show ?thesis
    by (simp add: unat_and_not_mask_eq [OF pow] sum align_up_nat_def minus_mod_eq_div_mult)
qed

lemma align_up_overflow:
  fixes c a :: u64
  assumes pow: "is_power_of_two a" and over: "UINT64_MAX - (a - 1) < c"
  shows "2 ^ 64 \<le> align_up_nat (unat a) (unat c)"
proof -
  from pow obtain k where k: "k < 64" "unat a = 2 ^ k"
    by (auto elim: power_of_two_cases)
  have pos: "0 < unat a" by (simp add: k)
  have "unat (a - 1) = unat a - 1"
    using pos by (simp add: unat_minus_one unat_gt_0)
  moreover from over have "2 ^ 64 \<le> unat c + unat (a - 1)"
    by (drule_tac guard_gt_max_iff [THEN iffD1]) simp
  ultimately have "2 ^ 64 \<le> unat c + unat a - 1"
    using pos by linarith
  moreover have "(2 ^ 64 :: nat) = 2 ^ (64 - k) * unat a"
    using k by (simp flip: power_add)
  ultimately show ?thesis
    unfolding align_up_nat_def by (metis div_le_mono div_mult_self_is_m mult_le_mono1 pos)
qed

section \<open>Loops with early return\<close>

text \<open>A loop whose body either returns from the function with \<open>Inl\<close> or goes on with \<open>Inr\<close>.\<close>

primrec fold_result :: "('a \<Rightarrow> 's \<Rightarrow> 'e + 's) \<Rightarrow> 'a list \<Rightarrow> 's \<Rightarrow> 'e + 's" where
  "fold_result f [] s = Inr s"
| "fold_result f (x # xs) s = (case f x s of Inl e \<Rightarrow> Inl e | Inr s' \<Rightarrow> fold_result f xs s')"

lemma fold_result_append:
  "fold_result f (xs @ ys) s = (case fold_result f xs s of Inl e \<Rightarrow> Inl e | Inr s' \<Rightarrow> fold_result f ys s')"
  by (induction xs arbitrary: s) (auto split: sum.splits)

text \<open>An invariant that speaks of the elements done so far.\<close>

lemma fold_result_invariant:
  assumes "fold_result f xs s = Inr s'" and "P [] s"
    and "\<And>ys x t t'. prefix (ys @ [x]) xs \<Longrightarrow> P ys t \<Longrightarrow> f x t = Inr t' \<Longrightarrow> P (ys @ [x]) t'"
  shows "P xs s'"
  using assms
proof (induction xs arbitrary: s' rule: rev_induct)
  case (snoc x xs)
  obtain t where t: "fold_result f xs s = Inr t" "f x t = Inr s'"
    using snoc.prems(1) by (auto simp: fold_result_append split: sum.splits)
  have "P xs t"
    by (rule snoc.IH [OF t(1) snoc.prems(2)]) (use snoc.prems(3) in \<open>auto simp: prefix_append\<close>)
  then show ?case using snoc.prems(3) [of xs x] t(2) by simp
qed simp

text \<open>The same for a loop that is left early, with the elements before the one that left it.\<close>

lemma fold_result_error:
  assumes "fold_result f xs s = Inl e"
  shows "\<exists>ys x zs t. xs = ys @ x # zs \<and> fold_result f ys s = Inr t \<and> f x t = Inl e"
  using assms
proof (induction xs rule: rev_induct)
  case (snoc x xs)
  show ?case
  proof (cases "fold_result f xs s")
    case (Inl e')
    then show ?thesis using snoc by (fastforce simp: fold_result_append)
  next
    case (Inr t)
    then have "f x t = Inl e"
      using snoc.prems by (auto simp: fold_result_append split: sum.splits)
    then show ?thesis using Inr by blast
  qed
qed simp

lemma fold_result_all:
  assumes "fold_result f xs s = Inr s'" and "x \<in> set xs"
  shows "\<exists>t t'. f x t = Inr t'"
  using assms by (induction xs arbitrary: s) (auto split: sum.splits)

end
