(* ===== verification/Arena.thy ===== *)
theory Arena
  imports Prelude
begin

text \<open>
  The caller-owned bump allocator of \<open>src/core/arena.c\<close> and the status codes of
  \<open>include/Ribon/core/status.h\<close>.

  A pointer is its \<open>uintptr_t\<close> value, \<open>0\<close> being \<open>NULL\<close>; a nullable struct
  pointer is an \<open>option\<close>. An operation returns its status, the arena after the call and
  the value stored through its out-pointer.
\<close>

section \<open>Model\<close>

datatype RibonCoreStatus =
    CORE_OK | CORE_BAD_ARGUMENT | CORE_BAD_ABI | CORE_BAD_MODE | CORE_BAD_LIMIT
  | CORE_OUT_OF_CAPACITY | CORE_BAD_ALIGNMENT | CORE_MISSING_CAPABILITY
  | CORE_FORBIDDEN_CAPABILITY | CORE_INVALID_DESCRIPTOR | CORE_DUPLICATE_PROVIDER
  | CORE_DEPENDENCY_CYCLE | CORE_BAD_STATE | CORE_PHASE_INVERSION | CORE_AMBIGUOUS_SELECTION

record RibonArena =
  base :: u64
  capacity :: u64
  used :: u64
  high_watermark :: u64

definition ribon_arena_pointer_range_is_valid :: "RibonArena option \<Rightarrow> bool" where
  "ribon_arena_pointer_range_is_valid arena \<longleftrightarrow>
     (case arena of
        None \<Rightarrow> False
      | Some a \<Rightarrow>
          base a \<noteq> 0 \<and> capacity a \<noteq> 0 \<and> used a \<le> capacity a \<and>
          used a \<le> high_watermark a \<and> high_watermark a \<le> capacity a \<and>
          base a \<le> UINT64_MAX - capacity a)"

definition ribon_arena_init :: "RibonArena option \<Rightarrow> u64 \<Rightarrow> u64 \<Rightarrow> RibonArena option" where
  "ribon_arena_init arena storage cap =
     (case arena of
        None \<Rightarrow> None
      | Some a \<Rightarrow>
          Some \<lparr>base = storage, capacity = (if storage \<noteq> 0 then cap else 0),
                used = 0, high_watermark = 0\<rparr>)"

text \<open>
  \<open>out\<close> tells whether the out-pointer is non-null; the last component is the value left
  in \<open>*out\<close>, \<open>None\<close> where nothing is stored.
\<close>

definition ribon_arena_allocate ::
  "RibonArena option \<Rightarrow> u64 \<Rightarrow> u64 \<Rightarrow> bool \<Rightarrow> RibonCoreStatus \<times> RibonArena option \<times> u64 option"
where
  "ribon_arena_allocate arena sz alignment out =
     (if \<not> out then (CORE_BAD_ARGUMENT, arena, None)
      else if \<not> ribon_arena_pointer_range_is_valid arena \<or> sz = 0
      then (CORE_BAD_ARGUMENT, arena, Some 0)
      else if alignment = 0 \<or> alignment AND (alignment - 1) \<noteq> 0
      then (CORE_BAD_ALIGNMENT, arena, Some 0)
      else
        let a = the arena;
            current = base a + used a
        in if UINT64_MAX - (alignment - 1) < current
           then (CORE_OUT_OF_CAPACITY, arena, Some 0)
           else
             let aligned = (current + alignment - 1) AND NOT (alignment - 1);
                 padding = aligned - current
             in if capacity a - used a < padding \<or> capacity a - used a - padding < sz
                then (CORE_OUT_OF_CAPACITY, arena, Some 0)
                else
                  let next_used = used a + padding + sz
                  in (CORE_OK,
                      Some (a\<lparr>used := next_used,
                              high_watermark := (if high_watermark a < next_used
                                                 then next_used else high_watermark a)\<rparr>),
                      Some aligned))"

definition ribon_arena_remaining :: "RibonArena option \<Rightarrow> u64" where
  "ribon_arena_remaining arena =
     (if \<not> ribon_arena_pointer_range_is_valid arena then 0
      else capacity (the arena) - used (the arena))"

section \<open>Address arithmetic\<close>

abbreviation arena_wf :: "RibonArena \<Rightarrow> bool" where
  "arena_wf a \<equiv> ribon_arena_pointer_range_is_valid (Some a)"

text \<open>First free address, and the end of the storage, as unbounded numbers.\<close>

abbreviation arena_next :: "RibonArena \<Rightarrow> nat" where
  "arena_next a \<equiv> unat (base a) + unat (used a)"

abbreviation arena_limit :: "RibonArena \<Rightarrow> nat" where
  "arena_limit a \<equiv> unat (base a) + unat (capacity a)"

lemma arena_wfD:
  assumes "arena_wf a"
  shows "unat (used a) \<le> unat (capacity a)"
    and "arena_limit a < 2 ^ 64"
    and "unat (base a + used a) = arena_next a"
    and "unat (used a) \<le> unat (high_watermark a)"
    and "unat (high_watermark a) \<le> unat (capacity a)"
proof -
  from assms show le: "unat (used a) \<le> unat (capacity a)"
    and "unat (used a) \<le> unat (high_watermark a)"
    and "unat (high_watermark a) \<le> unat (capacity a)"
    by (simp_all add: ribon_arena_pointer_range_is_valid_def word_le_nat_alt)
  from assms show lim: "arena_limit a < 2 ^ 64"
    by (simp add: ribon_arena_pointer_range_is_valid_def guard_simps)
  from le lim show "unat (base a + used a) = arena_next a"
    by (simp add: unat_add_no_overflow)
qed

section \<open>One allocation\<close>

text \<open>
  On a well-formed arena the masked word arithmetic computes the least aligned address at or
  after the first free byte, and the capacity test is exact.
\<close>

lemma ribon_arena_allocate_eq:
  fixes a :: RibonArena and sz al :: u64
  defines "p \<equiv> align_up_nat (unat al) (arena_next a)"
  assumes wf: "arena_wf a" and sz: "sz \<noteq> 0" and al: "is_power_of_two al"
  shows "p + unat sz \<le> arena_limit a \<Longrightarrow>
           \<exists>a'. ribon_arena_allocate (Some a) sz al True = (CORE_OK, Some a', Some (of_nat p)) \<and>
                arena_wf a' \<and> base a' = base a \<and> capacity a' = capacity a \<and>
                arena_next a' = p + unat sz \<and>
                unat (high_watermark a') = max (unat (high_watermark a)) (unat (used a'))"
    and "arena_limit a < p + unat sz \<Longrightarrow>
           ribon_arena_allocate (Some a) sz al True = (CORE_OUT_OF_CAPACITY, Some a, Some 0)"
proof -
  note D = arena_wfD [OF wf]
  let ?c = "base a + used a"
  let ?aligned = "(?c + al - 1) AND NOT (al - 1)"
  have al': "\<not> (al = 0 \<or> al AND (al - 1) \<noteq> 0)"
    using al by (simp add: is_power_of_two_def)
  have ge: "arena_next a \<le> p"
    using al unfolding p_def
    by (intro align_up_nat_ge) (simp add: is_power_of_two_def unat_gt_0)
  have over: "UINT64_MAX - (al - 1) < ?c \<Longrightarrow> arena_limit a < p + unat sz"
    using align_up_overflow [OF al, of ?c] D by (simp add: p_def)
  have aligned: "unat ?aligned = p" if "\<not> UINT64_MAX - (al - 1) < ?c"
    using mask_align_up [OF al that] D by (simp add: p_def)
  have pad: "unat (?aligned - ?c) = p - arena_next a" if "\<not> UINT64_MAX - (al - 1) < ?c"
    using aligned [OF that] ge D by (subst unat_sub) (simp_all add: word_le_nat_alt)
  have room: "unat (capacity a - used a) = unat (capacity a) - unat (used a)"
    using D by (intro unat_sub) (simp add: word_le_nat_alt)
  have test: "capacity a - used a < ?aligned - ?c \<or>
      capacity a - used a - (?aligned - ?c) < sz \<longleftrightarrow> arena_limit a < p + unat sz"
    if "\<not> UINT64_MAX - (al - 1) < ?c"
  proof (cases "capacity a - used a < ?aligned - ?c")
    case True
    then show ?thesis
      using pad [OF that] room D ge by (simp add: word_less_nat_alt; linarith)
  next
    case False
    then have "unat (capacity a - used a - (?aligned - ?c)) =
        unat (capacity a) - unat (used a) - (p - arena_next a)"
      using pad [OF that] room by (subst unat_sub) simp_all
    then show ?thesis
      using False pad [OF that] room D ge by (simp add: word_less_nat_alt; linarith)
  qed
  show "ribon_arena_allocate (Some a) sz al True = (CORE_OUT_OF_CAPACITY, Some a, Some 0)"
    if "arena_limit a < p + unat sz"
    using that wf sz al' test
    by (auto simp: ribon_arena_allocate_def Let_def)
  show "\<exists>a'. ribon_arena_allocate (Some a) sz al True = (CORE_OK, Some a', Some (of_nat p)) \<and>
           arena_wf a' \<and> base a' = base a \<and> capacity a' = capacity a \<and>
           arena_next a' = p + unat sz \<and>
           unat (high_watermark a') = max (unat (high_watermark a)) (unat (used a'))"
    if fits: "p + unat sz \<le> arena_limit a"
  proof -
    have nov: "\<not> UINT64_MAX - (al - 1) < ?c"
      using over fits by fastforce
    let ?used = "used a + (?aligned - ?c) + sz"
    let ?a = "a\<lparr>used := ?used,
        high_watermark := (if high_watermark a < ?used then ?used else high_watermark a)\<rparr>"
    have "unat (used a + (?aligned - ?c)) = p - unat (base a)"
      using pad [OF nov] D fits ge by (subst unat_add_no_overflow) simp_all
    then have u: "unat ?used = p - unat (base a) + unat sz"
      using D fits ge by (subst unat_add_no_overflow) simp_all
    have hw: "unat (high_watermark ?a) = max (unat (high_watermark a)) (unat ?used)"
      by (simp add: word_less_nat_alt max_def)
    have "arena_wf ?a"
      using wf u hw D fits ge
      by (auto simp: ribon_arena_pointer_range_is_valid_def word_le_nat_alt)
    moreover have "?aligned = of_nat p"
      using aligned [OF nov] by (metis of_nat_unat ucast_id)
    then have "ribon_arena_allocate (Some a) sz al True = (CORE_OK, Some ?a, Some (of_nat p))"
      using wf sz al' test [OF nov] fits nov
      unfolding ribon_arena_allocate_def Let_def by simp
    ultimately show ?thesis
      using u hw ge by (intro exI [of _ ?a]) simp
  qed
qed

section \<open>Sequences of allocations\<close>

text \<open>
  What a client of a region allocator relies on: a granted block starts at or after the first
  free address, ends at the new first free address and stays below the limit.
\<close>

fun alloc_run :: "('s \<Rightarrow> 'r \<Rightarrow> 's \<times> (nat \<times> nat) option) \<Rightarrow> 's \<Rightarrow> 'r list \<Rightarrow> (nat \<times> nat) list \<times> 's" where
  "alloc_run alloc s [] = ([], s)"
| "alloc_run alloc s (r # rs) =
     (let (s', block) = alloc s r; (blocks, t) = alloc_run alloc s' rs
      in (case block of None \<Rightarrow> blocks | Some b \<Rightarrow> b # blocks, t))"

text \<open>An allocation seen by such a client: the block \<open>(address, size)\<close> when it is granted.\<close>

definition arena_alloc_block :: "RibonArena \<Rightarrow> u64 \<times> u64 \<Rightarrow> RibonArena \<times> (nat \<times> nat) option" where
  "arena_alloc_block a r =
     (case ribon_arena_allocate (Some a) (fst r) (snd r) True of
        (st, arena', out) \<Rightarrow>
          (the arena', if st = CORE_OK then Some (unat (the out), unat (fst r)) else None))"

locale region_allocator =
  fixes alloc :: "'s \<Rightarrow> 'r \<Rightarrow> 's \<times> (nat \<times> nat) option"
    and valid :: "'s \<Rightarrow> bool"
    and first_free :: "'s \<Rightarrow> nat"
    and limit :: "'s \<Rightarrow> nat"
  assumes alloc_valid: "valid s \<Longrightarrow> alloc s r = (s', block) \<Longrightarrow> valid s' \<and> limit s' = limit s"
    and alloc_refused: "valid s \<Longrightarrow> alloc s r = (s', None) \<Longrightarrow> first_free s' = first_free s"
    and alloc_granted: "valid s \<Longrightarrow> alloc s r = (s', Some (p, n)) \<Longrightarrow>
      first_free s \<le> p \<and> p + n = first_free s' \<and> p + n \<le> limit s"
begin

lemma run_valid:
  "valid s \<Longrightarrow> alloc_run alloc s rs = (blocks, t) \<Longrightarrow> valid t \<and> limit t = limit s"
proof (induction rs arbitrary: s blocks)
  case (Cons r rs)
  obtain s' b where b: "alloc s r = (s', b)" by fastforce
  obtain bs u where bs: "alloc_run alloc s' rs = (bs, u)" by fastforce
  show ?case
    using Cons.IH [of s' bs] Cons.prems alloc_valid [OF Cons.prems(1) b] b bs by simp
qed simp

lemma run_within:
  "valid s \<Longrightarrow> alloc_run alloc s rs = (blocks, t) \<Longrightarrow> (p, n) \<in> set blocks \<Longrightarrow>
     first_free s \<le> p \<and> p + n \<le> limit s"
proof (induction rs arbitrary: s blocks)
  case (Cons r rs)
  obtain s' b where b: "alloc s r = (s', b)" by fastforce
  obtain bs u where bs: "alloc_run alloc s' rs = (bs, u)" by fastforce
  note valid' = alloc_valid [OF Cons.prems(1) b]
  have tail: "first_free s' \<le> p \<and> p + n \<le> limit s" if "(p, n) \<in> set bs"
    using Cons.IH [of s' bs] Cons.prems valid' b bs that by simp
  show ?case
  proof (cases b)
    case None
    then show ?thesis
      using Cons.prems b bs tail alloc_refused [OF Cons.prems(1)] by simp
  next
    case (Some x)
    obtain q m where x: "x = (q, m)" by fastforce
    then show ?thesis
      using Some Cons.prems b bs tail alloc_granted [OF Cons.prems(1), of r s' q m]
      by (auto; linarith)
  qed
qed simp

lemma run_ascending:
  "valid s \<Longrightarrow> alloc_run alloc s rs = (blocks, t) \<Longrightarrow>
     sorted_wrt (\<lambda>b c. fst b + snd b \<le> fst c) blocks"
proof (induction rs arbitrary: s blocks)
  case (Cons r rs)
  obtain s' b where b: "alloc s r = (s', b)" by fastforce
  obtain bs u where bs: "alloc_run alloc s' rs = (bs, u)" by fastforce
  note valid' = alloc_valid [OF Cons.prems(1) b]
  have sorted: "sorted_wrt (\<lambda>b c. fst b + snd b \<le> fst c) bs"
    using Cons.IH [of s' bs] Cons.prems valid' b bs by simp
  have "first_free s' \<le> fst c" if "c \<in> set bs" for c
    using run_within [of s' rs bs u "fst c" "snd c"] valid' bs that by simp
  then show ?case
    using sorted Cons.prems b bs alloc_granted [OF Cons.prems(1), of r s']
    by (fastforce split: option.splits)
qed simp

end

lemma arena_alloc_block_cases:
  assumes "arena_wf a" and "arena_alloc_block a r = (a', block)"
  obtains (refused) "a' = a" "block = None"
  | (granted) p where "block = Some (p, unat (fst r))" "arena_wf a'" "arena_limit a' = arena_limit a"
      "arena_next a \<le> p" "p + unat (fst r) = arena_next a'" "p + unat (fst r) \<le> arena_limit a"
proof (cases "fst r = 0 \<or> \<not> is_power_of_two (snd r)")
  case True
  then show ?thesis
    using assms by (intro refused)
      (auto simp: arena_alloc_block_def ribon_arena_allocate_def is_power_of_two_def
            split: if_splits)
next
  case False
  let ?p = "align_up_nat (unat (snd r)) (arena_next a)"
  have args: "fst r \<noteq> 0" "is_power_of_two (snd r)" using False by simp_all
  note eq = ribon_arena_allocate_eq [OF assms(1) args]
  have ge: "arena_next a \<le> ?p"
    using args by (intro align_up_nat_ge) (simp add: is_power_of_two_def unat_gt_0)
  show ?thesis
  proof (cases "?p + unat (fst r) \<le> arena_limit a")
    case True
    then have "unat (of_nat ?p :: u64) = ?p"
      using arena_wfD(2) [OF assms(1)] by (simp add: unat_of_nat)
    then show ?thesis
      using eq(1) [OF True] True assms(2) ge
      by (intro granted [of ?p]) (auto simp: arena_alloc_block_def)
  next
    case False
    then show ?thesis
      using eq(2) assms(2) by (intro refused) (auto simp: arena_alloc_block_def)
  qed
qed

interpretation arena: region_allocator arena_alloc_block arena_wf arena_next arena_limit
proof unfold_locales
  fix a a' :: RibonArena and r :: "u64 \<times> u64" and block p n
  assume wf: "arena_wf a"
  show "arena_wf a' \<and> arena_limit a' = arena_limit a" if "arena_alloc_block a r = (a', block)"
    using wf that by (cases rule: arena_alloc_block_cases [OF wf that]) auto
  show "arena_next a' = arena_next a" if "arena_alloc_block a r = (a', None)"
    by (cases rule: arena_alloc_block_cases [OF wf that]) auto
  show "arena_next a \<le> p \<and> p + n = arena_next a' \<and> p + n \<le> arena_limit a"
    if "arena_alloc_block a r = (a', Some (p, n))"
    by (cases rule: arena_alloc_block_cases [OF wf that]) auto
qed

lemma ribon_arena_init_wf:
  "storage \<noteq> 0 \<Longrightarrow> cap \<noteq> 0 \<Longrightarrow> storage \<le> UINT64_MAX - cap \<Longrightarrow>
     arena_wf (the (ribon_arena_init (Some a) storage cap))"
  by (simp add: ribon_arena_init_def ribon_arena_pointer_range_is_valid_def)

section \<open>Properties\<close>

text \<open>
  C16. The allocator is exact. On a valid arena, a request of positive size with a power-of-two
  alignment succeeds whenever some aligned block of that size fits between the first free byte and
  the end of the storage. It then returns the lowest such address, keeps the storage bounds, moves the first
  free byte to the end of the block, raises the high watermark to the new use and leaves a valid
  arena. Otherwise it reports exhaustion, stores \<open>NULL\<close> and changes nothing. No wrap-around of
  the 64-bit arithmetic is observable.
\<close>

theorem arena_allocate_exact:
  assumes "arena_wf a" and "sz \<noteq> 0" and "is_power_of_two al"
  shows "if \<exists>q. unat al dvd q \<and> arena_next a \<le> q \<and> q + unat sz \<le> arena_limit a
         then \<exists>a' p. ribon_arena_allocate (Some a) sz al True = (CORE_OK, Some a', Some p) \<and>
                unat p = (LEAST q. unat al dvd q \<and> arena_next a \<le> q) \<and>
                arena_wf a' \<and> base a' = base a \<and> capacity a' = capacity a \<and>
                arena_next a' = unat p + unat sz \<and>
                unat (high_watermark a') = max (unat (high_watermark a)) (unat (used a'))
         else ribon_arena_allocate (Some a) sz al True = (CORE_OUT_OF_CAPACITY, Some a, Some 0)"
proof -
  let ?p = "align_up_nat (unat al) (arena_next a)"
  have pos: "0 < unat al" using assms(3) by (simp add: is_power_of_two_def unat_gt_0)
  have least: "(LEAST q. unat al dvd q \<and> arena_next a \<le> q) = ?p"
    using align_up_nat_ge [OF pos] align_up_nat_dvd align_up_nat_least [OF pos]
    by (intro Least_equality) auto
  have fits: "(\<exists>q. unat al dvd q \<and> arena_next a \<le> q \<and> q + unat sz \<le> arena_limit a) \<longleftrightarrow>
      ?p + unat sz \<le> arena_limit a"
    using align_up_nat_ge [OF pos] align_up_nat_dvd align_up_nat_least [OF pos]
    by (meson add_le_mono1 le_trans)
  show ?thesis
  proof (cases "?p + unat sz \<le> arena_limit a")
    case True
    then have "unat (of_nat ?p :: u64) = ?p"
      using arena_wfD(2) [OF assms(1)] by (simp add: unat_of_nat)
    then show ?thesis
      using ribon_arena_allocate_eq(1) [OF assms True] True fits least by auto
  next
    case False
    then show ?thesis
      using ribon_arena_allocate_eq(2) [OF assms] fits by simp
  qed
qed

text \<open>C16 at a 64-byte arena at address 4099 of which 5 bytes are used: 16 bytes aligned to 8.\<close>

theorem arena_allocate_exact_witness:
  "ribon_arena_allocate (Some \<lparr>base = 4099, capacity = 64, used = 5, high_watermark = 5\<rparr>) 16 8 True =
     (CORE_OK, Some \<lparr>base = 4099, capacity = 64, used = 21, high_watermark = 21\<rparr>, Some 4104) \<and>
   (LEAST q. 8 dvd q \<and> 4104 \<le> q) = (4104 :: nat)"
proof -
  let ?a = "\<lparr>base = 4099, capacity = 64, used = 5, high_watermark = 5\<rparr> :: RibonArena"
  have wf: "arena_wf ?a"
    by (simp add: ribon_arena_pointer_range_is_valid_def word_le_nat_alt)
  have al: "is_power_of_two (8 :: u64)" by (simp add: is_power_of_two_def)
  have alloc: "ribon_arena_allocate (Some ?a) 16 8 True =
      (CORE_OK, Some \<lparr>base = 4099, capacity = 64, used = 21, high_watermark = 21\<rparr>, Some 4104)"
    by code_simp
  have fits: "\<exists>q. unat (8 :: u64) dvd q \<and> arena_next ?a \<le> q \<and> q + unat (16 :: u64) \<le> arena_limit ?a"
    by (intro exI [of _ 4104]) simp
  show ?thesis
    using arena_allocate_exact [OF wf _ al, of 16] alloc unfolding if_P [OF fits] by auto
qed

text \<open>
  C17. Starting from a freshly initialised arena, whatever sequence of requests is made,
  including requests that are refused, the granted blocks lie inside the storage, are laid out in
  ascending order and never overlap, and the arena stays valid.
\<close>

theorem arena_blocks_disjoint:
  assumes "storage \<noteq> 0" and "cap \<noteq> 0" and "storage \<le> UINT64_MAX - cap"
    and "alloc_run arena_alloc_block (the (ribon_arena_init (Some a) storage cap)) rs = (blocks, a')"
  shows "sorted_wrt (\<lambda>b c. fst b + snd b \<le> fst c) blocks \<and>
    (\<forall>b \<in> set blocks. unat storage \<le> fst b \<and> fst b + snd b \<le> unat storage + unat cap) \<and>
    arena_wf a'"
proof -
  let ?a = "the (ribon_arena_init (Some a) storage cap)"
  have wf: "arena_wf ?a" by (rule ribon_arena_init_wf [OF assms(1-3)])
  have bounds: "arena_next ?a = unat storage" "arena_limit ?a = unat storage + unat cap"
    using assms(1) by (simp_all add: ribon_arena_init_def)
  have "unat storage \<le> fst b \<and> fst b + snd b \<le> unat storage + unat cap" if "b \<in> set blocks" for b
    using arena.run_within [OF wf assms(4), of "fst b" "snd b"] that bounds by simp
  then show ?thesis
    using arena.run_ascending [OF wf assms(4)] arena.run_valid [OF wf assms(4)] by blast
qed

text \<open>C17 at a 32-byte arena and three requests, of which the second is refused.\<close>

theorem arena_blocks_disjoint_witness:
  "alloc_run arena_alloc_block (the (ribon_arena_init (Some \<lparr>base = 0, capacity = 0, used = 0, high_watermark = 0\<rparr>) 4096 32)) [(5, 1), (64, 8), (8, 8)] =
     ([(4096, 5), (4104, 8)], \<lparr>base = 4096, capacity = 32, used = 16, high_watermark = 16\<rparr>) \<and>
   sorted_wrt (\<lambda>b c. fst b + snd b \<le> fst c) [(4096, 5), (4104, 8 :: nat)] \<and>
   arena_wf \<lparr>base = 4096, capacity = 32, used = 16, high_watermark = 16\<rparr>"
proof -
  have init: "the (ribon_arena_init (Some \<lparr>base = 0, capacity = 0, used = 0, high_watermark = 0\<rparr>) 4096 32) =
      \<lparr>base = 4096, capacity = 32, used = 0, high_watermark = 0\<rparr>"
    by (simp add: ribon_arena_init_def)
  have run: "alloc_run arena_alloc_block (the (ribon_arena_init (Some \<lparr>base = 0, capacity = 0, used = 0, high_watermark = 0\<rparr>) 4096 32))
      [(5, 1), (64, 8), (8, 8)] =
      ([(4096, 5), (4104, 8)], \<lparr>base = 4096, capacity = 32, used = 16, high_watermark = 16\<rparr>)"
    unfolding init by code_simp
  show ?thesis
    using arena_blocks_disjoint [OF _ _ _ run] run by (simp add: word_le_nat_alt)
qed

end
