(* ===== verification/Memory_Map.thy ===== *)
theory Memory_Map
  imports Prelude
begin

text \<open>
  Physical memory ranges and the in-place normalisation of a memory map, from
  \<open>src/core/memory.c\<close>.

  The arrays are lists updated by index, exactly as the C loops write them; the functional
  readings \<open>insert_region\<close> and \<open>merge_from\<close> are the reference the array loops are
  proved against.
\<close>

section \<open>Model\<close>

datatype RibonMemoryStatus =
  MEMORY_OK | MEMORY_BAD_ARGUMENT | MEMORY_OVERFLOW | MEMORY_OUT_OF_CAPACITY | MEMORY_OVERLAP

text \<open>\<open>REGION_UNLISTED\<close> is any value the enumeration does not list.\<close>

datatype RibonMemoryRegionKind =
    REGION_UNKNOWN | REGION_USABLE | REGION_RESERVED | REGION_ACPI | REGION_MMIO
  | REGION_FRAMEBUFFER | REGION_FIRMWARE | REGION_BOOTLOADER | REGION_KERNEL_IMAGE
  | REGION_BOOT_MODULE | REGION_UNLISTED u32

record RibonMemoryRegion =
  region_base :: u64
  region_length :: u64
  region_kind :: RibonMemoryRegionKind
  region_attributes :: u64

record RibonMemoryMap =
  map_regions :: "RibonMemoryRegion list option"
  map_region_count :: u32

record RibonMutableMemoryMap =
  out_regions :: "RibonMemoryRegion list option"
  out_region_count :: u32
  out_capacity :: u32

definition ribon_u64_add_overflows :: "u64 \<Rightarrow> u64 \<Rightarrow> bool" where
  "ribon_u64_add_overflows lhs rhs \<longleftrightarrow> UINT64_MAX - rhs < lhs"

definition ribon_align_down :: "u64 \<Rightarrow> u64 \<Rightarrow> u64" where
  "ribon_align_down v alignment = (if alignment = 0 then v else v - v mod alignment)"

text \<open>The second component is the value stored through \<open>out\<close>, if any.\<close>

definition ribon_align_up :: "u64 \<Rightarrow> u64 \<Rightarrow> bool \<Rightarrow> RibonMemoryStatus \<times> u64 option" where
  "ribon_align_up v alignment out =
     (if \<not> out \<or> alignment = 0 then (MEMORY_BAD_ARGUMENT, None)
      else
        let remainder = v mod alignment
        in if remainder = 0 then (MEMORY_OK, Some v)
           else
             let delta = alignment - remainder
             in if ribon_u64_add_overflows v delta then (MEMORY_OVERFLOW, None)
                else (MEMORY_OK, Some (v + delta)))"

definition ribon_memory_region_end ::
  "RibonMemoryRegion option \<Rightarrow> bool \<Rightarrow> RibonMemoryStatus \<times> u64 option"
where
  "ribon_memory_region_end region out =
     (case region of
        None \<Rightarrow> (MEMORY_BAD_ARGUMENT, None)
      | Some r \<Rightarrow>
          if \<not> out \<or> region_length r = 0 then (MEMORY_BAD_ARGUMENT, None)
          else if ribon_u64_add_overflows (region_base r) (region_length r)
          then (MEMORY_OVERFLOW, None)
          else (MEMORY_OK, Some (region_base r + region_length r)))"

definition ribon_memory_region_is_valid :: "RibonMemoryRegion option \<Rightarrow> bool" where
  "ribon_memory_region_is_valid region \<longleftrightarrow>
     (case region of
        None \<Rightarrow> False
      | Some r \<Rightarrow>
          region_length r \<noteq> 0 \<and> fst (ribon_memory_region_end (Some r) True) = MEMORY_OK)"

fun ribon_memory_region_kind_name :: "RibonMemoryRegionKind \<Rightarrow> string" where
  "ribon_memory_region_kind_name REGION_UNKNOWN = ''unknown''"
| "ribon_memory_region_kind_name REGION_USABLE = ''usable''"
| "ribon_memory_region_kind_name REGION_RESERVED = ''reserved''"
| "ribon_memory_region_kind_name REGION_ACPI = ''acpi''"
| "ribon_memory_region_kind_name REGION_MMIO = ''mmio''"
| "ribon_memory_region_kind_name REGION_FRAMEBUFFER = ''framebuffer''"
| "ribon_memory_region_kind_name REGION_FIRMWARE = ''firmware''"
| "ribon_memory_region_kind_name REGION_BOOTLOADER = ''bootloader''"
| "ribon_memory_region_kind_name REGION_KERNEL_IMAGE = ''kernel-image''"
| "ribon_memory_region_kind_name REGION_BOOT_MODULE = ''boot-module''"
| "ribon_memory_region_kind_name (REGION_UNLISTED _) = ''unknown''"

definition ribon_memory_region_same_class :: "RibonMemoryRegion \<Rightarrow> RibonMemoryRegion \<Rightarrow> bool" where
  "ribon_memory_region_same_class lhs rhs \<longleftrightarrow>
     region_kind lhs = region_kind rhs \<and> region_attributes lhs = region_attributes rhs"

subsection \<open>Insertion\<close>

text \<open>The first loop of the insertion: the first index whose base is above \<open>b\<close>.\<close>

function insert_position :: "RibonMemoryRegion list \<Rightarrow> nat \<Rightarrow> u64 \<Rightarrow> nat \<Rightarrow> nat" where
  "insert_position regions total_count b index =
     (if index < total_count \<and> region_base (regions ! index) \<le> b
      then insert_position regions total_count b (index + 1)
      else index)"
  by pat_completeness auto
termination by (relation "measure (\<lambda>(_, total_count, _, index). total_count - index)") auto

text \<open>The second loop: every element from \<open>index\<close> up moves one place, from the top down.\<close>

fun shift_up :: "RibonMemoryRegion list \<Rightarrow> nat \<Rightarrow> nat \<Rightarrow> RibonMemoryRegion list" where
  "shift_up regions index 0 = regions"
| "shift_up regions index (Suc c) =
     (if index < Suc c then shift_up (regions[Suc c := regions ! c]) index c else regions)"

definition ribon_memory_region_insert_sorted ::
  "RibonMutableMemoryMap \<Rightarrow> RibonMemoryRegion \<Rightarrow> RibonMemoryStatus \<times> RibonMutableMemoryMap"
where
  "ribon_memory_region_insert_sorted destination region =
     (if out_capacity destination \<le> out_region_count destination
      then (MEMORY_OUT_OF_CAPACITY, destination)
      else
        let regions = the (out_regions destination);
            total_count = unat (out_region_count destination);
            index = insert_position regions total_count (region_base region) 0
        in (MEMORY_OK,
            destination\<lparr>out_regions := Some ((shift_up regions index total_count)[index := region]),
                        out_region_count := out_region_count destination + 1\<rparr>))"

subsection \<open>Merging\<close>

text \<open>The result carries the array and, when the loop ends normally, the final write index.\<close>

function merge_loop ::
  "RibonMemoryRegion list \<Rightarrow> nat \<Rightarrow> nat \<Rightarrow> nat \<Rightarrow> RibonMemoryStatus \<times> RibonMemoryRegion list \<times> nat"
where
  "merge_loop regions total_count read_index write_index =
     (if \<not> read_index < total_count then (MEMORY_OK, regions, write_index)
      else
        let current = regions ! read_index
        in if fst (ribon_memory_region_end (Some current) True) \<noteq> MEMORY_OK
           then (MEMORY_OVERFLOW, regions, write_index)
           else
             let previous = regions ! (write_index - 1);
                 (previous_status, previous_end) =
                   (if write_index > 0 then ribon_memory_region_end (Some previous) True
                    else (MEMORY_OK, Some 0))
             in if previous_status \<noteq> MEMORY_OK then (MEMORY_OVERFLOW, regions, write_index)
                else if write_index > 0 \<and> region_base current < the previous_end
                then (MEMORY_OVERLAP, regions, write_index)
                else if write_index > 0 \<and> region_base current = the previous_end \<and>
                        ribon_memory_region_same_class previous current
                then merge_loop
                       (regions[write_index - 1 :=
                          previous\<lparr>region_length := region_length previous + region_length current\<rparr>])
                       total_count (read_index + 1) write_index
                else merge_loop (regions[write_index := current]) total_count (read_index + 1)
                       (write_index + 1))"
  by pat_completeness auto
termination by (relation "measure (\<lambda>(_, total_count, r, _). total_count - r)") auto

definition ribon_memory_map_merge_adjacent ::
  "RibonMutableMemoryMap \<Rightarrow> RibonMemoryStatus \<times> RibonMutableMemoryMap"
where
  "ribon_memory_map_merge_adjacent destination =
     (let (status, regions, write_index) =
            merge_loop (the (out_regions destination)) (unat (out_region_count destination)) 0 0
      in (status,
          destination\<lparr>out_regions := Some regions,
                      out_region_count := (if status = MEMORY_OK then of_nat write_index
                                           else out_region_count destination)\<rparr>))"

subsection \<open>Normalisation\<close>

fun insert_all ::
  "RibonMemoryRegion list \<Rightarrow> RibonMutableMemoryMap \<Rightarrow> RibonMemoryStatus \<times> RibonMutableMemoryMap"
where
  "insert_all [] destination = (MEMORY_OK, destination)"
| "insert_all (region # rest) destination =
     (if \<not> ribon_memory_region_is_valid (Some region) then (MEMORY_BAD_ARGUMENT, destination)
      else
        let (status, destination') = ribon_memory_region_insert_sorted destination region
        in if status \<noteq> MEMORY_OK then (status, destination')
           else insert_all rest destination')"

text \<open>
  The elements the loops over the source visit, for an array that holds at least
  \<open>region_count\<close> elements.
\<close>

definition source_regions :: "RibonMemoryMap \<Rightarrow> RibonMemoryRegion list" where
  "source_regions m =
     (case map_regions m of None \<Rightarrow> [] | Some rs \<Rightarrow> take (unat (map_region_count m)) rs)"

definition ribon_memory_map_normalize ::
  "RibonMemoryMap option \<Rightarrow> RibonMutableMemoryMap option \<Rightarrow>
   RibonMemoryStatus \<times> RibonMutableMemoryMap option"
where
  "ribon_memory_map_normalize source destination =
     (case (source, destination) of
        (Some s, Some d) \<Rightarrow>
          if out_regions d = None then (MEMORY_BAD_ARGUMENT, destination)
          else
            let (status, d') = insert_all (source_regions s) (d\<lparr>out_region_count := 0\<rparr>)
            in if status \<noteq> MEMORY_OK then (status, Some d')
               else map_prod id Some (ribon_memory_map_merge_adjacent d')
      | _ \<Rightarrow> (MEMORY_BAD_ARGUMENT, destination))"

fun usable_loop :: "RibonMemoryRegion list \<Rightarrow> u64 \<Rightarrow> u64" where
  "usable_loop [] sum_bytes = sum_bytes"
| "usable_loop (region # rest) sum_bytes =
     (if region_kind region \<noteq> REGION_USABLE then usable_loop rest sum_bytes
      else if ribon_u64_add_overflows sum_bytes (region_length region) then UINT64_MAX
      else usable_loop rest (sum_bytes + region_length region))"

definition ribon_memory_map_usable_bytes :: "RibonMemoryMap option \<Rightarrow> u64" where
  "ribon_memory_map_usable_bytes memory_map =
     (case memory_map of None \<Rightarrow> 0 | Some m \<Rightarrow> usable_loop (source_regions m) 0)"

section \<open>Ranges\<close>

abbreviation region_valid :: "RibonMemoryRegion \<Rightarrow> bool" where
  "region_valid r \<equiv> ribon_memory_region_is_valid (Some r)"

text \<open>Exclusive end and set of addresses of a range, as unbounded numbers.\<close>

definition region_end :: "RibonMemoryRegion \<Rightarrow> nat" where
  "region_end r = unat (region_base r) + unat (region_length r)"

definition region_addresses :: "RibonMemoryRegion \<Rightarrow> nat set" where
  "region_addresses r = {unat (region_base r) ..< region_end r}"

lemma add_overflows_iff [guard_simps]:
  "ribon_u64_add_overflows a b \<longleftrightarrow> 2 ^ 64 \<le> unat a + unat b"
  unfolding ribon_u64_add_overflows_def using guard_gt_max_iff [of b a] by simp

lemma region_valid_iff:
  "region_valid r \<longleftrightarrow> 0 < unat (region_length r) \<and> region_end r < 2 ^ 64"
  by (auto simp: ribon_memory_region_is_valid_def ribon_memory_region_end_def guard_simps
      region_end_def unat_gt_0)

lemma ribon_memory_region_end_valid:
  "region_valid r \<Longrightarrow> ribon_memory_region_end (Some r) True =
     (MEMORY_OK, Some (region_base r + region_length r))"
  by (auto simp: ribon_memory_region_is_valid_def ribon_memory_region_end_def split: if_splits)

lemma unat_region_end:
  "region_valid r \<Longrightarrow> unat (region_base r + region_length r) = region_end r"
  by (simp add: region_valid_iff region_end_def unat_add_no_overflow)

lemma region_base_less_end: "region_valid r \<Longrightarrow> unat (region_base r) < region_end r"
  by (simp add: region_valid_iff region_end_def)

section \<open>The array loops compute the reference functions\<close>

fun insert_region :: "RibonMemoryRegion \<Rightarrow> RibonMemoryRegion list \<Rightarrow> RibonMemoryRegion list" where
  "insert_region x [] = [x]"
| "insert_region x (y # ys) =
     (if region_base y \<le> region_base x then y # insert_region x ys else x # y # ys)"

text \<open>
  Merging with the last written range \<open>p\<close> in hand: fails on an overlap, extends \<open>p\<close> by an
  adjacent range of its class, and otherwise writes \<open>p\<close> out.
\<close>

fun merge_from ::
  "RibonMemoryRegion \<Rightarrow> RibonMemoryRegion list \<Rightarrow> RibonMemoryRegion list option"
where
  "merge_from p [] = Some [p]"
| "merge_from p (c # cs) =
     (if unat (region_base c) < region_end p then None
      else if unat (region_base c) = region_end p \<and> ribon_memory_region_same_class p c
      then merge_from (p\<lparr>region_length := region_length p + region_length c\<rparr>) cs
      else map_option ((#) p) (merge_from c cs))"

fun merge_regions :: "RibonMemoryRegion list \<Rightarrow> RibonMemoryRegion list option" where
  "merge_regions [] = Some []"
| "merge_regions (p # cs) = merge_from p cs"

declare insert_position.simps [simp del] merge_loop.simps [simp del]

lemma insert_position_bounds:
  "index \<le> total_count \<Longrightarrow> index \<le> insert_position regions total_count b index \<and>
     insert_position regions total_count b index \<le> total_count"
  by (induction regions total_count b index rule: insert_position.induct)
    (subst (1 2) insert_position.simps, auto)

lemma insert_position_append:
  "insert_position (pre @ xs @ post) (length pre + length xs) (region_base x) (length pre) =
     length pre + length (takeWhile (\<lambda>y. region_base y \<le> region_base x) xs)"
proof (induction xs arbitrary: pre)
  case Nil
  then show ?case by (simp add: insert_position.simps)
next
  case (Cons y ys)
  show ?case
    using Cons.IH [of "pre @ [y]"] by (simp add: insert_position.simps nth_append)
qed

lemma shift_up_nth:
  "c < length regions \<Longrightarrow> i < length regions \<Longrightarrow>
     shift_up regions index c ! i = (if index < i \<and> i \<le> c then regions ! (i - 1) else regions ! i)"
proof (induction c arbitrary: regions)
  case (Suc c)
  then show ?case
    by (auto simp: nth_list_update less_Suc_eq_le le_Suc_eq)
qed auto

lemma length_shift_up [simp]: "length (shift_up regions index c) = length regions"
  by (induction c arbitrary: regions) auto

lemma insert_region_split:
  "insert_region x xs =
     takeWhile (\<lambda>y. region_base y \<le> region_base x) xs @
     x # dropWhile (\<lambda>y. region_base y \<le> region_base x) xs"
  by (induction xs) auto

lemma shift_up_split:
  assumes "k \<le> n" and "n < length regions"
  shows "take (Suc n) ((shift_up regions k n)[k := x]) =
    take k regions @ x # drop k (take n regions)"
proof (rule nth_equalityI)
  fix i
  assume "i < length (take (Suc n) ((shift_up regions k n)[k := x]))"
  then show "take (Suc n) ((shift_up regions k n)[k := x]) ! i =
      (take k regions @ x # drop k (take n regions)) ! i"
    using assms by (auto simp: nth_list_update shift_up_nth nth_append nth_Cons'
        less_Suc_eq_le)
qed (use assms in auto)

text \<open>The live prefix of a destination.\<close>

definition out_list :: "RibonMutableMemoryMap \<Rightarrow> RibonMemoryRegion list" where
  "out_list d = take (unat (out_region_count d)) (the (out_regions d))"

text \<open>The array has room for the declared capacity, and the total_count does not exceed it.\<close>

definition out_wf :: "RibonMutableMemoryMap \<Rightarrow> bool" where
  "out_wf d \<longleftrightarrow> out_regions d \<noteq> None \<and> unat (out_capacity d) \<le> length (the (out_regions d)) \<and>
     out_region_count d \<le> out_capacity d"

lemma insert_sorted_eq:
  assumes wf: "out_wf d" and room: "out_region_count d < out_capacity d"
  shows "\<exists>d'. ribon_memory_region_insert_sorted d x = (MEMORY_OK, d') \<and> out_wf d' \<and>
    out_list d' = insert_region x (out_list d) \<and> out_capacity d' = out_capacity d"
proof -
  let ?rs = "the (out_regions d)" and ?n = "unat (out_region_count d)"
  let ?k = "insert_position ?rs ?n (region_base x) 0"
  let ?p = "\<lambda>y. region_base y \<le> region_base x"
  have n: "?n < unat (out_capacity d)" "?n < length ?rs"
    using wf room by (auto simp: out_wf_def word_less_nat_alt)
  have total_count: "unat (out_region_count d + 1) = Suc ?n"
    using n(1) unat_bound [of "out_capacity d"]
    by (subst unat_add_no_overflow) simp_all
  have "?rs = [] @ take ?n ?rs @ drop ?n ?rs" by simp
  then have k: "?k = length (takeWhile ?p (take ?n ?rs))"
    using insert_position_append [of "[]" "take ?n ?rs" "drop ?n ?rs" x] n by simp
  have "?k \<le> ?n" by (simp add: insert_position_bounds)
  then have "take (Suc ?n) ((shift_up ?rs ?k ?n)[?k := x]) =
      take ?k (take ?n ?rs) @ x # drop ?k (take ?n ?rs)"
    using shift_up_split [of ?k ?n ?rs x] n by (simp add: min_def)
  also have "\<dots> = insert_region x (take ?n ?rs)"
    unfolding k insert_region_split
    by (simp only: takeWhile_eq_take [symmetric] dropWhile_eq_drop [symmetric])
  finally have "take (Suc ?n) ((shift_up ?rs ?k ?n)[?k := x]) = insert_region x (take ?n ?rs)" .
  then show ?thesis
    using wf room n total_count
    by (auto simp: ribon_memory_region_insert_sorted_def Let_def out_list_def out_wf_def
        word_le_nat_alt)
qed

lemma insert_region_set [simp]: "set (insert_region x xs) = insert x (set xs)"
  by (induction xs) auto

lemma insert_region_length [simp]: "length (insert_region x xs) = Suc (length xs)"
  by (induction xs) auto

definition bases_sorted :: "RibonMemoryRegion list \<Rightarrow> bool" where
  "bases_sorted rs \<longleftrightarrow> sorted_wrt (\<lambda>r s. region_base r \<le> region_base s) rs"

lemma insert_region_sorted: "bases_sorted xs \<Longrightarrow> bases_sorted (insert_region x xs)"
  unfolding bases_sorted_def
  by (induction xs) (auto intro: order.trans)

lemma out_wf_full:
  "out_wf d \<Longrightarrow> \<not> out_region_count d < out_capacity d \<Longrightarrow>
     ribon_memory_region_insert_sorted d x = (MEMORY_OUT_OF_CAPACITY, d)"
  by (simp add: ribon_memory_region_insert_sorted_def not_less)

lemma out_list_length: "out_wf d \<Longrightarrow> length (out_list d) = unat (out_region_count d)"
  by (auto simp: out_list_def out_wf_def word_le_nat_alt)

text \<open>
  The insertion loop succeeds exactly on valid ranges that fit, and leaves them sorted after the
  ones already present.
\<close>

lemma insert_all_ok:
  assumes "out_wf d" and "\<forall>r \<in> set rs. region_valid r"
    and "length (out_list d) + length rs \<le> unat (out_capacity d)"
  shows "\<exists>d'. insert_all rs d = (MEMORY_OK, d') \<and> out_wf d' \<and>
    out_list d' = fold insert_region rs (out_list d) \<and> out_capacity d' = out_capacity d"
  using assms
proof (induction rs arbitrary: d)
  case (Cons r rs)
  have "out_region_count d < out_capacity d"
    using Cons.prems out_list_length [of d] by (simp add: word_less_nat_alt)
  then obtain d1 where d1: "ribon_memory_region_insert_sorted d r = (MEMORY_OK, d1)" "out_wf d1"
      "out_list d1 = insert_region r (out_list d)" "out_capacity d1 = out_capacity d"
    using insert_sorted_eq [OF Cons.prems(1), of r] by blast
  then show ?case
    using Cons.IH [of d1] Cons.prems by auto
qed simp

lemma insert_all_error:
  assumes "out_wf d"
    and "\<not> ((\<forall>r \<in> set rs. region_valid r) \<and>
           length (out_list d) + length rs \<le> unat (out_capacity d))"
  shows "fst (insert_all rs d) \<in> {MEMORY_BAD_ARGUMENT, MEMORY_OUT_OF_CAPACITY}"
  using assms
proof (induction rs arbitrary: d)
  case Nil
  then show ?case
    using out_list_length [of d] by (simp add: out_wf_def word_le_nat_alt)
next
  case (Cons r rs)
  show ?case
  proof (cases "region_valid r \<and> out_region_count d < out_capacity d")
    case True
    then obtain d1 where d1: "ribon_memory_region_insert_sorted d r = (MEMORY_OK, d1)" "out_wf d1"
        "out_list d1 = insert_region r (out_list d)" "out_capacity d1 = out_capacity d"
      using insert_sorted_eq [OF Cons.prems(1), of r] by blast
    then show ?thesis
      using Cons.IH [of d1] Cons.prems True by auto
  next
    case False
    then show ?thesis
      using out_wf_full [OF Cons.prems(1)] by auto
  qed
qed

subsection \<open>Merging\<close>

text \<open>
  The in-place loop never overtakes its read index, and the range ends it recomputes never
  overflow: an array of valid ranges makes it compute \<open>merge_from\<close> on the unread suffix.
\<close>

lemma merge_extend_valid:
  assumes "region_valid p" and "region_valid c" and "unat (region_base c) = region_end p"
  shows "region_valid (p\<lparr>region_length := region_length p + region_length c\<rparr>)"
    and "region_end (p\<lparr>region_length := region_length p + region_length c\<rparr>) = region_end c"
proof -
  have "unat (region_length p + region_length c) = unat (region_length p) + unat (region_length c)"
    using assms by (intro unat_add_no_overflow) (simp_all add: region_valid_iff region_end_def)
  then show "region_valid (p\<lparr>region_length := region_length p + region_length c\<rparr>)"
    and "region_end (p\<lparr>region_length := region_length p + region_length c\<rparr>) = region_end c"
    using assms by (simp_all add: region_valid_iff region_end_def)
qed

lemma nth_middle_gap:
  "(pre @ p # gap @ c # cs) ! Suc (length pre + length gap) = c"
  "(pre @ p # gap) ! length pre = p"
  by (simp_all add: nth_append)

lemma merge_write:
  "(pre @ p # gap @ c # cs)[Suc (length pre) := c] = (pre @ [p]) @ c # tl (gap @ [c]) @ cs"
  by (cases gap) (simp_all add: list_update_append)

lemma merge_loop_from:
  assumes "\<forall>r \<in> set (p # todo). region_valid r"
    and "n = Suc (length pre + length gap)"
  shows "case merge_from p todo of
     None \<Rightarrow> fst (merge_loop (pre @ p # gap @ todo @ rest) (n + length todo) n (Suc (length pre)))
              = MEMORY_OVERLAP
   | Some out \<Rightarrow> \<exists>tail. merge_loop (pre @ p # gap @ todo @ rest) (n + length todo) n (Suc (length pre))
              = (MEMORY_OK, pre @ out @ tail, length pre + length out)"
  using assms
proof (induction todo arbitrary: p pre gap n)
  case Nil
  then show ?case by (simp add: merge_loop.simps)
next
  case (Cons c cs)
  let ?rs = "pre @ p # gap @ (c # cs) @ rest"
  have valid: "region_valid p" "region_valid c" using Cons.prems by simp_all
  have nth: "?rs ! n = c" "?rs ! length pre = p"
    using Cons.prems nth_middle_gap(1) [of pre p gap c "cs @ rest"]
      nth_middle_gap(2) [of pre p "gap @ (c # cs) @ rest"] by simp_all
  have cmp: "region_base c < region_base p + region_length p \<longleftrightarrow> unat (region_base c) < region_end p"
      "region_base c = region_base p + region_length p \<longleftrightarrow> unat (region_base c) = region_end p"
    using unat_region_end [OF valid(1)] by (simp_all add: word_less_nat_alt word_unat_eq_iff)
  let ?p = "p\<lparr>region_length := region_length p + region_length c\<rparr>"
  have step: "merge_loop ?rs (n + length (c # cs)) n (Suc (length pre)) =
      (if unat (region_base c) < region_end p then (MEMORY_OVERLAP, ?rs, Suc (length pre))
       else if unat (region_base c) = region_end p \<and> ribon_memory_region_same_class p c
       then merge_loop (?rs[length pre := ?p]) (Suc n + length cs) (Suc n) (Suc (length pre))
       else merge_loop (?rs[Suc (length pre) := c]) (Suc n + length cs) (Suc n) (Suc (Suc (length pre))))"
    using valid
    by (subst merge_loop.simps)
      (simp add: nth [simplified] cmp ribon_memory_region_end_valid Let_def)
  have written: "?rs[Suc (length pre) := c] = (pre @ [p]) @ c # tl (gap @ [c]) @ cs @ rest"
    using merge_write [of pre p gap c "cs @ rest"] by simp
  have extend: "?rs[length pre := ?p] = pre @ ?p # (gap @ [c]) @ cs @ rest"
    by (simp add: list_update_append)
  consider (overlap) "unat (region_base c) < region_end p"
    | (merge) "unat (region_base c) = region_end p" "ribon_memory_region_same_class p c"
    | (keep) "\<not> unat (region_base c) < region_end p"
        "\<not> (unat (region_base c) = region_end p \<and> ribon_memory_region_same_class p c)"
    by blast
  then show ?case
  proof cases
    case overlap
    then show ?thesis unfolding step by simp
  next
    case merge
    have "region_valid ?p" by (rule merge_extend_valid(1) [OF valid merge(1)])
    then show ?thesis
      using Cons.IH [of ?p "Suc n" pre "gap @ [c]"] Cons.prems merge
      unfolding step extend by simp
  next
    case keep
    have "merge_from p (c # cs) = map_option ((#) p) (merge_from c cs)"
      using keep by auto
    then show ?thesis
      using Cons.IH [of c "Suc n" "pre @ [p]" "tl (gap @ [c])"] Cons.prems
      unfolding step written if_not_P [OF keep(1)] if_not_P [OF keep(2)]
      by (simp split: option.splits)
  qed
qed

lemma merge_loop_regions:
  assumes "\<forall>r \<in> set rs. region_valid r"
  shows "case merge_regions rs of
     None \<Rightarrow> fst (merge_loop (rs @ rest) (length rs) 0 0) = MEMORY_OVERLAP
   | Some out \<Rightarrow> \<exists>tail. merge_loop (rs @ rest) (length rs) 0 0 = (MEMORY_OK, out @ tail, length out)"
proof (cases rs)
  case Nil
  then show ?thesis by (simp add: merge_loop.simps)
next
  case (Cons p cs)
  then have "merge_loop (rs @ rest) (length rs) 0 0 = merge_loop (p # cs @ rest) (1 + length cs) 1 1"
    using assms by (subst merge_loop.simps) (simp add: ribon_memory_region_end_valid)
  then show ?thesis
    using merge_loop_from [of p cs 1 "[]" "[]" rest] assms Cons by (simp split: option.splits)
qed

section \<open>What the normal form means\<close>

text \<open>The ownership classes a map gives to an address.\<close>

definition class_at :: "RibonMemoryRegion list \<Rightarrow> nat \<Rightarrow> (RibonMemoryRegionKind \<times> u64) set" where
  "class_at rs a = (\<lambda>r. (region_kind r, region_attributes r)) ` {r \<in> set rs. a \<in> region_addresses r}"

definition regions_disjoint :: "RibonMemoryRegion list \<Rightarrow> bool" where
  "regions_disjoint rs \<longleftrightarrow> sorted_wrt (\<lambda>r s. region_addresses r \<inter> region_addresses s = {}) rs"

text \<open>Ascending and separated, and fully merged.\<close>

definition regions_ascending :: "RibonMemoryRegion list \<Rightarrow> bool" where
  "regions_ascending rs \<longleftrightarrow> sorted_wrt (\<lambda>r s. region_end r \<le> unat (region_base s)) rs"

definition fully_merged :: "RibonMemoryRegion list \<Rightarrow> bool" where
  "fully_merged rs \<longleftrightarrow> successively (\<lambda>r s. \<not> (region_end r = unat (region_base s) \<and>
     ribon_memory_region_same_class r s)) rs"

lemma class_at_Nil [simp]: "class_at [] = (\<lambda>_. {})"
  by (simp add: class_at_def fun_eq_iff)

lemma class_at_Cons:
  "class_at (r # rs) a =
     (if a \<in> region_addresses r then {(region_kind r, region_attributes r)} else {}) \<union> class_at rs a"
  by (auto simp: class_at_def)

lemma sorted_wrt_insert_region:
  assumes "\<And>x y. P x y \<longleftrightarrow> P y x"
  shows "sorted_wrt P (insert_region x xs) \<longleftrightarrow> (\<forall>y \<in> set xs. P x y) \<and> sorted_wrt P xs"
  by (induction xs) (use assms in auto)

lemma fold_insert_region_set [simp]: "set (fold insert_region rs xs) = set rs \<union> set xs"
  by (induction rs arbitrary: xs) auto

lemma fold_insert_region_sorted: "bases_sorted xs \<Longrightarrow> bases_sorted (fold insert_region rs xs)"
  by (induction rs arbitrary: xs) (auto simp: insert_region_sorted)

lemma sorted_wrt_fold_insert_region:
  assumes "\<And>x y. P x y \<longleftrightarrow> P y x"
  shows "sorted_wrt P (fold insert_region rs xs) \<longleftrightarrow>
    sorted_wrt P rs \<and> sorted_wrt P xs \<and> (\<forall>r \<in> set rs. \<forall>s \<in> set xs. P r s)"
proof (induction rs arbitrary: xs)
  case (Cons r rs)
  show ?case
    using Cons.IH [of "insert_region r xs"] sorted_wrt_insert_region [of P r xs, OF assms] assms
    by auto
qed simp

lemma fold_insert_region_disjoint:
  "regions_disjoint (fold insert_region rs []) \<longleftrightarrow> regions_disjoint rs"
  unfolding regions_disjoint_def by (subst sorted_wrt_fold_insert_region) auto

lemma ascending_iff_disjoint:
  assumes "\<forall>r \<in> set rs. region_valid r" and "bases_sorted rs"
  shows "regions_ascending rs \<longleftrightarrow> regions_disjoint rs"
proof -
  have "region_end r \<le> unat (region_base s) \<longleftrightarrow> region_addresses r \<inter> region_addresses s = {}"
    if "region_valid r" "region_valid s" "region_base r \<le> region_base s" for r s
    using region_base_less_end [OF that(1)] region_base_less_end [OF that(2)] that(3)
    by (auto simp: region_addresses_def word_le_nat_alt)
  with assms show ?thesis
    unfolding regions_ascending_def regions_disjoint_def bases_sorted_def
    by (induction rs) auto
qed

lemma merge_from_ascending:
  "\<forall>r \<in> set (p # cs). region_valid r \<Longrightarrow>
     merge_from p cs \<noteq> None \<longleftrightarrow> successively (\<lambda>r s. region_end r \<le> unat (region_base s)) (p # cs)"
proof (induction p cs rule: merge_from.induct)
  case (2 p c cs)
  then show ?case
    using merge_extend_valid [of p c]
    by (cases cs) (auto simp: not_less)
qed simp

lemma successively_ascending:
  "\<forall>r \<in> set rs. region_valid r \<Longrightarrow>
     successively (\<lambda>r s. region_end r \<le> unat (region_base s)) rs \<longleftrightarrow> regions_ascending rs"
proof (induction rs)
  case (Cons r rs)
  show ?case
  proof (cases rs)
    case (Cons s ss)
    have "region_end s \<le> unat (region_base t) \<Longrightarrow> unat (region_base s) \<le> unat (region_base t)" for t
      using region_base_less_end [of s] Cons.prems Cons by fastforce
    then show ?thesis
      using Cons.IH Cons.prems Cons unfolding regions_ascending_def by fastforce
  qed (simp add: regions_ascending_def)
qed (simp add: regions_ascending_def)

lemma merge_from_result:
  "\<forall>r \<in> set (p # cs). region_valid r \<Longrightarrow> merge_from p cs = Some out \<Longrightarrow>
     (\<forall>r \<in> set out. region_valid r) \<and> (\<exists>q qs. out = q # qs \<and> region_base q = region_base p \<and>
       ribon_memory_region_same_class q p) \<and>
     successively (\<lambda>r s. region_end r \<le> unat (region_base s)) out \<and> fully_merged out \<and>
     length out \<le> Suc (length cs) \<and> class_at out = class_at (p # cs)"
proof (induction p cs arbitrary: out rule: merge_from.induct)
  case (1 p)
  then have "out = [p]" by simp
  then show ?case
    using "1.prems"(1) by (simp add: fully_merged_def ribon_memory_region_same_class_def)
next
  case (2 p c cs)
  let ?p = "p\<lparr>region_length := region_length p + region_length c\<rparr>"
  have nov: "\<not> unat (region_base c) < region_end p" using "2.prems"(2) by auto
  have valid: "region_valid p" "region_valid c" using "2.prems"(1) by simp_all
  show ?case
  proof (cases "unat (region_base c) = region_end p \<and> ribon_memory_region_same_class p c")
    case True
    note ext = merge_extend_valid [OF valid conjunct1 [OF True]]
    have "region_addresses ?p = region_addresses p \<union> region_addresses c"
      using True ext(2) region_base_less_end [OF valid(1)] region_base_less_end [OF valid(2)]
      by (auto simp: region_addresses_def)
    then have "class_at (?p # cs) = class_at (p # c # cs)"
      using True by (auto simp: fun_eq_iff class_at_Cons ribon_memory_region_same_class_def)
    moreover have "merge_from ?p cs = Some out" using "2.prems"(2) nov True by simp
    moreover have "ribon_memory_region_same_class q ?p \<longleftrightarrow> ribon_memory_region_same_class q p" for q
      by (simp add: ribon_memory_region_same_class_def)
    ultimately show ?thesis
      using "2.IH"(1) [OF nov True, of out] "2.prems"(1) ext(1) by simp
  next
    case False
    obtain rest where rest: "merge_from c cs = Some rest" "out = p # rest"
      using "2.prems"(2) nov False by (auto split: if_splits)
    have IH: "(\<forall>r \<in> set rest. region_valid r)" "fully_merged rest"
        "successively (\<lambda>r s. region_end r \<le> unat (region_base s)) rest"
        "length rest \<le> Suc (length cs)" "class_at rest = class_at (c # cs)"
      using "2.IH"(2) [OF nov False _ rest(1)] "2.prems"(1) by simp_all
    obtain q qs where q: "rest = q # qs" "region_base q = region_base c"
        "ribon_memory_region_same_class q c"
      using "2.IH"(2) [OF nov False _ rest(1)] "2.prems"(1) by auto
    have "ribon_memory_region_same_class p q \<longleftrightarrow> ribon_memory_region_same_class p c"
      using q(3) by (simp add: ribon_memory_region_same_class_def)
    then have "fully_merged out"
      using IH(2) False q by (simp add: fully_merged_def rest(2))
    moreover have "class_at out = class_at (p # c # cs)"
      using IH(5) by (simp add: fun_eq_iff class_at_Cons rest(2))
    moreover have "successively (\<lambda>r s. region_end r \<le> unat (region_base s)) out"
      using IH(3) nov q by (simp add: rest(2))
    ultimately show ?thesis
      using IH(1,4) valid(1) by (simp add: rest(2) ribon_memory_region_same_class_def)
  qed
qed

lemma merge_regions_result:
  assumes "\<forall>r \<in> set rs. region_valid r"
  shows "merge_regions rs \<noteq> None \<longleftrightarrow> regions_ascending rs"
    and "merge_regions rs = Some out \<Longrightarrow>
      (\<forall>r \<in> set out. region_valid r) \<and> regions_ascending out \<and> fully_merged out \<and>
      length out \<le> length rs \<and> class_at out = class_at rs"
proof -
  show "merge_regions rs \<noteq> None \<longleftrightarrow> regions_ascending rs"
  proof (cases rs)
    case (Cons p cs)
    then show ?thesis
      using merge_from_ascending [of p cs] successively_ascending [OF assms] assms by simp
  qed (simp add: regions_ascending_def)
  show "(\<forall>r \<in> set out. region_valid r) \<and> regions_ascending out \<and> fully_merged out \<and>
      length out \<le> length rs \<and> class_at out = class_at rs" if "merge_regions rs = Some out"
  proof (cases rs)
    case Nil
    then show ?thesis using that by (simp add: regions_ascending_def fully_merged_def)
  next
    case (Cons p cs)
    then show ?thesis
      using merge_from_result [of p cs out] successively_ascending [of out] assms that by auto
  qed
qed

text \<open>The whole normalisation, through the reference functions.\<close>

lemma normalize_reference:
  fixes s :: RibonMemoryMap and d :: RibonMutableMemoryMap
  defines "rs \<equiv> source_regions s"
  assumes room: "out_regions d = Some store" "unat (out_capacity d) \<le> length store"
  shows "(\<forall>r \<in> set rs. region_valid r) \<and> length rs \<le> unat (out_capacity d) \<Longrightarrow>
      (case merge_regions (fold insert_region rs []) of
         None \<Rightarrow> fst (ribon_memory_map_normalize (Some s) (Some d)) = MEMORY_OVERLAP
       | Some out \<Rightarrow> \<exists>d'. ribon_memory_map_normalize (Some s) (Some d) = (MEMORY_OK, Some d') \<and>
           out_list d' = out)"
    and "\<not> ((\<forall>r \<in> set rs. region_valid r) \<and> length rs \<le> unat (out_capacity d)) \<Longrightarrow>
      fst (ribon_memory_map_normalize (Some s) (Some d)) \<in> {MEMORY_BAD_ARGUMENT, MEMORY_OUT_OF_CAPACITY}"
proof -
  let ?d = "d\<lparr>out_region_count := 0\<rparr>"
  have wf: "out_wf ?d" using room by (simp add: out_wf_def)
  have empty: "out_list ?d = []" by (simp add: out_list_def)
  show "fst (ribon_memory_map_normalize (Some s) (Some d)) \<in> {MEMORY_BAD_ARGUMENT, MEMORY_OUT_OF_CAPACITY}"
    if "\<not> ((\<forall>r \<in> set rs. region_valid r) \<and> length rs \<le> unat (out_capacity d))"
    using insert_all_error [OF wf, of rs] that room empty
    by (auto simp: ribon_memory_map_normalize_def rs_def split: prod.splits)
  assume ok: "(\<forall>r \<in> set rs. region_valid r) \<and> length rs \<le> unat (out_capacity d)"
  let ?sorted = "fold insert_region rs []"
  obtain d1 where d1: "insert_all rs ?d = (MEMORY_OK, d1)" "out_wf d1" "out_list d1 = ?sorted"
    using insert_all_ok [OF wf, of rs] ok empty by auto
  obtain rest where rest: "the (out_regions d1) = ?sorted @ rest"
      "length ?sorted = unat (out_region_count d1)"
    using d1 out_list_length [OF d1(2)] by (metis append_take_drop_id out_list_def)
  have norm: "ribon_memory_map_normalize (Some s) (Some d) =
      map_prod id Some (ribon_memory_map_merge_adjacent d1)"
    using d1(1) room by (simp add: ribon_memory_map_normalize_def rs_def)
  have merge: "case merge_regions ?sorted of
     None \<Rightarrow> fst (merge_loop (?sorted @ rest) (length ?sorted) 0 0) = MEMORY_OVERLAP
   | Some out \<Rightarrow> \<exists>tail. merge_loop (?sorted @ rest) (length ?sorted) 0 0 =
        (MEMORY_OK, out @ tail, length out)"
    using ok by (intro merge_loop_regions) simp
  have fits: "length out < 2 ^ 32" if "merge_regions ?sorted = Some out" for out
    using merge_regions_result(2) [of ?sorted out] that ok rest(2)
      unat_bound [of "out_region_count d1"] by fastforce
  show "case merge_regions ?sorted of
      None \<Rightarrow> fst (ribon_memory_map_normalize (Some s) (Some d)) = MEMORY_OVERLAP
    | Some out \<Rightarrow> \<exists>d'. ribon_memory_map_normalize (Some s) (Some d) = (MEMORY_OK, Some d') \<and>
        out_list d' = out"
    using merge fits unfolding norm ribon_memory_map_merge_adjacent_def rest(1) rest(2) [symmetric]
    by (auto simp: out_list_def unat_of_nat take_bit_nat_eq_self split: option.splits prod.splits)
qed

section \<open>Canonicity and byte counts\<close>

definition normal_form :: "RibonMemoryRegion list \<Rightarrow> bool" where
  "normal_form rs \<longleftrightarrow> (\<forall>r \<in> set rs. region_valid r) \<and> regions_ascending rs \<and> fully_merged rs"

lemma normal_form_tl: "normal_form (r # rs) \<Longrightarrow> normal_form rs"
  by (cases rs) (auto simp: normal_form_def regions_ascending_def fully_merged_def)

lemma normal_form_tail_above:
  "normal_form (r # rs) \<Longrightarrow> a < region_end r \<Longrightarrow> class_at rs a = {}"
  by (fastforce simp: normal_form_def regions_ascending_def class_at_def region_addresses_def)

lemma normal_form_head:
  assumes "normal_form (r # rs)"
  shows "a < unat (region_base r) \<Longrightarrow> class_at (r # rs) a = {}"
    and "unat (region_base r) \<le> a \<Longrightarrow> a < region_end r \<Longrightarrow>
      class_at (r # rs) a = {(region_kind r, region_attributes r)}"
    and "region_end r \<le> a \<Longrightarrow> class_at (r # rs) a = class_at rs a"
  using assms normal_form_tail_above [OF assms, of a] region_base_less_end [of r]
  by (auto simp: class_at_Cons region_addresses_def normal_form_def)

text \<open>Right after a range of a normal form, its class ends.\<close>

lemma normal_form_boundary:
  assumes "normal_form (r # rs)"
  shows "class_at (r # rs) (region_end r) \<noteq> {(region_kind r, region_attributes r)}"
proof (cases rs)
  case Nil
  then show ?thesis by (simp add: class_at_Cons region_addresses_def)
next
  case (Cons s ss)
  note nf = normal_form_tl [OF assms, unfolded Cons]
  have valid: "region_valid s" and le: "region_end r \<le> unat (region_base s)"
    and merged: "\<not> (region_end r = unat (region_base s) \<and> ribon_memory_region_same_class r s)"
    using assms Cons by (auto simp: normal_form_def regions_ascending_def fully_merged_def)
  have eq: "class_at (r # rs) (region_end r) = class_at (s # ss) (region_end r)"
    using normal_form_head(3) [OF assms, of "region_end r"] Cons by simp
  show ?thesis
  proof (cases "region_end r = unat (region_base s)")
    case True
    then have "(region_kind s, region_attributes s) \<noteq> (region_kind r, region_attributes r)"
      using merged unfolding ribon_memory_region_same_class_def by (metis prod.inject)
    moreover have "class_at (s # ss) (region_end r) = {(region_kind s, region_attributes s)}"
      using True region_base_less_end [OF valid] by (intro normal_form_head(2) [OF nf]) simp_all
    ultimately show ?thesis unfolding eq by (metis singleton_inject)
  next
    case False
    then show ?thesis using normal_form_head(1) [OF nf, of "region_end r"] le eq by simp
  qed
qed

lemma normal_form_end_le:
  assumes "normal_form (r # rs)" and "normal_form (s # ss)"
    and "class_at (r # rs) = class_at (s # ss)" and "unat (region_base r) = unat (region_base s)"
    and "(region_kind r, region_attributes r) = (region_kind s, region_attributes s)"
  shows "region_end s \<le> region_end r"
proof (rule ccontr)
  assume "\<not> ?thesis"
  moreover have "unat (region_base r) < region_end r"
    using assms(1) region_base_less_end by (simp add: normal_form_def)
  ultimately have "class_at (s # ss) (region_end r) = {(region_kind s, region_attributes s)}"
    using assms(4) by (intro normal_form_head(2) [OF assms(2)]) simp_all
  then show False using normal_form_boundary [OF assms(1)] assms(3,5) by simp
qed

lemma normal_form_base_le:
  assumes "normal_form (r # rs)" and "normal_form (s # ss)"
    and "class_at (r # rs) = class_at (s # ss)"
  shows "unat (region_base s) \<le> unat (region_base r)"
proof (rule ccontr)
  assume "\<not> ?thesis"
  moreover have "unat (region_base r) < region_end r"
    using assms(1) region_base_less_end by (simp add: normal_form_def)
  ultimately show False
    using normal_form_head(2) [OF assms(1), of "unat (region_base r)"]
      normal_form_head(1) [OF assms(2), of "unat (region_base r)"] assms(3) by simp
qed

lemma normal_form_head_eq:
  assumes "normal_form (r # rs)" and "normal_form (s # ss)"
    and eq: "class_at (r # rs) = class_at (s # ss)"
  shows "r = s"
proof -
  have base: "unat (region_base r) = unat (region_base s)"
    using normal_form_base_le [OF assms] normal_form_base_le [OF assms(2,1) eq [symmetric]] by simp
  have ends: "unat (region_base r) < region_end r" "unat (region_base s) < region_end s"
    using assms(1,2) region_base_less_end by (simp_all add: normal_form_def)
  have cls: "(region_kind r, region_attributes r) = (region_kind s, region_attributes s)"
    using normal_form_head(2) [OF assms(1), of "unat (region_base r)"]
      normal_form_head(2) [OF assms(2), of "unat (region_base r)"] ends base eq by simp
  have "region_end r = region_end s"
    using normal_form_end_le [OF assms base cls]
      normal_form_end_le [OF assms(2,1) eq [symmetric] base [symmetric] cls [symmetric]] by simp
  then show ?thesis
    using base cls by (simp add: region_end_def word_unat_eq_iff)
qed

lemma normal_form_nonempty: "normal_form (r # rs) \<Longrightarrow> class_at (r # rs) \<noteq> class_at []"
  using normal_form_head(2) [of r rs "unat (region_base r)"] region_base_less_end [of r]
  by (auto simp: fun_eq_iff normal_form_def)

lemma normal_form_unique:
  "normal_form rs \<Longrightarrow> normal_form ss \<Longrightarrow> class_at rs = class_at ss \<Longrightarrow> rs = ss"
proof (induction rs arbitrary: ss)
  case Nil
  then show ?case using normal_form_nonempty by (cases ss) auto
next
  case (Cons r rs)
  then obtain s ss' where ss: "ss = s # ss'"
    using normal_form_nonempty [of r rs] by (cases ss) auto
  note eq = normal_form_head_eq [OF Cons.prems(1) Cons.prems(2) [unfolded ss] Cons.prems(3) [unfolded ss]]
  have "class_at rs a = class_at ss' a" for a
    using normal_form_tail_above [OF Cons.prems(1), of a] normal_form_tail_above [of s ss' a]
      normal_form_head(3) [OF Cons.prems(1), of a] normal_form_head(3) [of s ss' a]
      Cons.prems ss eq by (cases "a < region_end r") simp_all
  then show ?case
    using Cons.IH [OF normal_form_tl [OF Cons.prems(1)], of ss'] Cons.prems(2) ss eq normal_form_tl
    by (auto simp: fun_eq_iff)
qed

definition usable_addresses :: "RibonMemoryRegion list \<Rightarrow> nat set" where
  "usable_addresses rs = {a. \<exists>attributes. (REGION_USABLE, attributes) \<in> class_at rs a}"

lemma usable_addresses_Cons:
  "usable_addresses (r # rs) =
     (if region_kind r = REGION_USABLE then region_addresses r else {}) \<union> usable_addresses rs"
  by (auto simp: usable_addresses_def class_at_Cons split: if_splits)

lemma usable_addresses_Nil [simp]: "usable_addresses [] = {}"
  by (simp add: usable_addresses_def)

lemma usable_addresses_bounded:
  "\<forall>r \<in> set rs. region_valid r \<Longrightarrow> usable_addresses rs \<subseteq> {..< 2 ^ 64 - 1}"
  by (induction rs) (auto simp: usable_addresses_Cons region_addresses_def region_valid_iff)

lemma usable_loop_card:
  assumes "\<forall>r \<in> set rs. region_valid r" and "regions_disjoint rs"
    and "unat t + card (usable_addresses rs) < 2 ^ 64"
  shows "unat (usable_loop rs t) = unat t + card (usable_addresses rs)"
  using assms
proof (induction rs arbitrary: t)
  case (Cons r rs)
  show ?case
  proof (cases "region_kind r = REGION_USABLE")
    case True
    have fin: "finite (usable_addresses rs)"
      using usable_addresses_bounded [of rs] Cons.prems(1) by (auto intro: finite_subset)
    have "region_addresses r \<inter> usable_addresses rs = {}"
      using Cons.prems(2) by (fastforce simp: regions_disjoint_def usable_addresses_def class_at_def)
    then have card: "card (usable_addresses (r # rs)) =
        unat (region_length r) + card (usable_addresses rs)"
      using True fin
      by (simp add: usable_addresses_Cons card_Un_disjoint region_addresses_def region_end_def)
    then have "unat (t + region_length r) = unat t + unat (region_length r)"
      using Cons.prems(3) by (intro unat_add_no_overflow) simp
    then show ?thesis
      using Cons.IH [of "t + region_length r"] Cons.prems card True
      by (simp add: regions_disjoint_def guard_simps)
  qed (use Cons in \<open>simp add: usable_addresses_Cons regions_disjoint_def\<close>)
qed simp

lemma usable_bytes_card:
  assumes "\<forall>r \<in> set rs. region_valid r" and "regions_disjoint rs"
  shows "unat (usable_loop rs 0) = card (usable_addresses rs)"
proof -
  have "card (usable_addresses rs) \<le> card {..< 2 ^ 64 - 1 :: nat}"
    by (rule card_mono [OF _ usable_addresses_bounded [OF assms(1)]]) simp
  then show ?thesis
    using usable_loop_card [OF assms, of 0] by simp
qed

lemma ascending_disjoint:
  "\<forall>r \<in> set rs. region_valid r \<Longrightarrow> regions_ascending rs \<Longrightarrow> regions_disjoint rs"
  unfolding regions_ascending_def regions_disjoint_def
  by (induction rs) (fastforce simp: region_addresses_def)+

text \<open>What a successful normalisation returns, in one statement.\<close>

lemma normalize_ok_cases:
  assumes room: "out_regions d = Some store" "unat (out_capacity d) \<le> length store"
  shows "fst (ribon_memory_map_normalize (Some s) (Some d)) = MEMORY_OK \<longleftrightarrow>
      (\<forall>r \<in> set (source_regions s). region_valid r) \<and>
      length (source_regions s) \<le> unat (out_capacity d) \<and> regions_disjoint (source_regions s)"
    and "ribon_memory_map_normalize (Some s) (Some d) = (MEMORY_OK, Some d') \<Longrightarrow>
      normal_form (out_list d') \<and> class_at (out_list d') = class_at (source_regions s)"
proof -
  let ?rs = "source_regions s"
  let ?pre = "(\<forall>r \<in> set ?rs. region_valid r) \<and> length ?rs \<le> unat (out_capacity d)"
  let ?sorted = "fold insert_region ?rs []"
  note ref = normalize_reference [OF room, of s]
  have asc: "merge_regions ?sorted \<noteq> None \<longleftrightarrow> regions_disjoint ?rs" if ?pre
    using that merge_regions_result(1) [of ?sorted] ascending_iff_disjoint [of ?sorted]
      fold_insert_region_sorted [of "[]"] fold_insert_region_disjoint [of ?rs]
    by (simp add: bases_sorted_def)
  show iff: "fst (ribon_memory_map_normalize (Some s) (Some d)) = MEMORY_OK \<longleftrightarrow>
      (\<forall>r \<in> set ?rs. region_valid r) \<and> length ?rs \<le> unat (out_capacity d) \<and> regions_disjoint ?rs"
  proof (cases ?pre)
    case True
    then show ?thesis
      using ref(1) [OF True] asc [OF True] by (cases "merge_regions ?sorted") auto
  next
    case False
    then show ?thesis using ref(2) [OF False] by auto
  qed
  assume ok: "ribon_memory_map_normalize (Some s) (Some d) = (MEMORY_OK, Some d')"
  then have pre: ?pre using iff by simp
  then obtain out where out: "merge_regions ?sorted = Some out" "out_list d' = out"
    using ref(1) [OF pre] asc [OF pre] iff ok by auto
  moreover have "class_at ?sorted = class_at ?rs" by (simp add: class_at_def fun_eq_iff)
  ultimately show "normal_form (out_list d') \<and> class_at (out_list d') = class_at ?rs"
    using merge_regions_result(2) [of ?sorted out] pre by (simp add: normal_form_def)
qed

lemma normalize_ok_regions:
  "ribon_memory_map_normalize (Some s) (Some d) = (MEMORY_OK, Some d') \<Longrightarrow> out_regions d' \<noteq> None"
  by (auto simp: ribon_memory_map_normalize_def ribon_memory_map_merge_adjacent_def
      split: if_splits prod.splits)

section \<open>Properties\<close>

text \<open>
  C11. For a destination whose array really has the declared capacity, normalisation
  succeeds exactly when every source range is non-empty and ends below \<open>2 ^ 64\<close>, the ranges fit the
  capacity and no two of them overlap. The result is then sorted, separated and fully merged,
  and gives every address the same kind and attributes as the source did.
\<close>

theorem memory_map_normalize_correct:
  assumes "out_regions d = Some store" and "unat (out_capacity d) \<le> length store"
  shows "(fst (ribon_memory_map_normalize (Some s) (Some d)) = MEMORY_OK \<longleftrightarrow>
      (\<forall>r \<in> set (source_regions s). 0 < unat (region_length r) \<and> region_end r < 2 ^ 64) \<and>
      length (source_regions s) \<le> unat (out_capacity d) \<and> regions_disjoint (source_regions s)) \<and>
    (\<forall>d'. ribon_memory_map_normalize (Some s) (Some d) = (MEMORY_OK, Some d') \<longrightarrow>
      regions_ascending (out_list d') \<and> fully_merged (out_list d') \<and>
      class_at (out_list d') = class_at (source_regions s))"
  using normalize_ok_cases [OF assms, of s] by (simp add: region_valid_iff normal_form_def)

definition sample_map :: RibonMemoryMap where
  "sample_map = \<lparr>map_regions = Some
     [\<lparr>region_base = 8192, region_length = 4096, region_kind = REGION_USABLE, region_attributes = 3\<rparr>,
      \<lparr>region_base = 0, region_length = 4096, region_kind = REGION_RESERVED, region_attributes = 1\<rparr>,
      \<lparr>region_base = 4096, region_length = 4096, region_kind = REGION_USABLE, region_attributes = 3\<rparr>],
     map_region_count = 3\<rparr>"

text \<open>The same memory, described by other ranges in another order.\<close>

definition sample_map_split :: RibonMemoryMap where
  "sample_map_split = \<lparr>map_regions = Some
     [\<lparr>region_base = 2048, region_length = 2048, region_kind = REGION_RESERVED, region_attributes = 1\<rparr>,
      \<lparr>region_base = 0, region_length = 2048, region_kind = REGION_RESERVED, region_attributes = 1\<rparr>,
      \<lparr>region_base = 4096, region_length = 8192, region_kind = REGION_USABLE, region_attributes = 3\<rparr>],
     map_region_count = 3\<rparr>"

definition sample_output :: "u32 \<Rightarrow> RibonMutableMemoryMap" where
  "sample_output n = \<lparr>out_regions = Some (replicate (unat n) \<lparr>region_base = 0, region_length = 0,
     region_kind = REGION_UNKNOWN, region_attributes = 0\<rparr>), out_region_count = 0, out_capacity = n\<rparr>"

definition sample_normalized :: "RibonMemoryRegion list" where
  "sample_normalized =
     [\<lparr>region_base = 0, region_length = 4096, region_kind = REGION_RESERVED, region_attributes = 1\<rparr>,
      \<lparr>region_base = 4096, region_length = 8192, region_kind = REGION_USABLE, region_attributes = 3\<rparr>]"

lemma sample_normalize:
  "\<exists>d'. ribon_memory_map_normalize (Some sample_map) (Some (sample_output 4)) = (MEMORY_OK, Some d') \<and>
     out_list d' = sample_normalized"
proof -
  have "map_prod id (map_option out_list)
      (ribon_memory_map_normalize (Some sample_map) (Some (sample_output 4))) =
      (MEMORY_OK, Some sample_normalized)"
    by code_simp
  then show ?thesis
    by (cases "ribon_memory_map_normalize (Some sample_map) (Some (sample_output 4))") auto
qed

lemma sample_normalize_split:
  "\<exists>d'. ribon_memory_map_normalize (Some sample_map_split) (Some (sample_output 4)) =
       (MEMORY_OK, Some d') \<and> out_list d' = sample_normalized"
proof -
  have "map_prod id (map_option out_list)
      (ribon_memory_map_normalize (Some sample_map_split) (Some (sample_output 4))) =
      (MEMORY_OK, Some sample_normalized)"
    by code_simp
  then show ?thesis
    by (cases "ribon_memory_map_normalize (Some sample_map_split) (Some (sample_output 4))") auto
qed

lemma sample_output_room:
  "out_regions (sample_output 4) = Some (the (out_regions (sample_output 4)))"
  "unat (out_capacity (sample_output 4)) \<le> length (the (out_regions (sample_output 4)))"
  by (simp_all add: sample_output_def)

text \<open>C11 at a three-range map whose two usable ranges merge.\<close>

theorem memory_map_normalize_correct_witness:
  "fully_merged sample_normalized \<and> class_at sample_normalized = class_at (source_regions sample_map) \<and>
   regions_disjoint (source_regions sample_map)"
  using memory_map_normalize_correct [OF sample_output_room, of sample_map] sample_normalize by auto

text \<open>
  C12. The normal form is canonical: two source maps that describe the same memory, in
  whatever order and however split into ranges, normalise to the same list of ranges.
\<close>

theorem memory_map_normalize_canonical:
  assumes "out_regions d1 = Some store1" and "unat (out_capacity d1) \<le> length store1"
    and "out_regions d2 = Some store2" and "unat (out_capacity d2) \<le> length store2"
    and "ribon_memory_map_normalize (Some s1) (Some d1) = (MEMORY_OK, Some e1)"
    and "ribon_memory_map_normalize (Some s2) (Some d2) = (MEMORY_OK, Some e2)"
    and "class_at (source_regions s1) = class_at (source_regions s2)"
  shows "out_list e1 = out_list e2"
  using normalize_ok_cases(2) [OF assms(1,2,5)] normalize_ok_cases(2) [OF assms(3,4,6)] assms(7)
  by (intro normal_form_unique) simp_all

text \<open>C12 at two descriptions of the same 12 KiB.\<close>

theorem memory_map_normalize_canonical_witness:
  "\<exists>e1 e2. ribon_memory_map_normalize (Some sample_map) (Some (sample_output 4)) = (MEMORY_OK, Some e1) \<and>
     ribon_memory_map_normalize (Some sample_map_split) (Some (sample_output 4)) = (MEMORY_OK, Some e2) \<and>
     source_regions sample_map \<noteq> source_regions sample_map_split \<and> out_list e1 = out_list e2"
proof -
  obtain e1 e2 where e:
      "ribon_memory_map_normalize (Some sample_map) (Some (sample_output 4)) = (MEMORY_OK, Some e1)"
      "ribon_memory_map_normalize (Some sample_map_split) (Some (sample_output 4)) = (MEMORY_OK, Some e2)"
    and eq: "out_list e1 = out_list e2"
    using sample_normalize sample_normalize_split by auto
  have "class_at (source_regions sample_map) = class_at (source_regions sample_map_split)"
    using normalize_ok_cases(2) [OF sample_output_room e(1)]
      normalize_ok_cases(2) [OF sample_output_room e(2)] eq by simp
  then show ?thesis
    using memory_map_normalize_canonical [OF sample_output_room sample_output_room e] e
    by (intro exI [of _ e1] exI [of _ e2]) (simp add: sample_map_def sample_map_split_def source_regions_def)
qed

text \<open>
  C15. On a successfully normalised map the usable-byte sum never saturates: for the
  source and for the result it is the number of usable addresses.
\<close>

theorem memory_map_usable_bytes_exact:
  assumes "out_regions d = Some store" and "unat (out_capacity d) \<le> length store"
    and "ribon_memory_map_normalize (Some s) (Some d) = (MEMORY_OK, Some d')"
  shows "unat (ribon_memory_map_usable_bytes (Some s)) = card (usable_addresses (source_regions s)) \<and>
    ribon_memory_map_usable_bytes
      (Some \<lparr>map_regions = out_regions d', map_region_count = out_region_count d'\<rparr>) =
    ribon_memory_map_usable_bytes (Some s)"
proof -
  let ?m = "\<lparr>map_regions = out_regions d', map_region_count = out_region_count d'\<rparr>"
  have src: "unat (usable_loop (source_regions s) 0) = card (usable_addresses (source_regions s))"
    using normalize_ok_cases(1) [OF assms(1,2), of s] assms(3) by (intro usable_bytes_card) simp_all
  note nf = normalize_ok_cases(2) [OF assms]
  have "unat (usable_loop (out_list d') 0) = card (usable_addresses (out_list d'))"
    using nf ascending_disjoint by (intro usable_bytes_card) (simp_all add: normal_form_def)
  moreover have "usable_addresses (out_list d') = usable_addresses (source_regions s)"
    using nf by (simp add: usable_addresses_def)
  moreover have "usable_loop (source_regions ?m) 0 = usable_loop (out_list d') 0"
    using normalize_ok_regions [OF assms(3)] by (auto simp: source_regions_def out_list_def)
  ultimately show ?thesis
    using src by (simp add: ribon_memory_map_usable_bytes_def word_unat_eq_iff)
qed

text \<open>C15 at the sample map: 8192 usable addresses.\<close>

theorem memory_map_usable_bytes_exact_witness:
  "ribon_memory_map_usable_bytes (Some sample_map) = 8192 \<and>
   card (usable_addresses (source_regions sample_map)) = 8192"
proof -
  have "ribon_memory_map_usable_bytes (Some sample_map) = 8192" by code_simp
  moreover obtain d' where
      "ribon_memory_map_normalize (Some sample_map) (Some (sample_output 4)) = (MEMORY_OK, Some d')"
    using sample_normalize by blast
  ultimately show ?thesis
    using memory_map_usable_bytes_exact [OF sample_output_room, of sample_map d'] by simp
qed

end
