(* ===== verification/Wire.thy ===== *)
theory Wire
  imports Prelude
begin

text \<open>
  The byte-level helpers shared by the on-media codecs: little-endian loads and stores, the
  data-independent comparisons and the CRC-32C checksum. Each C file has its own static copy; they
  are the same functions, mapped here to \<open>src/security/protected_state.c\<close>.

  A read through \<open>bytes + k\<close> is a read of \<open>drop k bytes\<close>; a store through
  \<open>bytes + k\<close> takes the offset and returns the updated buffer.
\<close>

section \<open>Model\<close>

definition load_u32 :: "u8 list \<Rightarrow> u32" where
  "load_u32 bytes = ucast (bytes ! 0) OR push_bit 8 (ucast (bytes ! 1)) OR
     push_bit 16 (ucast (bytes ! 2)) OR push_bit 24 (ucast (bytes ! 3))"

definition load_u64 :: "u8 list \<Rightarrow> u64" where
  "load_u64 bytes = ucast (load_u32 bytes) OR push_bit 32 (ucast (load_u32 (drop 4 bytes)))"

definition load_u16 :: "u8 list \<Rightarrow> u16" where
  "load_u16 bytes = ucast (bytes ! 0) OR push_bit 8 (ucast (bytes ! 1))"

definition u16_bytes :: "u16 \<Rightarrow> u8 list" where
  "u16_bytes v = [ucast v, ucast (drop_bit 8 v)]"

definition store_u16 :: "nat \<Rightarrow> u16 \<Rightarrow> u8 list \<Rightarrow> u8 list" where
  "store_u16 k v bytes = blit k (u16_bytes v) bytes"

definition u32_bytes :: "u32 \<Rightarrow> u8 list" where
  "u32_bytes v = [ucast v, ucast (drop_bit 8 v), ucast (drop_bit 16 v), ucast (drop_bit 24 v)]"

definition store_u32 :: "nat \<Rightarrow> u32 \<Rightarrow> u8 list \<Rightarrow> u8 list" where
  "store_u32 k v bytes = blit k (u32_bytes v) bytes"

definition store_u64 :: "nat \<Rightarrow> u64 \<Rightarrow> u8 list \<Rightarrow> u8 list" where
  "store_u64 k v bytes = store_u32 (k + 4) (ucast (drop_bit 32 v)) (store_u32 k (ucast v) bytes)"

definition bytes_zero :: "u8 list \<Rightarrow> nat \<Rightarrow> bool" where
  "bytes_zero bytes n \<longleftrightarrow> fold (\<lambda>b v. v OR b) (take n bytes) 0 = 0"

definition bytes_equal :: "u8 list \<Rightarrow> u8 list \<Rightarrow> nat \<Rightarrow> bool" where
  "bytes_equal left right n \<longleftrightarrow>
     fold (\<lambda>(l, r) difference. difference OR (l XOR r)) (zip (take n left) (take n right)) 0 = 0"

text \<open>The library's \<open>memcmp\<close>, on two views of the same length; only the sign is specified.\<close>

fun memcmp :: "u8 list \<Rightarrow> u8 list \<Rightarrow> int" where
  "memcmp (x # xs) (y # ys) = (if x < y then - 1 else if y < x then 1 else memcmp xs ys)"
| "memcmp _ _ = 0"

definition crc_step :: "u32 \<Rightarrow> u32" where
  "crc_step crc = drop_bit 1 crc XOR (0x82f63b78 AND (- (crc AND 1)))"

definition crc32c :: "u8 list \<Rightarrow> nat \<Rightarrow> u32" where
  "crc32c bytes n =
     NOT (fold (\<lambda>b crc. (crc_step ^^ 8) (crc XOR ucast b)) (take n bytes) UINT32_MAX)"

section \<open>Comparisons\<close>

lemma fold_or_zero: "fold (\<lambda>b v. v OR b) bs a = 0 \<longleftrightarrow> a = 0 \<and> (\<forall>b \<in> set bs. b = 0)"
  for a :: u8
  by (induction bs arbitrary: a) (auto simp: or_eq_0_iff)

lemma bytes_zero_iff: "bytes_zero bs n \<longleftrightarrow> (\<forall>b \<in> set (take n bs). b = 0)"
  by (simp add: bytes_zero_def fold_or_zero)

lemma bytes_zero_replicate:
  "n \<le> length bs \<Longrightarrow> bytes_zero bs n \<longleftrightarrow> take n bs = replicate n 0"
  by (auto simp: bytes_zero_iff intro!: replicate_eqI)

lemma xor_eq_zero_iff: "a XOR b = 0 \<longleftrightarrow> a = b" for a b :: "'a::len word"
proof
  assume "a XOR b = 0"
  then have "(a XOR b) XOR b = b" by simp
  then show "a = b" by (simp add: xor.assoc)
qed simp

lemma fold_difference_zero:
  "fold (\<lambda>(l, r) d. d OR (l XOR r)) xs a = 0 \<longleftrightarrow> a = 0 \<and> (\<forall>(l, r) \<in> set xs. l = r)"
  for a :: u8
  by (induction xs arbitrary: a) (auto simp: xor_eq_zero_iff or_eq_0_iff)

lemma zip_all_eq:
  "length xs = length ys \<Longrightarrow> (\<forall>(l, r) \<in> set (zip xs ys). l = r) \<longleftrightarrow> xs = ys"
  by (induction xs ys rule: list_induct2) auto

lemma bytes_equal_iff:
  "n \<le> length xs \<Longrightarrow> n \<le> length ys \<Longrightarrow> bytes_equal xs ys n \<longleftrightarrow> take n xs = take n ys"
  by (simp add: bytes_equal_def fold_difference_zero zip_all_eq)

section \<open>Loads and stores\<close>

lemma length_u32_bytes [simp]: "length (u32_bytes v) = 4"
  by (simp add: u32_bytes_def)

lemma length_store_u32 [simp]: "k + 4 \<le> length bs \<Longrightarrow> length (store_u32 k v bs) = length bs"
  by (simp add: store_u32_def)

lemma length_store_u64 [simp]: "k + 8 \<le> length bs \<Longrightarrow> length (store_u64 k v bs) = length bs"
  by (simp add: store_u64_def)

lemma load_u32_bytes [simp]: "load_u32 (u32_bytes v @ rest) = v"
proof (rule bit_word_eqI)
  fix n
  assume "n < LENGTH(32)"
  then consider "n < 8" | "8 \<le> n" "n < 16" | "16 \<le> n" "n < 24" | "24 \<le> n" "n < 32"
    by fastforce
  then show "bit (load_u32 (u32_bytes v @ rest)) n = bit v n"
    by cases (simp_all add: load_u32_def u32_bytes_def bit_simps less_diff_conv2)
qed

lemma load_u32_cong:
  "take 4 xs = take 4 ys \<Longrightarrow> 4 \<le> length xs \<Longrightarrow> load_u32 xs = load_u32 ys"
proof -
  assume eq: "take 4 xs = take 4 ys" and len: "4 \<le> length xs"
  have "xs ! i = ys ! i" if "i < 4" for i
    using arg_cong [OF eq, of "\<lambda>zs. zs ! i"] that by simp
  then show ?thesis by (simp add: load_u32_def)
qed

lemma u32_bytes_load: "4 \<le> length bs \<Longrightarrow> u32_bytes (load_u32 bs) = take 4 bs"
proof -
  assume len: "4 \<le> length bs"
  have "ucast (load_u32 bs) = bs ! 0" "ucast (drop_bit 8 (load_u32 bs)) = bs ! 1"
      "ucast (drop_bit 16 (load_u32 bs)) = bs ! 2" "ucast (drop_bit 24 (load_u32 bs)) = bs ! 3"
    by (rule bit_word_eqI; auto simp: load_u32_def bit_simps dest: bit_imp_le_length)+
  moreover have "take 4 bs = [bs ! 0, bs ! 1, bs ! 2, bs ! 3]"
    using len by (intro nth_equalityI) (auto simp: less_Suc_eq numeral_eq_Suc)
  ultimately show ?thesis by (simp add: u32_bytes_def)
qed

lemma length_u16_bytes [simp]: "length (u16_bytes v) = 2"
  by (simp add: u16_bytes_def)

lemma load_u16_bytes [simp]: "load_u16 (u16_bytes v @ rest) = v"
proof (rule bit_word_eqI)
  fix n
  assume "n < LENGTH(16)"
  then consider "n < 8" | "8 \<le> n" "n < 16" by fastforce
  then show "bit (load_u16 (u16_bytes v @ rest)) n = bit v n"
    by cases (simp_all add: load_u16_def u16_bytes_def bit_simps less_diff_conv2)
qed

lemma u16_bytes_load: "2 \<le> length bs \<Longrightarrow> u16_bytes (load_u16 bs) = take 2 bs"
proof -
  assume len: "2 \<le> length bs"
  have "ucast (load_u16 bs) = bs ! 0" "ucast (drop_bit 8 (load_u16 bs)) = bs ! 1"
    by (rule bit_word_eqI; auto simp: load_u16_def bit_simps dest: bit_imp_le_length)+
  moreover have "take 2 bs = [bs ! 0, bs ! 1]"
    using len by (intro nth_equalityI) (auto simp: less_Suc_eq numeral_eq_Suc)
  ultimately show ?thesis by (simp add: u16_bytes_def)
qed

lemma load_u16_drop [buffer_simps]:
  "k + 2 \<le> length bs \<Longrightarrow> load_u16 (drop k bs) = load_u16 (slice k 2 bs)"
  by (simp add: load_u16_def slice_def)

definition u64_bytes :: "u64 \<Rightarrow> u8 list" where
  "u64_bytes v = u32_bytes (ucast v) @ u32_bytes (ucast (drop_bit 32 v))"

lemma length_u64_bytes [simp]: "length (u64_bytes v) = 8"
  by (simp add: u64_bytes_def)

lemma store_u64_blit: "k + 8 \<le> length bs \<Longrightarrow> store_u64 k v bs = blit k (u64_bytes v) bs"
  by (simp add: store_u64_def store_u32_def u64_bytes_def blit_def add.commute)

lemma ucast_halves:
  "ucast (ucast v :: u32) OR push_bit 32 (ucast (ucast (drop_bit 32 v) :: u32)) = v" for v :: u64
proof (rule bit_word_eqI)
  fix n
  assume "n < LENGTH(64)"
  then consider "n < 32" | "32 \<le> n" "n < 64" by fastforce
  then show "bit (ucast (ucast v :: u32) OR push_bit 32 (ucast (ucast (drop_bit 32 v) :: u32)) :: u64) n =
      bit v n"
    by cases (simp_all add: bit_simps less_diff_conv2)
qed

lemma load_u64_bytes [simp]: "load_u64 (u64_bytes v @ rest) = v"
  by (simp add: load_u64_def u64_bytes_def ucast_halves)

lemma load_u64_cong:
  "take 8 xs = take 8 ys \<Longrightarrow> 8 \<le> length xs \<Longrightarrow> load_u64 xs = load_u64 ys"
proof -
  assume eq: "take 8 xs = take 8 ys" and len: "8 \<le> length xs"
  have "load_u32 xs = load_u32 ys"
    using arg_cong [OF eq, of "take 4"] len by (intro load_u32_cong) simp_all
  moreover have "load_u32 (drop 4 xs) = load_u32 (drop 4 ys)"
    using arg_cong [OF eq, of "drop 4"] len by (intro load_u32_cong) (simp_all add: drop_take)
  ultimately show ?thesis by (simp add: load_u64_def)
qed

lemma u64_bytes_load: "8 \<le> length bs \<Longrightarrow> u64_bytes (load_u64 bs) = take 8 bs"
proof -
  assume len: "8 \<le> length bs"
  have "ucast (load_u64 bs) = load_u32 bs" "ucast (drop_bit 32 (load_u64 bs)) = load_u32 (drop 4 bs)"
    by (rule bit_word_eqI; auto simp: load_u64_def bit_simps dest: bit_imp_le_length)+
  then show ?thesis
    using len take_add [of 4 4 bs] by (simp add: u64_bytes_def u32_bytes_load)
qed

lemma load_u32_drop [buffer_simps]:
  "k + 4 \<le> length bs \<Longrightarrow> load_u32 (drop k bs) = load_u32 (slice k 4 bs)"
  by (rule load_u32_cong) (simp_all add: slice_def)

lemma load_u64_drop [buffer_simps]:
  "k + 8 \<le> length bs \<Longrightarrow> load_u64 (drop k bs) = load_u64 (slice k 8 bs)"
  by (rule load_u64_cong) (simp_all add: slice_def)

lemma load_bytes_exact [simp]: "load_u32 (u32_bytes v) = v" "load_u64 (u64_bytes w) = w"
  using load_u32_bytes [of v "[]"] load_u64_bytes [of w "[]"] by simp_all

lemma load_u16_exact [simp]: "load_u16 (u16_bytes v) = v"
  using load_u16_bytes [of v "[]"] by simp

lemma load_u32_slice_eqD:
  "load_u32 (slice k 4 bs) = v \<Longrightarrow> k + 4 \<le> length bs \<Longrightarrow> slice k 4 bs = u32_bytes v"
  using u32_bytes_load [of "slice k 4 bs"] by (auto simp: slice_def)

lemma load_u64_slice_eqD:
  "load_u64 (slice k 8 bs) = v \<Longrightarrow> k + 8 \<le> length bs \<Longrightarrow> slice k 8 bs = u64_bytes v"
  using u64_bytes_load [of "slice k 8 bs"] by (auto simp: slice_def)

lemma bytes_zero_drop [buffer_simps]:
  "k + n \<le> length bs \<Longrightarrow> bytes_zero (drop k bs) n \<longleftrightarrow> slice k n bs = replicate n 0"
  by (simp add: bytes_zero_replicate slice_def)

lemma crc32c_cong: "take n xs = take n ys \<Longrightarrow> crc32c xs n = crc32c ys n"
  by (simp add: crc32c_def)

section \<open>Fixed layouts\<close>

text \<open>
  A buffer laid out as fields of lengths \<open>ns\<close> with contents \<open>vals\<close>. Every store of an
  encoder replaces one field, so an encoder is described by the list of its fields.
\<close>

definition laid :: "nat list \<Rightarrow> u8 list \<Rightarrow> u8 list list \<Rightarrow> bool" where
  "laid ns buf vals \<longleftrightarrow> length buf = sum_list ns \<and> cut ns 0 buf = vals"

text \<open>The index of the field that starts at offset \<open>k\<close>.\<close>

fun field_index :: "nat list \<Rightarrow> nat \<Rightarrow> nat option" where
  "field_index [] k = None"
| "field_index (n # ns) k =
     (if k = 0 then Some 0 else if n \<le> k then map_option Suc (field_index ns (k - n)) else None)"

lemma field_index_bound: "field_index ns k = Some i \<Longrightarrow> i < length ns \<and> k + ns ! i \<le> sum_list ns"
  by (induction ns k arbitrary: i rule: field_index.induct) (fastforce split: if_splits)+

lemma cut_blit_before:
  "k + length xs \<le> off \<Longrightarrow> k + length xs \<le> length buf \<Longrightarrow> cut ns off (blit k xs buf) = cut ns off buf"
  by (induction ns arbitrary: off) (simp_all add: slice_blit_after)

lemma cut_blit:
  "field_index ns k = Some i \<Longrightarrow> ns ! i = length xs \<Longrightarrow> off + sum_list ns \<le> length buf \<Longrightarrow>
     cut ns off (blit (off + k) xs buf) = (cut ns off buf)[i := xs]"
proof (induction ns k arbitrary: i off rule: field_index.induct)
  case (2 n ns k)
  show ?case
  proof (cases "k = 0")
    case True
    then show ?thesis
      using "2.prems" by (auto simp: slice_blit_same cut_blit_before)
  next
    case False
    then obtain i' where i': "n \<le> k" "field_index ns (k - n) = Some i'" "i = Suc i'"
      using "2.prems"(1) by (auto split: if_splits)
    then have "k - n + length xs \<le> sum_list ns"
      using field_index_bound [OF i'(2)] "2.prems"(2) by simp
    then have "slice off n (blit (off + k) xs buf) = slice off n buf"
      using i'(1) "2.prems"(3) by (intro slice_blit_before) simp_all
    then show ?thesis
      using "2.IH" [OF False i'(1) i'(2), of "off + n"] "2.prems" i' by simp
  qed
qed simp

lemma length_blit_field:
  "field_index ns k = Some i \<Longrightarrow> ns ! i = length xs \<Longrightarrow> length buf = sum_list ns \<Longrightarrow>
     length (blit k xs buf) = sum_list ns"
  using field_index_bound [of ns k i] by (subst length_blit) simp_all

lemma laid_blit:
  "laid ns buf vals \<Longrightarrow> field_index ns k = Some i \<Longrightarrow> ns ! i = length xs \<Longrightarrow>
     laid ns (blit k xs buf) (vals[i := xs])"
  using cut_blit [of ns k i xs 0 buf] length_blit_field [of ns k i xs buf] by (simp add: laid_def)

lemma laid_store_u16:
  "laid ns buf vals \<Longrightarrow> field_index ns k = Some i \<Longrightarrow> ns ! i = 2 \<Longrightarrow>
     laid ns (store_u16 k v buf) (vals[i := u16_bytes v])"
  unfolding store_u16_def by (rule laid_blit) simp_all

lemma laid_store_u32:
  "laid ns buf vals \<Longrightarrow> field_index ns k = Some i \<Longrightarrow> ns ! i = 4 \<Longrightarrow>
     laid ns (store_u32 k v buf) (vals[i := u32_bytes v])"
  unfolding store_u32_def by (rule laid_blit) simp_all

lemma laid_store_u64:
  assumes "laid ns buf vals" and "field_index ns k = Some i" and "ns ! i = 8"
  shows "laid ns (store_u64 k v buf) (vals[i := u64_bytes v])"
proof -
  have "k + 8 \<le> length buf"
    using field_index_bound [OF assms(2)] assms(1,3) by (simp add: laid_def)
  then show ?thesis using assms by (simp add: store_u64_blit laid_blit)
qed

lemma laid_update:
  assumes "laid ns buf vals" and "field_index ns k = Some i" and "ns ! i = 1"
  shows "laid ns (buf[k := v]) (vals[i := [v]])"
proof -
  have "k < length buf"
    using field_index_bound [OF assms(2)] assms(1,3) by (simp add: laid_def)
  then show ?thesis using assms by (simp add: update_eq_blit laid_blit)
qed

lemma laid_zero: "m = sum_list ns \<Longrightarrow> laid ns (replicate m 0) (map (\<lambda>n. replicate n 0) ns)"
proof -
  have "off + sum_list ns \<le> m \<Longrightarrow> cut ns off (replicate m (0 :: u8)) = map (\<lambda>n. replicate n 0) ns" for off
    by (induction ns arbitrary: off) (simp_all add: slice_replicate)
  then show "m = sum_list ns \<Longrightarrow> ?thesis" by (simp add: laid_def)
qed

lemma laid_unique: "laid ns xs vals \<Longrightarrow> laid ns ys vals \<Longrightarrow> xs = ys"
  unfolding laid_def by (metis cut_eqI)

lemma laid_concat: "laid ns buf vals \<Longrightarrow> concat vals = buf"
  by (auto simp: laid_def concat_cut slice_def)

lemma laid_length: "laid ns buf vals \<Longrightarrow> length buf = sum_list ns"
  by (simp add: laid_def)

lemma laid_slice:
  assumes "laid ns buf vals" and "field_index ns k = Some i"
  shows "slice k (ns ! i) buf = vals ! i"
proof -
  have "field_index ns k = Some i \<Longrightarrow> slice (off + k) (ns ! i) buf = cut ns off buf ! i" for off
  proof (induction ns k arbitrary: i off rule: field_index.induct)
    case (2 n ns k)
    show ?case
    proof (cases "k = 0")
      case False
      then obtain i' where i': "n \<le> k" "field_index ns (k - n) = Some i'" "i = Suc i'"
        using "2.prems"(1) by (auto split: if_splits)
      then show ?thesis using "2.IH" [OF False i'(1) i'(2), of "off + n"] by simp
    qed (use "2.prems" in auto)
  qed simp
  from this [of 0] show ?thesis using assms by (simp add: laid_def)
qed

lemma slice_one: "k < length bs \<Longrightarrow> slice k 1 bs = [bs ! k]"
  by (simp add: slice_def take_Suc hd_drop_conv_nth)

lemma bytes_equal_slice:
  "n \<le> length bs \<Longrightarrow> length m = n \<Longrightarrow> bytes_equal bs m n \<longleftrightarrow> slice 0 n bs = m"
  by (simp add: bytes_equal_iff slice_def)

lemma slice_u16: "k + 2 \<le> length bs \<Longrightarrow> slice k 2 bs = u16_bytes (load_u16 (drop k bs))"
  by (simp add: slice_def u16_bytes_load)

lemma slice_u32: "k + 4 \<le> length bs \<Longrightarrow> slice k 4 bs = u32_bytes (load_u32 (drop k bs))"
  by (simp add: slice_def u32_bytes_load)

lemma slice_u64: "k + 8 \<le> length bs \<Longrightarrow> slice k 8 bs = u64_bytes (load_u64 (drop k bs))"
  by (simp add: slice_def u64_bytes_load)

lemma u32_bytes_0 [simp]: "u32_bytes 0 = replicate 4 0"
  by (simp add: u32_bytes_def numeral_eq_Suc)

lemma u64_bytes_0 [simp]: "u64_bytes 0 = replicate 8 0"
  by (simp add: u64_bytes_def u32_bytes_def numeral_eq_Suc)

lemmas laid_intros = laid_blit laid_store_u16 laid_store_u32 laid_store_u64 laid_update laid_zero

end
