(* ===== verification/Sha256.thy ===== *)
theory Sha256
  imports Wire
begin

text \<open>
  The streaming SHA-256 of \<open>src/security/sha256.c\<close>, on 32-bit words, and a one-block-at-a-time
  reference reading of it.
\<close>

section \<open>Model\<close>

record RibonSecuritySha256 =
  sha_state :: "u32 list"
  sha_total_bytes :: u64
  sha_block :: "u8 list"
  sha_used :: nat

definition rotate_right :: "u32 \<Rightarrow> nat \<Rightarrow> u32" where
  "rotate_right v n = drop_bit n v OR push_bit (32 - n) v"

text \<open>The table of round constants, in the rows of the source.\<close>

definition sha_constants :: "u32 list" where
  "sha_constants = concat
    [[0x428a2f98, 0x71374491, 0xb5c0fbcf, 0xe9b5dba5],
     [0x3956c25b, 0x59f111f1, 0x923f82a4, 0xab1c5ed5],
     [0xd807aa98, 0x12835b01, 0x243185be, 0x550c7dc3],
     [0x72be5d74, 0x80deb1fe, 0x9bdc06a7, 0xc19bf174],
     [0xe49b69c1, 0xefbe4786, 0x0fc19dc6, 0x240ca1cc],
     [0x2de92c6f, 0x4a7484aa, 0x5cb0a9dc, 0x76f988da],
     [0x983e5152, 0xa831c66d, 0xb00327c8, 0xbf597fc7],
     [0xc6e00bf3, 0xd5a79147, 0x06ca6351, 0x14292967],
     [0x27b70a85, 0x2e1b2138, 0x4d2c6dfc, 0x53380d13],
     [0x650a7354, 0x766a0abb, 0x81c2c92e, 0x92722c85],
     [0xa2bfe8a1, 0xa81a664b, 0xc24b8b70, 0xc76c51a3],
     [0xd192e819, 0xd6990624, 0xf40e3585, 0x106aa070],
     [0x19a4c116, 0x1e376c08, 0x2748774c, 0x34b0bcb5],
     [0x391c0cb3, 0x4ed8aa4a, 0x5b9cca4f, 0x682e6ff3],
     [0x748f82ee, 0x78a5636f, 0x84c87814, 0x8cc70208],
     [0x90befffa, 0xa4506ceb, 0xbef9a3f7, 0xc67178f2]]"

definition sha_load_word :: "u8 list \<Rightarrow> nat \<Rightarrow> u32" where
  "sha_load_word block offset =
     push_bit 24 (ucast (block ! offset)) OR push_bit 16 (ucast (block ! (offset + 1))) OR
     push_bit 8 (ucast (block ! (offset + 2))) OR ucast (block ! (offset + 3))"

text \<open>The next word of the message schedule, from the words computed so far.\<close>

definition sha_schedule_word :: "u32 list \<Rightarrow> nat \<Rightarrow> u32" where
  "sha_schedule_word ws index =
     (let first = ws ! (index - 15); second = ws ! (index - 2)
      in ws ! (index - 16) +
         (rotate_right first 7 XOR rotate_right first 18 XOR drop_bit 3 first) +
         ws ! (index - 7) +
         (rotate_right second 17 XOR rotate_right second 19 XOR drop_bit 10 second))"

definition sha_words :: "u8 list \<Rightarrow> u32 list" where
  "sha_words block =
     fold (\<lambda>index ws. ws @ [sha_schedule_word ws index]) [16..<64]
       (map (\<lambda>index. sha_load_word block (index * 4)) [0..<16])"

type_synonym sha_vars = "u32 \<times> u32 \<times> u32 \<times> u32 \<times> u32 \<times> u32 \<times> u32 \<times> u32"

definition sha_first :: "u32 \<Rightarrow> u32 \<Rightarrow> u32 \<Rightarrow> u32 \<Rightarrow> u32 \<Rightarrow> u32 \<Rightarrow> u32" where
  "sha_first e f g h k w =
     h + (rotate_right e 6 XOR rotate_right e 11 XOR rotate_right e 25) +
     ((e AND f) XOR ((NOT e) AND g)) + k + w"

definition sha_second :: "u32 \<Rightarrow> u32 \<Rightarrow> u32 \<Rightarrow> u32" where
  "sha_second a b c =
     (rotate_right a 2 XOR rotate_right a 13 XOR rotate_right a 22) +
     ((a AND b) XOR (a AND c) XOR (b AND c))"

fun sha_round :: "u32 \<times> u32 \<Rightarrow> sha_vars \<Rightarrow> sha_vars" where
  "sha_round (k, w) (a, b, c, d, e, f, g, h) =
     (let first = sha_first e f g h k w; second = sha_second a b c
      in (first + second, a, b, c, d + first, e, f, g))"

definition sha_rounds :: "u32 list \<Rightarrow> u32 list \<Rightarrow> sha_vars" where
  "sha_rounds state ws =
     fold (\<lambda>index. sha_round (sha_constants ! index, ws ! index)) [0..<64]
       (state ! 0, state ! 1, state ! 2, state ! 3, state ! 4, state ! 5, state ! 6, state ! 7)"

definition transform :: "u32 list \<Rightarrow> u8 list \<Rightarrow> u32 list" where
  "transform state block =
     (case sha_rounds state (sha_words block) of
        (a, b, c, d, e, f, g, h) \<Rightarrow>
          [state ! 0 + a, state ! 1 + b, state ! 2 + c, state ! 3 + d,
           state ! 4 + e, state ! 5 + f, state ! 6 + g, state ! 7 + h])"

text \<open>
  One turn of the loop of \<open>update\<close> copies \<open>count\<close> bytes into the block buffer and compresses
  the buffer when it is full. The loop also stops when \<open>used\<close> is not below the block size, which
  no context reaches: the buffer is emptied as soon as it is full.
\<close>

definition update_step :: "RibonSecuritySha256 \<Rightarrow> u8 list \<Rightarrow> RibonSecuritySha256" where
  "update_step context bytes =
     (let context' = context\<lparr>sha_block := blit (sha_used context) bytes (sha_block context),
                             sha_used := sha_used context + length bytes\<rparr>
      in if sha_used context' = 64
         then context'\<lparr>sha_state := transform (sha_state context') (sha_block context'), sha_used := 0\<rparr>
         else context')"

function update_loop :: "RibonSecuritySha256 \<Rightarrow> u8 list \<Rightarrow> nat \<Rightarrow> nat \<Rightarrow> RibonSecuritySha256" where
  "update_loop context bytes nbytes offset =
     (if offset < nbytes \<and> sha_used context < 64 then
        let count = min (64 - sha_used context) (nbytes - offset)
        in update_loop (update_step context (slice offset count bytes)) bytes nbytes (offset + count)
      else context)"
  by pat_completeness auto
termination by (relation "measure (\<lambda>(_, _, nbytes, offset). nbytes - offset)") auto

definition update :: "RibonSecuritySha256 \<Rightarrow> u8 list \<Rightarrow> nat \<Rightarrow> RibonSecuritySha256" where
  "update context bytes nbytes =
     update_loop (context\<lparr>sha_total_bytes := sha_total_bytes context + of_nat nbytes\<rparr>) bytes nbytes 0"

definition sha_initial :: RibonSecuritySha256 where
  "sha_initial = \<lparr>sha_state = [0x6a09e667, 0xbb67ae85, 0x3c6ef372, 0xa54ff53a,
                              0x510e527f, 0x9b05688c, 0x1f83d9ab, 0x5be0cd19],
                  sha_total_bytes = 0, sha_block = replicate 64 0, sha_used = 0\<rparr>"

definition sha_length_bytes :: "u64 \<Rightarrow> u8 list" where
  "sha_length_bytes bit_length = rev (map (\<lambda>index. ucast (drop_bit (index * 8) bit_length)) [0..<8])"

definition sha_word_bytes :: "u32 \<Rightarrow> u8 list" where
  "sha_word_bytes w = [ucast (drop_bit 24 w), ucast (drop_bit 16 w), ucast (drop_bit 8 w), ucast w]"

definition ribon_security_sha256 :: "u8 list \<Rightarrow> nat \<Rightarrow> u8 list" where
  "ribon_security_sha256 bytes nbytes =
     (let bit_length = of_nat nbytes * 8;
          context = update sha_initial bytes nbytes;
          padding_size = (if sha_used context < 56 then 56 - sha_used context
                          else 120 - sha_used context);
          context = update context (0x80 # replicate 127 0) padding_size;
          context = update context (sha_length_bytes bit_length) 8
      in concat (map (\<lambda>index. sha_word_bytes (sha_state context ! index)) [0..<8]))"

section \<open>Shape of the digest\<close>

lemma length_sha_word_bytes [simp]: "length (sha_word_bytes w) = 4"
  by (simp add: sha_word_bytes_def)

lemma length_sha256 [simp]: "length (ribon_security_sha256 bytes nbytes) = 32"
  by (simp add: ribon_security_sha256_def Let_def upt_rec)

lemma length_transform [simp]: "length (transform state block) = 8"
  by (simp add: transform_def split: prod.split)

lemma length_sha_length_bytes [simp]: "length (sha_length_bytes n) = 8"
  by (simp add: sha_length_bytes_def)

section \<open>The streaming context absorbs the message block by block\<close>

function sha_process :: "u32 list \<Rightarrow> u8 list \<Rightarrow> u32 list" where
  "sha_process state m =
     (if 64 \<le> length m then sha_process (transform state (take 64 m)) (drop 64 m) else state)"
  by pat_completeness auto
termination by (relation "measure (\<lambda>(_, m). length m)") auto

declare sha_process.simps [simp del] update_loop.simps [simp del]

lemma length_sha_process: "length state = 8 \<Longrightarrow> length (sha_process state m) = 8"
  by (induction state m rule: sha_process.induct) (subst sha_process.simps, simp)

definition sha_pad :: "u8 list \<Rightarrow> u8 list" where
  "sha_pad m = m @ 0x80 # replicate ((119 - length m mod 64) mod 64) 0 @
     sha_length_bytes (of_nat (length m) * 8)"

definition sha256_reference :: "u8 list \<Rightarrow> u8 list" where
  "sha256_reference m = concat (map sha_word_bytes (sha_process (sha_state sha_initial) (sha_pad m)))"

definition sha_tail :: "u8 list \<Rightarrow> u8 list" where
  "sha_tail m = drop (length m div 64 * 64) m"

lemma length_sha_tail [simp]: "length (sha_tail m) = length m mod 64"
  by (simp add: sha_tail_def minus_div_mult_eq_mod)

lemma sha_tail_drop: "64 \<le> length m \<Longrightarrow> sha_tail (drop 64 m) = sha_tail m"
proof -
  assume "64 \<le> length m"
  then have "length m div 64 = Suc ((length m - 64) div 64)" by (simp add: le_div_geq)
  then show ?thesis by (simp add: sha_tail_def add.commute)
qed

lemma sha_process_append:
  "sha_process state (m @ bs) = sha_process (sha_process state m) (sha_tail m @ bs)"
proof (induction state m rule: sha_process.induct)
  case (1 state m)
  show ?case
  proof (cases "64 \<le> length m")
    case True
    then show ?thesis
      using 1 by (simp add: sha_process.simps [of state] sha_tail_drop)
  next
    case False
    then show ?thesis by (simp add: sha_process.simps [of state m] sha_tail_def)
  qed
qed

definition absorbed :: "RibonSecuritySha256 \<Rightarrow> u8 list \<Rightarrow> bool" where
  "absorbed ctx m \<longleftrightarrow>
     sha_state ctx = sha_process (sha_state sha_initial) m \<and> sha_used ctx = length m mod 64 \<and>
     length (sha_block ctx) = 64 \<and> take (sha_used ctx) (sha_block ctx) = sha_tail m"

lemma absorbed_initial: "absorbed sha_initial []"
  by (simp add: absorbed_def sha_initial_def sha_process.simps sha_tail_def)

lemma quotient_of_eq:
  fixes l q t :: nat
  assumes "l = q * 64 + t" and "t < 64"
  shows "l mod 64 = t" and "l div 64 = q"
  using assms by simp_all

lemma update_step_absorbed:
  assumes ctx: "absorbed ctx m" and len: "0 < length bs" "length bs \<le> 64 - sha_used ctx"
  shows "absorbed (update_step ctx bs) (m @ bs)"
proof -
  let ?u = "length m mod 64"
  have u: "sha_used ctx = ?u" and blk: "length (sha_block ctx) = 64"
    and tl: "take ?u (sha_block ctx) = sha_tail m"
    and st: "sha_state ctx = sha_process (sha_state sha_initial) m"
    using ctx by (auto simp: absorbed_def)
  let ?b = "blit ?u bs (sha_block ctx)"
  have b: "length ?b = 64" "take (?u + length bs) ?b = sha_tail m @ bs"
    using len u blk tl by (simp_all add: blit_def)
  have state: "sha_process (sha_state sha_initial) (m @ bs) =
      sha_process (sha_state ctx) (sha_tail m @ bs)"
    unfolding st by (rule sha_process_append)
  note lm = div_mult_mod_eq [of "length m" 64]
  show ?thesis
  proof (cases "?u + length bs = 64")
    case True
    then have "length (m @ bs) = (length m div 64 + 1) * 64 + 0"
      unfolding length_append add_mult_distrib using lm by linarith
    note quot = quotient_of_eq [OF this zero_less_numeral]
    have "?b = sha_tail m @ bs" using b True by simp
    moreover have "sha_process (sha_state ctx) (sha_tail m @ bs) =
        transform (sha_state ctx) (sha_tail m @ bs)"
      using True by (subst sha_process.simps) (simp, subst sha_process.simps, simp)
    ultimately show ?thesis
      using True b u quot by (simp add: absorbed_def update_step_def Let_def state sha_tail_def)
  next
    case False
    then have lt: "?u + length bs < 64" using len u by linarith
    have "length (m @ bs) = length m div 64 * 64 + (?u + length bs)"
      unfolding length_append using lm by linarith
    note quot = quotient_of_eq [OF this lt]
    have "sha_process (sha_state ctx) (sha_tail m @ bs) = sha_state ctx"
      using lt by (subst sha_process.simps) simp
    moreover have "sha_tail (m @ bs) = sha_tail m @ bs"
      unfolding sha_tail_def quot(2) by simp
    ultimately show ?thesis
      using False b u quot(1) by (simp add: absorbed_def update_step_def Let_def state)
  qed
qed

lemma update_loop_absorbed:
  "absorbed ctx m \<Longrightarrow> offset \<le> nbytes \<Longrightarrow> nbytes \<le> length bytes \<Longrightarrow>
     absorbed (update_loop ctx bytes nbytes offset) (m @ slice offset (nbytes - offset) bytes)"
proof (induction ctx bytes nbytes offset arbitrary: m rule: update_loop.induct)
  case (1 ctx bytes nbytes offset)
  have used: "sha_used ctx < 64" using "1.prems"(1) by (simp add: absorbed_def)
  let ?c = "min (64 - sha_used ctx) (nbytes - offset)"
  show ?case
  proof (cases "offset < nbytes")
    case True
    have "absorbed (update_step ctx (slice offset ?c bytes)) (m @ slice offset ?c bytes)"
      using True used "1.prems" by (intro update_step_absorbed) auto
    moreover have "slice offset (nbytes - offset) bytes =
        slice offset ?c bytes @ slice (offset + ?c) (nbytes - (offset + ?c)) bytes"
      using True slice_append_slice [of offset ?c "nbytes - (offset + ?c)" bytes] by simp
    moreover have "update_loop ctx bytes nbytes offset =
        update_loop (update_step ctx (slice offset ?c bytes)) bytes nbytes (offset + ?c)"
      using True used by (subst update_loop.simps) (simp only: simp_thms if_True Let_def)
    moreover have "offset + ?c \<le> nbytes" using True by simp
    ultimately show ?thesis
      using "1.IH" [OF conjI [OF True used] refl, of "m @ slice offset ?c bytes"] "1.prems"(3)
      by (metis append.assoc)
  next
    case False
    then show ?thesis using "1.prems" by (subst update_loop.simps) (simp add: slice_def)
  qed
qed

lemma absorbed_total_bytes [simp]:
  "absorbed (ctx\<lparr>sha_total_bytes := n\<rparr>) m \<longleftrightarrow> absorbed ctx m"
  by (simp add: absorbed_def)

lemma update_absorbed:
  "absorbed ctx m \<Longrightarrow> nbytes \<le> length bytes \<Longrightarrow>
     absorbed (update ctx bytes nbytes) (m @ take nbytes bytes)"
  using update_loop_absorbed [of "ctx\<lparr>sha_total_bytes := sha_total_bytes ctx + of_nat nbytes\<rparr>"
      m 0 nbytes bytes]
  by (simp add: update_def slice_def)

lemma sha256_eq_reference:
  "ribon_security_sha256 bytes (length bytes) = sha256_reference bytes"
proof -
  let ?r = "length bytes mod 64"
  let ?c1 = "update sha_initial bytes (length bytes)"
  let ?p = "if sha_used ?c1 < 56 then 56 - sha_used ?c1 else 120 - sha_used ?c1"
  let ?c2 = "update ?c1 (0x80 # replicate 127 0) ?p"
  let ?c3 = "update ?c2 (sha_length_bytes (of_nat (length bytes) * 8)) 8"
  have c1: "absorbed ?c1 bytes"
    using update_absorbed [OF absorbed_initial, of "length bytes" bytes] by simp
  then have r: "sha_used ?c1 = ?r" by (simp add: absorbed_def)
  have "?p = Suc ((119 - ?r) mod 64)"
  proof (cases "?r < 56")
    case True
    then have "119 - ?r = 64 + (55 - ?r)" by simp
    then show ?thesis using True r by (simp only: mod_add_self1) simp
  next
    case False
    then show ?thesis using r mod_less_divisor [of 64 "length bytes"] by simp
  qed
  then have "take ?p (0x80 # replicate 127 0) = 0x80 # replicate ((119 - ?r) mod 64) (0 :: u8)"
    by (simp add: take_replicate)
  moreover have "absorbed ?c2 (bytes @ take ?p (0x80 # replicate 127 0))"
    by (rule update_absorbed [OF c1]) auto
  ultimately have c2: "absorbed ?c2 (bytes @ 0x80 # replicate ((119 - ?r) mod 64) 0)"
    by (simp only:)
  have "absorbed ?c3 (sha_pad bytes)"
    using update_absorbed [OF c2, of 8 "sha_length_bytes (of_nat (length bytes) * 8)"]
    by (simp only: sha_pad_def length_sha_length_bytes order_refl simp_thms append_assoc append_Cons
        take_all)
  then have state: "sha_state ?c3 = sha_process (sha_state sha_initial) (sha_pad bytes)"
    by (simp add: absorbed_def)
  then have "length (sha_state ?c3) = 8"
    by (simp add: length_sha_process sha_initial_def)
  then have "map (\<lambda>index. sha_word_bytes (sha_state ?c3 ! index)) [0..<8] =
      map sha_word_bytes (map ((!) (sha_state ?c3)) [0..<length (sha_state ?c3)])"
    by (simp only: map_map comp_def)
  then have "map (\<lambda>index. sha_word_bytes (sha_state ?c3 ! index)) [0..<8] =
      map sha_word_bytes (sha_state ?c3)"
    by (simp only: map_nth)
  then show ?thesis
    unfolding ribon_security_sha256_def Let_def sha256_reference_def state [symmetric] by (rule arg_cong)
qed

end
