(* ===== verification/Protected_State.thy ===== *)
theory Protected_State
  imports Sha256
begin

text \<open>
  The rollback-protection journal of \<open>src/security/protected_state.c\<close>: two record slots and two
  selector slots behind a storage provider, and the operations that open a trial, spend its
  attempts, confirm it or drop it.

  A provider is a record of callbacks over a world \<open>'w\<close>; every operation threads the world.
  A nullable pointer argument is an \<open>option\<close>, a nullable out-pointer a \<open>bool\<close>, and
  the second result is the value stored through it. Structure sizes are those of a 64-bit target.
\<close>

section \<open>Data\<close>

datatype RibonProtectedStateStatus =
    PS_OK | PS_INVALID_ARGUMENT | PS_INVALID_PROVIDER | PS_UNAVAILABLE | PS_IO_ERROR
  | PS_UNINITIALIZED | PS_CORRUPT | PS_CONFLICT | PS_DOMAIN_MISMATCH | PS_ROLLBACK
  | PS_SEQUENCE_GAP | PS_ATTEMPTS_EXHAUSTED | PS_OVERFLOW | PS_READBACK_MISMATCH
  | PS_ALREADY_INITIALIZED | PS_BINDING_MISMATCH

datatype RibonProtectedStateObject = OBJECT_INVALID | OBJECT_RECORD | OBJECT_SELECTOR

datatype RibonProtectedStateAuthority = AUTHORITY_INVALID | AUTHORITY_CONFIRMED | AUTHORITY_TRIAL

text \<open>Enumerations read from media or checked for range keep their machine width.\<close>

abbreviation (input) KIND_CONFIRMED :: u32 where "KIND_CONFIRMED \<equiv> 1"
abbreviation (input) KIND_TRIAL :: u32 where "KIND_TRIAL \<equiv> 2"
abbreviation (input) PROVIDER_OK :: int where "PROVIDER_OK \<equiv> 0"
abbreviation (input) PROVIDER_UNAVAILABLE :: int where "PROVIDER_UNAVAILABLE \<equiv> - 1"
abbreviation (input) PROVIDER_IO_ERROR :: int where "PROVIDER_IO_ERROR \<equiv> - 2"
abbreviation (input) MAX_TRIAL_ATTEMPTS :: u32 where "MAX_TRIAL_ATTEMPTS \<equiv> 32"

record RibonProtectedRecord =
  rec_kind :: u32
  rec_confirmed_floor :: u64
  rec_pending_sequence :: u64
  rec_attempts :: u32
  rec_generation :: u64
  rec_domain :: "u8 list"
  rec_binding :: "u8 list"
  rec_attempt_sequence :: u64

record RibonProtectedSelector =
  sel_slot :: u32
  sel_generation :: u64
  sel_domain :: "u8 list"
  sel_record_digest :: "u8 list"

record 'w RibonProtectedStateProvider =
  provider_magic :: u32
  provider_size :: u32
  provider_abi_version :: u32
  provider_class :: u32
  provider_flags :: u32
  provider_record_slots :: u32
  provider_selector_slots :: u32
  provider_reserved0 :: u32
  provider_record_bytes :: u64
  provider_selector_bytes :: u64
  provider_id :: "string option"
  provider_read_fn ::
    "(u8 list \<Rightarrow> RibonProtectedStateObject \<Rightarrow> u32 \<Rightarrow> nat \<Rightarrow> 'w \<Rightarrow> int \<times> u8 list \<times> 'w) option"
  provider_write_fn ::
    "(u8 list \<Rightarrow> RibonProtectedStateObject \<Rightarrow> u32 \<Rightarrow> u8 list \<Rightarrow> 'w \<Rightarrow> int \<times> 'w) option"
  provider_flush_fn :: "(u8 list \<Rightarrow> 'w \<Rightarrow> int \<times> 'w) option"
  provider_reserved :: "u64 list"

record 'w RibonProtectedStateProductBinding =
  binding_size :: u32
  binding_abi_version :: u32
  binding_provider_class :: u32
  binding_flags :: u32
  binding_provider :: "'w RibonProtectedStateProvider option"
  binding_domain_digests :: "u8 list list option"
  binding_domain_count :: u32
  binding_reserved0 :: u32
  binding_reserved :: "u64 list"

record 'w RibonProtectedStateJournal =
  journal_size :: u32
  journal_abi_version :: u32
  journal_provider :: "'w RibonProtectedStateProvider option"
  journal_domain :: "u8 list"
  journal_reserved :: "u64 list"

record RibonProtectedStateSnapshot =
  snap_size :: u32
  snap_abi_version :: u32
  snap_kind :: u32
  snap_selected_slot :: u32
  snap_confirmed_floor :: u64
  snap_pending_sequence :: u64
  snap_attempts :: u32
  snap_flags :: u32
  snap_generation :: u64
  snap_domain :: "u8 list"
  snap_binding :: "u8 list"
  snap_attempt_sequence :: u64
  snap_reserved :: "u64 list"

record RibonProtectedStateDecision =
  decision_size :: u32
  decision_abi_version :: u32
  decision_authority :: RibonProtectedStateAuthority
  decision_attempts :: u32
  decision_sequence :: u64
  decision_generation :: u64
  decision_domain :: "u8 list"
  decision_reserved :: "u64 list"

section \<open>Codec\<close>

text \<open>The two fifteen-character magic strings, as bytes.\<close>

definition RECORD_MAGIC :: "u8 list" where
  "RECORD_MAGIC = map (\<lambda>c. of_nat (of_char c)) ''RIBON-PSTATE-R1''"

definition SELECTOR_MAGIC :: "u8 list" where
  "SELECTOR_MAGIC = map (\<lambda>c. of_nat (of_char c)) ''RIBON-PSTATE-S1''"

definition record_identity :: "u8 list \<Rightarrow> u8 list" where
  "record_identity rb = ribon_security_sha256 rb 160"

definition record_body :: "RibonProtectedRecord \<Rightarrow> u8 list" where
  "record_body r =
     (let bytes = replicate 160 0;
          bytes = blit 0 RECORD_MAGIC bytes;
          bytes = bytes[16 := 1];
          bytes = store_u32 20 160 bytes;
          bytes = store_u32 24 1 bytes;
          bytes = store_u32 28 (rec_kind r) bytes;
          bytes = store_u64 32 (rec_generation r) bytes;
          bytes = store_u64 40 (rec_confirmed_floor r) bytes;
          bytes = store_u64 48 (rec_pending_sequence r) bytes;
          bytes = store_u32 56 (rec_attempts r) bytes;
          bytes = blit 64 (rec_domain r) bytes;
          bytes = blit 96 (rec_binding r) bytes
      in store_u64 128 (rec_attempt_sequence r) bytes)"

definition record_encode :: "RibonProtectedRecord \<Rightarrow> u8 list" where
  "record_encode r = store_u32 144 (crc32c (record_body r) 144) (record_body r)"

definition record_decode :: "u8 list \<Rightarrow> RibonProtectedStateStatus \<times> RibonProtectedRecord option" where
  "record_decode bytes =
     (let kind = load_u32 (drop 28 bytes);
          attempts = load_u32 (drop 56 bytes);
          confirmed = load_u64 (drop 40 bytes);
          pending = load_u64 (drop 48 bytes);
          binding_is_zero = bytes_zero (drop 96 bytes) 32;
          attempt_sequence = load_u64 (drop 128 bytes)
      in if \<not> bytes_equal bytes RECORD_MAGIC 15 \<or>
            bytes ! 15 \<noteq> 0 \<or> bytes ! 16 \<noteq> 1 \<or> bytes ! 17 \<noteq> 0 \<or> bytes ! 18 \<noteq> 0 \<or> bytes ! 19 \<noteq> 0 \<or>
            load_u32 (drop 20 bytes) \<noteq> 160 \<or>
            load_u32 (drop 24 bytes) \<noteq> 1 \<or>
            load_u32 (drop 60 bytes) \<noteq> 0 \<or> load_u64 (drop 136 bytes) \<noteq> 0 \<or>
            load_u32 (drop 144 bytes) \<noteq> crc32c bytes 144 \<or>
            \<not> bytes_zero (drop 148 bytes) 12 \<or>
            bytes_zero (drop 64 bytes) 32 \<or>
            load_u64 (drop 32 bytes) = 0 \<or>
            (kind \<noteq> KIND_CONFIRMED \<and> kind \<noteq> KIND_TRIAL) \<or>
            (kind = KIND_CONFIRMED \<and>
              (pending \<noteq> 0 \<or> attempts \<noteq> 0 \<or> binding_is_zero \<noteq> (attempt_sequence = 0))) \<or>
            (kind = KIND_TRIAL \<and>
              (confirmed = UINT64_MAX \<or> pending \<noteq> confirmed + 1 \<or>
               MAX_TRIAL_ATTEMPTS < attempts \<or> binding_is_zero \<noteq> (attempt_sequence = 0)))
         then (PS_CORRUPT, None)
         else (PS_OK, Some \<lparr>rec_kind = kind, rec_confirmed_floor = confirmed,
                           rec_pending_sequence = pending, rec_attempts = attempts,
                           rec_generation = load_u64 (drop 32 bytes),
                           rec_domain = slice 64 32 bytes, rec_binding = slice 96 32 bytes,
                           rec_attempt_sequence = attempt_sequence\<rparr>))"

definition selector_body :: "RibonProtectedSelector \<Rightarrow> u8 list" where
  "selector_body s =
     (let bytes = replicate 160 0;
          bytes = blit 0 SELECTOR_MAGIC bytes;
          bytes = bytes[16 := 1];
          bytes = store_u32 20 160 bytes;
          bytes = store_u32 24 (sel_slot s) bytes;
          bytes = store_u64 32 (sel_generation s) bytes;
          bytes = blit 40 (sel_domain s) bytes
      in blit 72 (sel_record_digest s) bytes)"

definition selector_encode :: "RibonProtectedSelector \<Rightarrow> u8 list" where
  "selector_encode s = store_u32 144 (crc32c (selector_body s) 144) (selector_body s)"

definition selector_decode ::
  "u8 list \<Rightarrow> RibonProtectedStateStatus \<times> RibonProtectedSelector option"
where
  "selector_decode bytes =
     (if \<not> bytes_equal bytes SELECTOR_MAGIC 15 \<or>
         bytes ! 15 \<noteq> 0 \<or> bytes ! 16 \<noteq> 1 \<or> bytes ! 17 \<noteq> 0 \<or> bytes ! 18 \<noteq> 0 \<or> bytes ! 19 \<noteq> 0 \<or>
         load_u32 (drop 20 bytes) \<noteq> 160 \<or>
         2 \<le> load_u32 (drop 24 bytes) \<or>
         load_u32 (drop 28 bytes) \<noteq> 0 \<or> load_u64 (drop 32 bytes) = 0 \<or>
         bytes_zero (drop 40 bytes) 32 \<or>
         bytes_zero (drop 72 bytes) 32 \<or>
         \<not> bytes_zero (drop 104 bytes) 40 \<or>
         load_u32 (drop 144 bytes) \<noteq> crc32c bytes 144 \<or>
         \<not> bytes_zero (drop 148 bytes) 12
      then (PS_CORRUPT, None)
      else (PS_OK, Some \<lparr>sel_slot = load_u32 (drop 24 bytes),
                        sel_generation = load_u64 (drop 32 bytes),
                        sel_domain = slice 40 32 bytes, sel_record_digest = slice 72 32 bytes\<rparr>))"

section \<open>Validation\<close>

text \<open>All bytes of an array of 64-bit reserved words are zero.\<close>

definition reserved_zero :: "u64 list \<Rightarrow> bool" where
  "reserved_zero ws \<longleftrightarrow> list_all (\<lambda>w. w = 0) ws"

definition ribon_protected_state_provider_validate ::
  "'w RibonProtectedStateProvider option \<Rightarrow> RibonProtectedStateStatus"
where
  "ribon_protected_state_provider_validate provider =
     (case provider of
        None \<Rightarrow> PS_INVALID_PROVIDER
      | Some p \<Rightarrow>
          if provider_magic p \<noteq> 0x52425053 \<or> provider_size p \<noteq> 120 \<or> provider_abi_version p \<noteq> 1 \<or>
             (provider_class p \<noteq> 1 \<and> provider_class p \<noteq> 2 \<and> provider_class p \<noteq> 3) \<or>
             provider_flags p \<noteq> 0 \<or>
             provider_record_slots p \<noteq> 2 \<or> provider_selector_slots p \<noteq> 2 \<or>
             provider_reserved0 p \<noteq> 0 \<or>
             provider_record_bytes p \<noteq> 160 \<or> provider_selector_bytes p \<noteq> 160 \<or>
             provider_id p = None \<or> provider_id p = Some [] \<or>
             provider_read_fn p = None \<or> provider_write_fn p = None \<or> provider_flush_fn p = None \<or>
             \<not> reserved_zero (provider_reserved p)
          then PS_INVALID_PROVIDER else PS_OK)"

text \<open>The loop over the domain table: non-zero digests in strictly ascending order.\<close>

fun domains_ascending :: "u8 list list \<Rightarrow> bool" where
  "domains_ascending [] = True"
| "domains_ascending [d] = (\<not> bytes_zero d 32)"
| "domains_ascending (d # e # ds) =
     (\<not> bytes_zero d 32 \<and> memcmp (take 32 d) (take 32 e) < 0 \<and> domains_ascending (e # ds))"

definition ribon_protected_state_binding_validate ::
  "'w RibonProtectedStateProductBinding option \<Rightarrow> RibonProtectedStateStatus"
where
  "ribon_protected_state_binding_validate binding =
     (case binding of
        None \<Rightarrow> PS_INVALID_PROVIDER
      | Some b \<Rightarrow>
          if binding_size b \<noteq> 72 \<or> binding_abi_version b \<noteq> 1 \<or>
             binding_flags b \<noteq> 0 \<or> binding_reserved0 b \<noteq> 0 \<or>
             \<not> reserved_zero (binding_reserved b) \<or>
             binding_domain_digests b = None \<or> binding_domain_count b = 0 \<or>
             8 < binding_domain_count b \<or>
             ribon_protected_state_provider_validate (binding_provider b) \<noteq> PS_OK \<or>
             binding_provider_class b \<noteq> provider_class (the (binding_provider b))
          then PS_INVALID_PROVIDER
          else if domains_ascending
                    (take (unat (binding_domain_count b)) (the (binding_domain_digests b)))
          then PS_OK else PS_INVALID_PROVIDER)"

definition ribon_protected_state_journal_bind ::
  "'w RibonProtectedStateProductBinding option \<Rightarrow> u8 list option \<Rightarrow> bool \<Rightarrow>
   RibonProtectedStateStatus \<times> 'w RibonProtectedStateJournal option"
where
  "ribon_protected_state_journal_bind binding domain journal =
     (if \<not> journal \<or> domain = None \<or> ribon_protected_state_binding_validate binding \<noteq> PS_OK
      then (PS_INVALID_ARGUMENT, None)
      else
        let b = the binding;
            digests = take (unat (binding_domain_count b)) (the (binding_domain_digests b))
        in if list_ex (\<lambda>d. bytes_equal d (the domain) 32) digests
           then (PS_OK, Some \<lparr>journal_size = 80, journal_abi_version = 1,
                             journal_provider = binding_provider b,
                             journal_domain = take 32 (the domain),
                             journal_reserved = [0, 0, 0, 0]\<rparr>)
           else (PS_DOMAIN_MISMATCH, None))"

definition journal_validate :: "'w RibonProtectedStateJournal option \<Rightarrow> RibonProtectedStateStatus" where
  "journal_validate journal =
     (case journal of
        None \<Rightarrow> PS_INVALID_ARGUMENT
      | Some j \<Rightarrow>
          if journal_size j \<noteq> 80 \<or> journal_abi_version j \<noteq> 1 \<or>
             bytes_zero (journal_domain j) 32 \<or> \<not> reserved_zero (journal_reserved j)
          then PS_INVALID_ARGUMENT
          else ribon_protected_state_provider_validate (journal_provider j))"

section \<open>Provider calls\<close>

definition provider_status :: "int \<Rightarrow> RibonProtectedStateStatus" where
  "provider_status status =
     (if status = PROVIDER_UNAVAILABLE then PS_UNAVAILABLE
      else if status = PROVIDER_OK then PS_OK else PS_IO_ERROR)"

definition provider_read ::
  "'w RibonProtectedStateJournal \<Rightarrow> RibonProtectedStateObject \<Rightarrow> u32 \<Rightarrow> nat \<Rightarrow> 'w \<Rightarrow>
   RibonProtectedStateStatus \<times> u8 list \<times> 'w"
where
  "provider_read j object slot n w =
     (case the (provider_read_fn (the (journal_provider j))) (journal_domain j) object slot n w of
        (status, bytes, w') \<Rightarrow> (provider_status status, bytes, w'))"

definition provider_write ::
  "'w RibonProtectedStateJournal \<Rightarrow> RibonProtectedStateObject \<Rightarrow> u32 \<Rightarrow> u8 list \<Rightarrow> 'w \<Rightarrow>
   RibonProtectedStateStatus \<times> 'w"
where
  "provider_write j object slot bytes w =
     (case the (provider_write_fn (the (journal_provider j))) (journal_domain j) object slot bytes w of
        (status, w') \<Rightarrow> (provider_status status, w'))"

definition provider_flush ::
  "'w RibonProtectedStateJournal \<Rightarrow> 'w \<Rightarrow> RibonProtectedStateStatus \<times> 'w"
where
  "provider_flush j w =
     (case the (provider_flush_fn (the (journal_provider j))) (journal_domain j) w of
        (status, w') \<Rightarrow> (provider_status status, w'))"

section \<open>Opening the journal\<close>

definition snapshot_from_record :: "RibonProtectedRecord \<Rightarrow> u32 \<Rightarrow> RibonProtectedStateSnapshot" where
  "snapshot_from_record r slot =
     \<lparr>snap_size = 152, snap_abi_version = 1, snap_kind = rec_kind r, snap_selected_slot = slot,
      snap_confirmed_floor = rec_confirmed_floor r, snap_pending_sequence = rec_pending_sequence r,
      snap_attempts = rec_attempts r, snap_flags = 0, snap_generation = rec_generation r,
      snap_domain = rec_domain r, snap_binding = rec_binding r,
      snap_attempt_sequence = rec_attempt_sequence r, snap_reserved = [0, 0, 0, 0]\<rparr>"

definition selector_status ::
  "u8 list \<Rightarrow> RibonProtectedStateStatus \<times> RibonProtectedSelector option"
where
  "selector_status bytes =
     (if bytes_zero bytes 160 then (PS_UNINITIALIZED, None) else selector_decode bytes)"

text \<open>
  The decision of \<open>open\<close> once the selector that decides is known: its record must decode, agree
  with it on generation, domain and digest, and not conflict with the other record.
\<close>

definition open_selected ::
  "u8 list \<Rightarrow> RibonProtectedSelector \<Rightarrow> (u32 \<Rightarrow> u8 list) \<Rightarrow>
   RibonProtectedStateStatus \<times> RibonProtectedStateSnapshot option"
where
  "open_selected domain sel records =
     (let index = sel_slot sel;
          (status, decoded) = record_decode (records index);
          (other_status, other) = record_decode (records (1 - index));
          digest = record_identity (records index)
      in if status \<noteq> PS_OK \<or>
            sel_generation sel \<noteq> rec_generation (the decoded) \<or>
            \<not> bytes_equal (sel_domain sel) domain 32 \<or>
            \<not> bytes_equal (rec_domain (the decoded)) domain 32 \<or>
            \<not> bytes_equal (sel_record_digest sel) digest 32
         then (PS_CORRUPT, None)
         else if other_status = PS_OK \<and>
                 rec_generation (the other) = rec_generation (the decoded) \<and>
                 \<not> bytes_equal (records (1 - index)) (records index) 160
         then (PS_CONFLICT, None)
         else (PS_OK, Some (snapshot_from_record (the decoded) index)))"

definition open_decide ::
  "u8 list \<Rightarrow> (u32 \<Rightarrow> u8 list) \<Rightarrow> (u32 \<Rightarrow> u8 list) \<Rightarrow>
   RibonProtectedStateStatus \<times> RibonProtectedStateSnapshot option"
where
  "open_decide domain selectors records =
     (case (selector_status (selectors 0), selector_status (selectors 1)) of
        ((st0, sel0), (st1, sel1)) \<Rightarrow>
          if st0 \<noteq> PS_OK \<and> st1 \<noteq> PS_OK
          then (if st0 = PS_UNINITIALIZED \<and> st1 = PS_UNINITIALIZED
                then PS_UNINITIALIZED else PS_CORRUPT, None)
          else if st0 = PS_OK \<and> st1 = PS_OK
          then (if sel_generation (the sel0) = sel_generation (the sel1) \<and>
                   \<not> bytes_equal (selectors 0) (selectors 1) 160
                then (PS_CONFLICT, None)
                else open_selected domain
                       (if sel_generation (the sel0) < sel_generation (the sel1)
                        then the sel1 else the sel0) records)
          else open_selected domain (if st0 = PS_OK then the sel0 else the sel1) records)"

text \<open>One turn of the loop that reads a selector and a record.\<close>

definition open_read_slot ::
  "'w RibonProtectedStateJournal \<Rightarrow> u32 \<Rightarrow> 'w \<Rightarrow>
   RibonProtectedStateStatus \<times> (u8 list \<times> u8 list) \<times> 'w"
where
  "open_read_slot j index w =
     (let (st, sb, w1) = provider_read j OBJECT_SELECTOR index 160 w
      in if st \<noteq> PS_OK then (st, ([], []), w1)
         else let (st, rb, w2) = provider_read j OBJECT_RECORD index 160 w1
              in (st, (sb, rb), w2))"

definition ribon_protected_state_open ::
  "'w RibonProtectedStateJournal option \<Rightarrow> bool \<Rightarrow> 'w \<Rightarrow>
   RibonProtectedStateStatus \<times> RibonProtectedStateSnapshot option \<times> 'w"
where
  "ribon_protected_state_open journal snapshot w =
     (let status = journal_validate journal
      in if \<not> snapshot then (PS_INVALID_ARGUMENT, None, w)
         else if status \<noteq> PS_OK then (status, None, w)
         else
           let j = the journal;
               (st0, (sb0, rb0), w1) = open_read_slot j 0 w
           in if st0 \<noteq> PS_OK then (st0, None, w1)
              else
                let (st1, (sb1, rb1), w2) = open_read_slot j 1 w1
                in if st1 \<noteq> PS_OK then (st1, None, w2)
                   else
                     let (st, snap) = open_decide (journal_domain j)
                           (\<lambda>i. if i = 0 then sb0 else sb1) (\<lambda>i. if i = 0 then rb0 else rb1)
                     in (st, snap, w2))"

section \<open>Committing a record\<close>

definition commit_record ::
  "'w RibonProtectedStateJournal \<Rightarrow> u32 \<Rightarrow> RibonProtectedRecord \<Rightarrow> bool \<Rightarrow> 'w \<Rightarrow>
   RibonProtectedStateStatus \<times> RibonProtectedStateSnapshot option \<times> 'w"
where
  "commit_record j slot r snapshot w =
     (let rb = record_encode r;
          sb = selector_encode \<lparr>sel_slot = slot, sel_generation = rec_generation r,
                                sel_domain = rec_domain r, sel_record_digest = record_identity rb\<rparr>;
          (st, w) = provider_write j OBJECT_RECORD slot rb w
      in if st \<noteq> PS_OK then (st, None, w) else
      let (st, w) = provider_flush j w
      in if st \<noteq> PS_OK then (st, None, w) else
      let (st, readback, w) = provider_read j OBJECT_RECORD slot 160 w
      in if st \<noteq> PS_OK then (st, None, w)
      else if \<not> bytes_equal rb readback 160 then (PS_READBACK_MISMATCH, None, w) else
      let (st, w) = provider_write j OBJECT_SELECTOR slot sb w
      in if st \<noteq> PS_OK then (st, None, w) else
      let (st, w) = provider_flush j w
      in if st \<noteq> PS_OK then (st, None, w) else
      let (st, opened, w) = ribon_protected_state_open (Some j) True w
      in if st \<noteq> PS_OK then (st, None, w)
      else if snap_generation (the opened) \<noteq> rec_generation r \<or> snap_selected_slot (the opened) \<noteq> slot
      then (PS_READBACK_MISMATCH, None, w)
      else (PS_OK, if snapshot then opened else None, w))"

definition transition_record ::
  "'w RibonProtectedStateJournal \<Rightarrow> RibonProtectedStateSnapshot \<Rightarrow> RibonProtectedRecord \<Rightarrow> bool \<Rightarrow>
   'w \<Rightarrow> RibonProtectedStateStatus \<times> RibonProtectedStateSnapshot option \<times> 'w"
where
  "transition_record j current next snapshot w =
     (if snap_generation current = UINT64_MAX then (PS_OVERFLOW, None, w)
      else commit_record j (1 - snap_selected_slot current)
             (next\<lparr>rec_generation := snap_generation current + 1,
                   rec_domain := snap_domain current\<rparr>) snapshot w)"

text \<open>A record whose remaining members are zero, as a designated initialiser leaves them.\<close>

definition record_zero :: RibonProtectedRecord where
  "record_zero = \<lparr>rec_kind = 0, rec_confirmed_floor = 0, rec_pending_sequence = 0, rec_attempts = 0,
     rec_generation = 0, rec_domain = replicate 32 0, rec_binding = replicate 32 0,
     rec_attempt_sequence = 0\<rparr>"

section \<open>Operations\<close>

definition ribon_protected_state_initialize ::
  "'w RibonProtectedStateJournal option \<Rightarrow> u64 \<Rightarrow> bool \<Rightarrow> 'w \<Rightarrow>
   RibonProtectedStateStatus \<times> RibonProtectedStateSnapshot option \<times> 'w"
where
  "ribon_protected_state_initialize journal confirmed_floor snapshot w =
     (let (status, current, w) = ribon_protected_state_open journal True w
      in if status \<noteq> PS_UNINITIALIZED
         then (if status = PS_OK then PS_ALREADY_INITIALIZED else status, None, w)
         else commit_record (the journal) 0
                (record_zero\<lparr>rec_kind := KIND_CONFIRMED, rec_confirmed_floor := confirmed_floor,
                             rec_generation := 1, rec_domain := journal_domain (the journal)\<rparr>)
                snapshot w)"

definition begin_trial ::
  "'w RibonProtectedStateJournal option \<Rightarrow> u64 \<Rightarrow> u32 \<Rightarrow> u8 list option \<Rightarrow> u64 \<Rightarrow> bool \<Rightarrow> 'w \<Rightarrow>
   RibonProtectedStateStatus \<times> RibonProtectedStateSnapshot option \<times> 'w"
where
  "begin_trial journal candidate attempts binding attempt_sequence snapshot w =
     (let (status, opened, w) = ribon_protected_state_open journal True w
      in if status \<noteq> PS_OK then (status, None, w) else
      let current = the opened
      in if snap_kind current \<noteq> KIND_CONFIRMED then (PS_ROLLBACK, None, w)
      else if snap_confirmed_floor current = UINT64_MAX then (PS_OVERFLOW, None, w)
      else if candidate \<noteq> snap_confirmed_floor current + 1
      then (if candidate \<le> snap_confirmed_floor current then PS_ROLLBACK else PS_SEQUENCE_GAP, None, w)
      else if attempts = 0 \<or> MAX_TRIAL_ATTEMPTS < attempts then (PS_INVALID_ARGUMENT, None, w)
      else if (binding = None \<and> attempt_sequence \<noteq> 0) \<or>
              (binding \<noteq> None \<and> (bytes_zero (the binding) 32 \<or> attempt_sequence = 0))
      then (PS_INVALID_ARGUMENT, None, w)
      else transition_record (the journal) current
             (record_zero\<lparr>rec_kind := KIND_TRIAL,
                          rec_confirmed_floor := snap_confirmed_floor current,
                          rec_pending_sequence := candidate, rec_attempts := attempts,
                          rec_attempt_sequence := attempt_sequence,
                          rec_binding := (case binding of None \<Rightarrow> replicate 32 0
                                          | Some b \<Rightarrow> take 32 b)\<rparr>)
             snapshot w)"

definition ribon_protected_state_begin_trial ::
  "'w RibonProtectedStateJournal option \<Rightarrow> u64 \<Rightarrow> u32 \<Rightarrow> bool \<Rightarrow> 'w \<Rightarrow>
   RibonProtectedStateStatus \<times> RibonProtectedStateSnapshot option \<times> 'w"
where
  "ribon_protected_state_begin_trial journal candidate attempts snapshot w =
     begin_trial journal candidate attempts None 0 snapshot w"

definition ribon_protected_state_begin_bound_trial ::
  "'w RibonProtectedStateJournal option \<Rightarrow> u64 \<Rightarrow> u32 \<Rightarrow> u8 list option \<Rightarrow> u64 \<Rightarrow> bool \<Rightarrow> 'w \<Rightarrow>
   RibonProtectedStateStatus \<times> RibonProtectedStateSnapshot option \<times> 'w"
where
  "ribon_protected_state_begin_bound_trial journal candidate attempts binding attempt_sequence snapshot w =
     begin_trial journal candidate attempts binding attempt_sequence snapshot w"

definition ribon_protected_state_rebind_trial_attempt ::
  "'w RibonProtectedStateJournal option \<Rightarrow> u64 \<Rightarrow> u8 list option \<Rightarrow> u64 \<Rightarrow> bool \<Rightarrow> 'w \<Rightarrow>
   RibonProtectedStateStatus \<times> RibonProtectedStateSnapshot option \<times> 'w"
where
  "ribon_protected_state_rebind_trial_attempt journal pending binding attempt_sequence snapshot w =
     (if binding = None \<or> bytes_zero (the binding) 32 \<or> attempt_sequence = 0
      then (PS_INVALID_ARGUMENT, None, w) else
      let (status, opened, w) = ribon_protected_state_open journal True w
      in if status \<noteq> PS_OK then (status, None, w) else
      let current = the opened
      in if snap_kind current \<noteq> KIND_TRIAL \<or> snap_pending_sequence current \<noteq> pending
      then (PS_ROLLBACK, None, w)
      else if snap_attempts current = 0 then (PS_ATTEMPTS_EXHAUSTED, None, w)
      else if attempt_sequence \<le> snap_attempt_sequence current then (PS_BINDING_MISMATCH, None, w)
      else transition_record (the journal) current
             (record_zero\<lparr>rec_kind := KIND_TRIAL,
                          rec_confirmed_floor := snap_confirmed_floor current,
                          rec_pending_sequence := snap_pending_sequence current,
                          rec_attempts := snap_attempts current,
                          rec_attempt_sequence := attempt_sequence,
                          rec_binding := take 32 (the binding)\<rparr>)
             snapshot w)"

definition ribon_protected_state_authorize ::
  "'w RibonProtectedStateJournal option \<Rightarrow> u64 \<Rightarrow> bool \<Rightarrow> 'w \<Rightarrow>
   RibonProtectedStateStatus \<times> RibonProtectedStateDecision option \<times> 'w"
where
  "ribon_protected_state_authorize journal sequence decision w =
     (if \<not> decision then (PS_INVALID_ARGUMENT, None, w) else
      let (status, opened, w) = ribon_protected_state_open journal True w
      in if status \<noteq> PS_OK then (status, None, w) else
      let current = the opened;
          grant = (\<lambda>authority.
            (PS_OK, Some \<lparr>decision_size = 96, decision_abi_version = 1,
                         decision_authority = authority,
                         decision_attempts = snap_attempts current,
                         decision_sequence = sequence,
                         decision_generation = snap_generation current,
                         decision_domain = snap_domain current,
                         decision_reserved = [0, 0, 0, 0]\<rparr>, w))
      in if sequence = snap_confirmed_floor current then grant AUTHORITY_CONFIRMED
      else if snap_kind current = KIND_TRIAL \<and> sequence = snap_pending_sequence current
      then (if snap_attempts current = 0 then (PS_ATTEMPTS_EXHAUSTED, None, w)
            else grant AUTHORITY_TRIAL)
      else (if sequence < snap_confirmed_floor current \<or>
               (snap_kind current = KIND_CONFIRMED \<and> sequence \<le> snap_confirmed_floor current)
            then PS_ROLLBACK else PS_SEQUENCE_GAP, None, w))"

definition ribon_protected_state_consume_trial_attempt ::
  "'w RibonProtectedStateJournal option \<Rightarrow> u64 \<Rightarrow> bool \<Rightarrow> 'w \<Rightarrow>
   RibonProtectedStateStatus \<times> RibonProtectedStateSnapshot option \<times> 'w"
where
  "ribon_protected_state_consume_trial_attempt journal pending snapshot w =
     (let (status, opened, w) = ribon_protected_state_open journal True w
      in if status \<noteq> PS_OK then (status, None, w) else
      let current = the opened
      in if snap_kind current \<noteq> KIND_TRIAL \<or> snap_pending_sequence current \<noteq> pending
      then (PS_ROLLBACK, None, w)
      else if snap_attempts current = 0 then (PS_ATTEMPTS_EXHAUSTED, None, w)
      else transition_record (the journal) current
             (record_zero\<lparr>rec_kind := KIND_TRIAL,
                          rec_confirmed_floor := snap_confirmed_floor current,
                          rec_pending_sequence := snap_pending_sequence current,
                          rec_attempts := snap_attempts current - 1,
                          rec_attempt_sequence := snap_attempt_sequence current,
                          rec_binding := snap_binding current\<rparr>)
             snapshot w)"

definition ribon_protected_state_confirm ::
  "'w RibonProtectedStateJournal option \<Rightarrow> u64 \<Rightarrow> bool \<Rightarrow> 'w \<Rightarrow>
   RibonProtectedStateStatus \<times> RibonProtectedStateSnapshot option \<times> 'w"
where
  "ribon_protected_state_confirm journal pending snapshot w =
     (let (status, opened, w) = ribon_protected_state_open journal True w
      in if status \<noteq> PS_OK then (status, None, w) else
      let current = the opened
      in if snap_kind current \<noteq> KIND_TRIAL \<or> snap_pending_sequence current \<noteq> pending \<or>
            \<not> bytes_zero (snap_binding current) 32 \<or> snap_attempt_sequence current \<noteq> 0
      then (PS_ROLLBACK, None, w)
      else transition_record (the journal) current
             (record_zero\<lparr>rec_kind := KIND_CONFIRMED, rec_confirmed_floor := pending\<rparr>) snapshot w)"

definition ribon_protected_state_confirm_bound ::
  "'w RibonProtectedStateJournal option \<Rightarrow> u64 \<Rightarrow> u8 list option \<Rightarrow> u64 \<Rightarrow> bool \<Rightarrow> 'w \<Rightarrow>
   RibonProtectedStateStatus \<times> RibonProtectedStateSnapshot option \<times> 'w"
where
  "ribon_protected_state_confirm_bound journal pending binding attempt_sequence snapshot w =
     (if \<not> snapshot \<or> binding = None \<or> bytes_zero (the binding) 32 \<or> attempt_sequence = 0
      then (PS_INVALID_ARGUMENT, None, w) else
      let (status, opened, w) = ribon_protected_state_open journal True w
      in if status \<noteq> PS_OK then (status, None, w) else
      let current = the opened
      in if snap_kind current = KIND_CONFIRMED \<and> snap_confirmed_floor current = pending \<and>
            snap_attempt_sequence current = attempt_sequence \<and>
            bytes_equal (snap_binding current) (the binding) 32
      then (PS_OK, Some current, w)
      else if snap_kind current \<noteq> KIND_TRIAL \<or> snap_pending_sequence current \<noteq> pending \<or>
              snap_attempt_sequence current \<noteq> attempt_sequence \<or>
              \<not> bytes_equal (snap_binding current) (the binding) 32
      then (PS_BINDING_MISMATCH, None, w)
      else transition_record (the journal) current
             (record_zero\<lparr>rec_kind := KIND_CONFIRMED, rec_confirmed_floor := pending,
                          rec_attempt_sequence := attempt_sequence,
                          rec_binding := take 32 (the binding)\<rparr>) snapshot w)"

definition ribon_protected_state_fail_trial ::
  "'w RibonProtectedStateJournal option \<Rightarrow> bool \<Rightarrow> 'w \<Rightarrow>
   RibonProtectedStateStatus \<times> RibonProtectedStateSnapshot option \<times> 'w"
where
  "ribon_protected_state_fail_trial journal snapshot w =
     (let (status, opened, w) = ribon_protected_state_open journal True w
      in if status \<noteq> PS_OK then (status, None, w) else
      let current = the opened
      in if snap_kind current \<noteq> KIND_TRIAL then (PS_ROLLBACK, None, w)
      else transition_record (the journal) current
             (record_zero\<lparr>rec_kind := KIND_CONFIRMED,
                          rec_confirmed_floor := snap_confirmed_floor current,
                          rec_attempt_sequence := snap_attempt_sequence current,
                          rec_binding := snap_binding current\<rparr>) snapshot w)"

end
