(* ===== verification/Protected_Codec.thy ===== *)
theory Protected_Codec
  imports Protected_State
begin

text \<open>
  The wire format of the protected-state journal: encoding and decoding are inverse to each other
  on both objects, so a buffer that decodes is the canonical encoding of what it decodes to.
\<close>

lemma length_record_magic [simp]: "length RECORD_MAGIC = 15"
  by (simp add: RECORD_MAGIC_def)

lemma length_selector_magic [simp]: "length SELECTOR_MAGIC = 15"
  by (simp add: SELECTOR_MAGIC_def)

section \<open>Records\<close>

abbreviation record_layout :: "nat list" where
  "record_layout \<equiv> [15, 1, 1, 1, 1, 1, 4, 4, 4, 8, 8, 8, 4, 4, 32, 32, 8, 8, 4, 12]"

definition record_fields :: "RibonProtectedRecord \<Rightarrow> u8 list \<Rightarrow> u8 list list" where
  "record_fields r crc =
     [RECORD_MAGIC, [0], [1], [0], [0], [0], u32_bytes 160, u32_bytes 1, u32_bytes (rec_kind r),
      u64_bytes (rec_generation r), u64_bytes (rec_confirmed_floor r),
      u64_bytes (rec_pending_sequence r), u32_bytes (rec_attempts r), replicate 4 0,
      rec_domain r, rec_binding r, u64_bytes (rec_attempt_sequence r), replicate 8 0,
      crc, replicate 12 0]"

lemma record_body_laid:
  assumes "length (rec_domain r) = 32" and "length (rec_binding r) = 32"
  shows "laid record_layout (record_body r) (record_fields r (replicate 4 0))"
proof -
  have "laid record_layout (record_body r)
      ((map (\<lambda>n. replicate n 0) record_layout)
        [0 := RECORD_MAGIC, 2 := [1], 6 := u32_bytes 160, 7 := u32_bytes 1,
         8 := u32_bytes (rec_kind r), 9 := u64_bytes (rec_generation r),
         10 := u64_bytes (rec_confirmed_floor r), 11 := u64_bytes (rec_pending_sequence r),
         12 := u32_bytes (rec_attempts r), 14 := rec_domain r, 15 := rec_binding r,
         16 := u64_bytes (rec_attempt_sequence r)])"
    unfolding record_body_def Let_def
    by (intro laid_intros) (use assms in simp_all)
  then show ?thesis by (simp add: record_fields_def)
qed

text \<open>The records that decoding accepts.\<close>

definition record_wf :: "RibonProtectedRecord \<Rightarrow> bool" where
  "record_wf r \<longleftrightarrow>
     length (rec_domain r) = 32 \<and> rec_domain r \<noteq> replicate 32 0 \<and> length (rec_binding r) = 32 \<and>
     rec_generation r \<noteq> 0 \<and> (rec_binding r = replicate 32 0 \<longleftrightarrow> rec_attempt_sequence r = 0) \<and>
     (rec_kind r = KIND_CONFIRMED \<and> rec_pending_sequence r = 0 \<and> rec_attempts r = 0 \<or>
      rec_kind r = KIND_TRIAL \<and> rec_confirmed_floor r \<noteq> UINT64_MAX \<and>
      rec_pending_sequence r = rec_confirmed_floor r + 1 \<and> rec_attempts r \<le> MAX_TRIAL_ATTEMPTS)"

lemma record_encode_laid:
  assumes "length (rec_domain r) = 32" and "length (rec_binding r) = 32"
  shows "laid record_layout (record_encode r) (record_fields r (u32_bytes (crc32c (record_encode r) 144)))"
proof -
  note body = record_body_laid [OF assms]
  have "take 144 (record_encode r) = take 144 (record_body r)"
    using laid_length [OF body] by (simp add: record_encode_def store_u32_def take_blit)
  then have crc: "crc32c (record_encode r) 144 = crc32c (record_body r) 144"
    by (rule crc32c_cong)
  have "laid record_layout (record_encode r)
      ((record_fields r (replicate 4 0)) [18 := u32_bytes (crc32c (record_body r) 144)])"
    unfolding record_encode_def by (rule laid_store_u32 [OF body]) simp_all
  then show ?thesis unfolding crc by (simp add: record_fields_def)
qed

text \<open>What a decoder sees of a buffer, field by field.\<close>

lemma record_decode_laid:
  assumes len: "length bytes = 160" and ok: "record_decode bytes = (PS_OK, Some r)"
  shows "record_wf r" and "laid record_layout bytes (record_fields r (u32_bytes (crc32c bytes 144)))"
proof -
  note d = ok [unfolded record_decode_def Let_def, simplified]
  have r: "r = \<lparr>rec_kind = load_u32 (drop 28 bytes), rec_confirmed_floor = load_u64 (drop 40 bytes),
      rec_pending_sequence = load_u64 (drop 48 bytes), rec_attempts = load_u32 (drop 56 bytes),
      rec_generation = load_u64 (drop 32 bytes), rec_domain = slice 64 32 bytes,
      rec_binding = slice 96 32 bytes, rec_attempt_sequence = load_u64 (drop 128 bytes)\<rparr>"
    using d by (simp split: if_splits)
  show "record_wf r"
    using d len by (auto simp: r record_wf_def bytes_zero_drop split: if_splits)
  have fixed: "slice 0 15 bytes = RECORD_MAGIC"
      "slice 15 1 bytes = [0]" "slice 16 1 bytes = [1]" "slice 17 1 bytes = [0]"
      "slice 18 1 bytes = [0]" "slice 19 1 bytes = [0]"
      "slice 20 4 bytes = u32_bytes 160" "slice 24 4 bytes = u32_bytes 1"
      "slice 60 4 bytes = replicate 4 0" "slice 136 8 bytes = replicate 8 0"
      "slice 144 4 bytes = u32_bytes (crc32c bytes 144)" "slice 148 12 bytes = replicate 12 0"
    using d len
    by (simp_all add: bytes_equal_slice slice_one [simplified] slice_u32 slice_u64 bytes_zero_drop
        split: if_splits)
  show "laid record_layout bytes (record_fields r (u32_bytes (crc32c bytes 144)))"
    using len fixed by (simp add: laid_def record_fields_def r slice_u32 slice_u64)
qed

lemma record_laid_decode:
  assumes wf: "record_wf r"
    and laid: "laid record_layout bytes (record_fields r (u32_bytes (crc32c bytes 144)))"
  shows "record_decode bytes = (PS_OK, Some r)"
proof -
  have len: "length bytes = 160" using laid_length [OF laid] by simp
  note f = laid [unfolded laid_def record_fields_def, simplified]
  have bytes: "bytes ! 15 = 0" "bytes ! 16 = 1" "bytes ! 17 = 0" "bytes ! 18 = 0" "bytes ! 19 = 0"
    using f len by (simp_all add: slice_one [simplified])
  have loads: "load_u32 (drop 20 bytes) = 160" "load_u32 (drop 24 bytes) = 1"
      "load_u32 (drop 28 bytes) = rec_kind r" "load_u64 (drop 32 bytes) = rec_generation r"
      "load_u64 (drop 40 bytes) = rec_confirmed_floor r"
      "load_u64 (drop 48 bytes) = rec_pending_sequence r" "load_u32 (drop 56 bytes) = rec_attempts r"
      "load_u64 (drop 128 bytes) = rec_attempt_sequence r"
      "load_u32 (drop 144 bytes) = crc32c bytes 144"
    using f len by (simp_all add: load_u32_drop load_u64_drop)
  have zeros: "load_u32 (drop 60 bytes) = 0" "load_u64 (drop 136 bytes) = 0"
    using f len load_bytes_exact(1) [of 0] load_bytes_exact(2) [of 0]
    by (simp_all add: load_u32_drop load_u64_drop)
  show ?thesis
    using wf f len unfolding record_decode_def Let_def bytes loads zeros
    by (auto simp: record_wf_def bytes_equal_slice bytes_zero_drop)
qed

text \<open>Decoding inverts encoding, and only canonical encodings decode.\<close>

lemma record_decode_encode: "record_wf r \<Longrightarrow> record_decode (record_encode r) = (PS_OK, Some r)"
proof (rule record_laid_decode)
  assume "record_wf r"
  then show "laid record_layout (record_encode r)
      (record_fields r (u32_bytes (crc32c (record_encode r) 144)))"
    by (intro record_encode_laid) (simp_all add: record_wf_def)
qed

lemma record_encode_decode:
  assumes len: "length bytes = 160" and ok: "record_decode bytes = (PS_OK, Some r)"
  shows "record_encode r = bytes"
proof -
  have wf: "length (rec_domain r) = 32" "length (rec_binding r) = 32"
    using record_decode_laid(1) [OF assms] by (simp_all add: record_wf_def)
  let ?crc = "u32_bytes (crc32c bytes 144)"
  have "laid record_layout (blit 144 ?crc (record_body r)) ((record_fields r (replicate 4 0)) [18 := ?crc])"
    by (rule laid_blit [OF record_body_laid [OF wf]]) simp_all
  then have "laid record_layout (blit 144 ?crc (record_body r)) (record_fields r ?crc)"
    by (simp add: record_fields_def)
  then have eq: "blit 144 ?crc (record_body r) = bytes"
    using record_decode_laid(2) [OF assms] by (rule laid_unique)
  moreover have "take 144 bytes = take 144 (record_body r)"
    using arg_cong [OF eq, of "take 144"] laid_length [OF record_body_laid [OF wf]]
    by (simp add: take_blit)
  then have "crc32c bytes 144 = crc32c (record_body r) 144" by (rule crc32c_cong)
  ultimately show ?thesis by (simp add: record_encode_def store_u32_def)
qed

lemma decode_result:
  "(\<exists>y. (if c then (a, None) else (b, Some x)) = (b, Some y)) \<or>
   (if c then (a, None) else (b, Some x)) = (a, None)"
  by simp

lemma record_decode_cases:
  obtains r where "record_decode bytes = (PS_OK, Some r)" | "record_decode bytes = (PS_CORRUPT, None)"
proof -
  have "(\<exists>r. record_decode bytes = (PS_OK, Some r)) \<or> record_decode bytes = (PS_CORRUPT, None)"
    unfolding record_decode_def Let_def by (rule decode_result)
  then show ?thesis using that by blast
qed

lemma record_encode_length: "record_wf r \<Longrightarrow> length (record_encode r) = 160"
  using laid_length [OF record_encode_laid [of r]] by (simp add: record_wf_def)

section \<open>Selectors\<close>

abbreviation selector_layout :: "nat list" where
  "selector_layout \<equiv> [15, 1, 1, 1, 1, 1, 4, 4, 4, 8, 32, 32, 40, 4, 12]"

definition selector_fields :: "RibonProtectedSelector \<Rightarrow> u8 list \<Rightarrow> u8 list list" where
  "selector_fields s crc =
     [SELECTOR_MAGIC, [0], [1], [0], [0], [0], u32_bytes 160, u32_bytes (sel_slot s), replicate 4 0,
      u64_bytes (sel_generation s), sel_domain s, sel_record_digest s, replicate 40 0,
      crc, replicate 12 0]"

definition selector_wf :: "RibonProtectedSelector \<Rightarrow> bool" where
  "selector_wf s \<longleftrightarrow>
     length (sel_domain s) = 32 \<and> sel_domain s \<noteq> replicate 32 0 \<and>
     length (sel_record_digest s) = 32 \<and> sel_record_digest s \<noteq> replicate 32 0 \<and>
     sel_generation s \<noteq> 0 \<and> sel_slot s < 2"

lemma selector_body_laid:
  assumes "length (sel_domain s) = 32" and "length (sel_record_digest s) = 32"
  shows "laid selector_layout (selector_body s) (selector_fields s (replicate 4 0))"
proof -
  have "laid selector_layout (selector_body s)
      ((map (\<lambda>n. replicate n 0) selector_layout)
        [0 := SELECTOR_MAGIC, 2 := [1], 6 := u32_bytes 160, 7 := u32_bytes (sel_slot s),
         9 := u64_bytes (sel_generation s), 10 := sel_domain s, 11 := sel_record_digest s])"
    unfolding selector_body_def Let_def
    by (intro laid_intros) (use assms in simp_all)
  then show ?thesis by (simp add: selector_fields_def)
qed

lemma selector_encode_laid:
  assumes "length (sel_domain s) = 32" and "length (sel_record_digest s) = 32"
  shows "laid selector_layout (selector_encode s)
    (selector_fields s (u32_bytes (crc32c (selector_encode s) 144)))"
proof -
  note body = selector_body_laid [OF assms]
  have "take 144 (selector_encode s) = take 144 (selector_body s)"
    using laid_length [OF body] by (simp add: selector_encode_def store_u32_def take_blit)
  then have crc: "crc32c (selector_encode s) 144 = crc32c (selector_body s) 144"
    by (rule crc32c_cong)
  have "laid selector_layout (selector_encode s)
      ((selector_fields s (replicate 4 0)) [13 := u32_bytes (crc32c (selector_body s) 144)])"
    unfolding selector_encode_def by (rule laid_store_u32 [OF body]) simp_all
  then show ?thesis unfolding crc by (simp add: selector_fields_def)
qed

lemma selector_decode_laid:
  assumes len: "length bytes = 160" and ok: "selector_decode bytes = (PS_OK, Some s)"
  shows "selector_wf s"
    and "laid selector_layout bytes (selector_fields s (u32_bytes (crc32c bytes 144)))"
proof -
  note d = ok [unfolded selector_decode_def, simplified]
  have s: "s = \<lparr>sel_slot = load_u32 (drop 24 bytes), sel_generation = load_u64 (drop 32 bytes),
      sel_domain = slice 40 32 bytes, sel_record_digest = slice 72 32 bytes\<rparr>"
    using d by (simp split: if_splits)
  show "selector_wf s"
    using d len by (auto simp: s selector_wf_def bytes_zero_drop split: if_splits)
  have fixed: "slice 0 15 bytes = SELECTOR_MAGIC"
      "slice 15 1 bytes = [0]" "slice 16 1 bytes = [1]" "slice 17 1 bytes = [0]"
      "slice 18 1 bytes = [0]" "slice 19 1 bytes = [0]"
      "slice 20 4 bytes = u32_bytes 160" "slice 28 4 bytes = replicate 4 0"
      "slice 104 40 bytes = replicate 40 0"
      "slice 144 4 bytes = u32_bytes (crc32c bytes 144)" "slice 148 12 bytes = replicate 12 0"
    using d len
    by (simp_all add: bytes_equal_slice slice_one [simplified] slice_u32 slice_u64 bytes_zero_drop
        split: if_splits)
  show "laid selector_layout bytes (selector_fields s (u32_bytes (crc32c bytes 144)))"
    using len fixed by (simp add: laid_def selector_fields_def s slice_u32 slice_u64)
qed

lemma selector_laid_decode:
  assumes wf: "selector_wf s"
    and laid: "laid selector_layout bytes (selector_fields s (u32_bytes (crc32c bytes 144)))"
  shows "selector_decode bytes = (PS_OK, Some s)"
proof -
  have len: "length bytes = 160" using laid_length [OF laid] by simp
  note f = laid [unfolded laid_def selector_fields_def, simplified]
  have bytes: "bytes ! 15 = 0" "bytes ! 16 = 1" "bytes ! 17 = 0" "bytes ! 18 = 0" "bytes ! 19 = 0"
    using f len by (simp_all add: slice_one [simplified])
  have loads: "load_u32 (drop 20 bytes) = 160" "load_u32 (drop 24 bytes) = sel_slot s"
      "load_u64 (drop 32 bytes) = sel_generation s" "load_u32 (drop 144 bytes) = crc32c bytes 144"
    using f len by (simp_all add: load_u32_drop load_u64_drop)
  have zeros: "load_u32 (drop 28 bytes) = 0"
    using f len load_bytes_exact(1) [of 0] by (simp add: load_u32_drop)
  show ?thesis
    using wf f len unfolding selector_decode_def bytes loads zeros
    by (auto simp: selector_wf_def bytes_equal_slice bytes_zero_drop)
qed

lemma selector_decode_encode: "selector_wf s \<Longrightarrow> selector_decode (selector_encode s) = (PS_OK, Some s)"
proof (rule selector_laid_decode)
  assume "selector_wf s"
  then show "laid selector_layout (selector_encode s)
      (selector_fields s (u32_bytes (crc32c (selector_encode s) 144)))"
    by (intro selector_encode_laid) (simp_all add: selector_wf_def)
qed

lemma selector_encode_decode:
  assumes len: "length bytes = 160" and ok: "selector_decode bytes = (PS_OK, Some s)"
  shows "selector_encode s = bytes"
proof -
  have wf: "length (sel_domain s) = 32" "length (sel_record_digest s) = 32"
    using selector_decode_laid(1) [OF assms] by (simp_all add: selector_wf_def)
  let ?crc = "u32_bytes (crc32c bytes 144)"
  have "laid selector_layout (blit 144 ?crc (selector_body s))
      ((selector_fields s (replicate 4 0)) [13 := ?crc])"
    by (rule laid_blit [OF selector_body_laid [OF wf]]) simp_all
  then have "laid selector_layout (blit 144 ?crc (selector_body s)) (selector_fields s ?crc)"
    by (simp add: selector_fields_def)
  then have eq: "blit 144 ?crc (selector_body s) = bytes"
    using selector_decode_laid(2) [OF assms] by (rule laid_unique)
  moreover have "take 144 bytes = take 144 (selector_body s)"
    using arg_cong [OF eq, of "take 144"] laid_length [OF selector_body_laid [OF wf]]
    by (simp add: take_blit)
  then have "crc32c bytes 144 = crc32c (selector_body s) 144" by (rule crc32c_cong)
  ultimately show ?thesis by (simp add: selector_encode_def store_u32_def)
qed

lemma selector_decode_cases:
  obtains s where "selector_decode bytes = (PS_OK, Some s)" | "selector_decode bytes = (PS_CORRUPT, None)"
proof -
  have "(\<exists>s. selector_decode bytes = (PS_OK, Some s)) \<or> selector_decode bytes = (PS_CORRUPT, None)"
    unfolding selector_decode_def by (rule decode_result)
  then show ?thesis using that by blast
qed

lemma selector_encode_length: "selector_wf s \<Longrightarrow> length (selector_encode s) = 160"
  using laid_length [OF selector_encode_laid [of s]] by (simp add: selector_wf_def)

lemma selector_encode_nonzero: "selector_wf s \<Longrightarrow> \<not> bytes_zero (selector_encode s) 160"
proof
  assume wf: "selector_wf s" and zero: "bytes_zero (selector_encode s) 160"
  then have "selector_encode s = replicate 160 0"
    using selector_encode_length [OF wf] by (simp add: bytes_zero_replicate)
  moreover have "slice 16 1 (selector_encode s) = [1]"
    using laid_slice [OF selector_encode_laid, of s 16 2] wf
    by (simp add: selector_fields_def selector_wf_def)
  ultimately show False by (simp add: slice_replicate)
qed

end
