(* ===== verification/Protected_Store.thy ===== *)
theory Protected_Store
  imports Protected_Codec
begin

text \<open>
  The journal over an arbitrary storage provider. The locale \<open>protected_store\<close> is the provider's
  contract: a read returns the durable contents of an object, a write touches one object only, and
  a flush makes the written objects durable. Calls may fail at any point; \<open>reliable_store\<close> adds
  that they do not. Everything the journal guarantees is proved from this contract.
\<close>

section \<open>Committed contents\<close>

type_synonym cells = "u32 \<Rightarrow> u8 list"

definition selector_for :: "u8 list \<Rightarrow> u32 \<Rightarrow> RibonProtectedRecord \<Rightarrow> RibonProtectedSelector" where
  "selector_for domain slot r =
     \<lparr>sel_slot = slot, sel_generation = rec_generation r, sel_domain = domain,
      sel_record_digest = record_identity (record_encode r)\<rparr>"

text \<open>
  The journal's contents commit to the record \<open>r\<close> in \<open>slot\<close>: the record and its selector are there,
  and whatever the other slot holds neither outranks the selector nor conflicts with the record.
\<close>

definition committed :: "u8 list \<Rightarrow> cells \<Rightarrow> cells \<Rightarrow> u32 \<Rightarrow> RibonProtectedRecord \<Rightarrow> bool" where
  "committed domain sels recs slot r \<longleftrightarrow>
     slot < 2 \<and> record_wf r \<and> rec_domain r = domain \<and> recs slot = record_encode r \<and>
     sels slot = selector_encode (selector_for domain slot r) \<and>
     record_identity (record_encode r) \<noteq> replicate 32 0 \<and>
     (\<forall>s. selector_status (sels (1 - slot)) = (PS_OK, Some s) \<longrightarrow> sel_generation s < rec_generation r) \<and>
     (\<forall>r'. record_decode (recs (1 - slot)) = (PS_OK, Some r') \<longrightarrow>
        rec_generation r' = rec_generation r \<longrightarrow> recs (1 - slot) = recs slot)"

lemma slot_cases: "slot < 2 \<Longrightarrow> slot = 0 \<or> slot = 1" for slot :: u32
proof -
  assume "slot < 2"
  then have "unat slot < 2" by (simp add: word_less_nat_alt)
  then have "unat slot = unat (0 :: u32) \<or> unat slot = unat (1 :: u32)" by auto
  then show ?thesis by (simp only: word_unat_eq_iff)
qed

lemma other_slot [simp]: "slot < 2 \<Longrightarrow> 1 - slot < 2" for slot :: u32
  using slot_cases [of slot] by auto

lemma other_slot_neq: "slot < 2 \<Longrightarrow> 1 - slot \<noteq> slot" for slot :: u32
  using slot_cases [of slot] by auto

lemma length_record_identity [simp]: "length (record_identity rb) = 32"
  by (simp add: record_identity_def)

lemma selector_for_wf:
  "slot < 2 \<Longrightarrow> record_wf r \<Longrightarrow> rec_domain r = domain \<Longrightarrow>
     record_identity (record_encode r) \<noteq> replicate 32 0 \<Longrightarrow> selector_wf (selector_for domain slot r)"
  by (simp add: selector_for_def selector_wf_def record_wf_def)

lemma selector_status_cases:
  obtains s where "selector_status bytes = (PS_OK, Some s)" "selector_decode bytes = (PS_OK, Some s)"
  | "selector_status bytes = (PS_UNINITIALIZED, None)" "bytes_zero bytes 160"
  | "selector_status bytes = (PS_CORRUPT, None)" "selector_decode bytes = (PS_CORRUPT, None)"
  by (cases rule: selector_decode_cases [of bytes])
    (cases "bytes_zero bytes 160"; auto simp: selector_status_def)+

lemma selector_status_encode:
  "selector_wf s \<Longrightarrow> selector_status (selector_encode s) = (PS_OK, Some s)"
  by (simp add: selector_status_def selector_encode_nonzero selector_decode_encode)

lemma bytes_equal_refl: "bytes_equal xs xs n"
  by (auto simp: bytes_equal_def fold_difference_zero set_zip)

lemma committed_selected:
  assumes "committed domain sels recs slot r"
  shows "open_selected domain (selector_for domain slot r) recs =
    (PS_OK, Some (snapshot_from_record r slot))"
proof -
  have r: "record_decode (recs slot) = (PS_OK, Some r)" "rec_domain r = domain"
      "recs slot = record_encode r"
    using assms record_decode_encode by (auto simp: committed_def)
  have other: "\<not> (fst (record_decode (recs (1 - slot))) = PS_OK \<and>
      rec_generation (the (snd (record_decode (recs (1 - slot))))) = rec_generation r \<and>
      \<not> bytes_equal (recs (1 - slot)) (recs slot) 160)"
    using assms bytes_equal_refl
    by (cases rule: record_decode_cases [of "recs (1 - slot)"]) (auto simp: committed_def)
  then show ?thesis
    using r
    by (cases "record_decode (recs (1 - slot))")
      (auto simp: open_selected_def selector_for_def Let_def bytes_equal_refl)
qed

lemma committed_open:
  assumes com: "committed domain sels recs slot r"
  shows "open_decide domain sels recs = (PS_OK, Some (snapshot_from_record r slot))"
proof -
  let ?s = "selector_for domain slot r"
  have this_sel: "selector_status (sels slot) = (PS_OK, Some ?s)"
    using com selector_for_wf selector_status_encode by (auto simp: committed_def)
  have gen: "sel_generation ?s = rec_generation r" by (simp add: selector_for_def)
  note sel = committed_selected [OF com]
  consider "slot = 0" | "slot = 1" using com slot_cases by (auto simp: committed_def)
  then show ?thesis
  proof cases
    case 1
    then show ?thesis
      using this_sel com sel gen
      by (cases rule: selector_status_cases [of "sels 1"])
        (auto simp: open_decide_def committed_def)
  next
    case 2
    then show ?thesis
      using this_sel com sel gen
      by (cases rule: selector_status_cases [of "sels 0"])
        (auto simp: open_decide_def committed_def)
  qed
qed

text \<open>A journal that opens holds a committed record of its own domain.\<close>

lemma open_selected_ok:
  assumes "open_selected domain sel recs = (PS_OK, Some snap)"
    and "selector_wf sel" and "length domain = 32"
    and "\<And>i. i < 2 \<Longrightarrow> length (recs i) = 160"
  shows "\<exists>r. record_wf r \<and> rec_domain r = domain \<and> recs (sel_slot sel) = record_encode r \<and>
    rec_generation r = sel_generation sel \<and>
    sel_record_digest sel = record_identity (record_encode r) \<and>
    snap = snapshot_from_record r (sel_slot sel)"
proof -
  let ?rb = "recs (sel_slot sel)"
  have len: "length ?rb = 160" using assms(2,4) by (simp add: selector_wf_def)
  obtain r where dec: "record_decode ?rb = (PS_OK, Some r)"
    using assms(1)
    by (cases rule: record_decode_cases [of ?rb]) (auto simp: open_selected_def Let_def split: prod.splits)
  have enc: "record_encode r = ?rb" by (rule record_encode_decode [OF len dec])
  have wf: "record_wf r" by (rule record_decode_laid(1) [OF len dec])
  have "sel_generation sel = rec_generation r \<and> bytes_equal (rec_domain r) domain 32 \<and>
      bytes_equal (sel_record_digest sel) (record_identity ?rb) 32 \<and>
      snap = snapshot_from_record r (sel_slot sel)"
    using assms(1) dec by (auto simp: open_selected_def Let_def split: prod.splits if_splits)
  then show ?thesis
    using wf enc assms(2,3)
    by (intro exI [of _ r]) (auto simp: bytes_equal_iff record_wf_def selector_wf_def)
qed

text \<open>Only the two slots matter.\<close>

lemma open_selected_cong:
  assumes "sel_slot sel < 2" and "recs 0 = recs' 0" and "recs 1 = recs' 1"
  shows "open_selected domain sel recs = open_selected domain sel recs'"
proof -
  have eq: "recs (sel_slot sel) = recs' (sel_slot sel)" "recs (1 - sel_slot sel) = recs' (1 - sel_slot sel)"
    using slot_cases [OF assms(1)] assms(2,3) by auto
  show ?thesis unfolding open_selected_def Let_def eq by (rule refl)
qed

lemma selector_status_slot: "selector_status bytes = (PS_OK, Some s) \<Longrightarrow> sel_slot s < 2"
  by (auto simp: selector_status_def selector_decode_def not_le split: if_splits)

lemma open_decide_cong:
  assumes "sels 0 = sels' 0" and "sels 1 = sels' 1" and "recs 0 = recs' 0" and "recs 1 = recs' 1"
  shows "open_decide domain sels recs = open_decide domain sels' recs'"
proof -
  have "open_selected domain s recs = open_selected domain s recs'"
    if "selector_status b = (PS_OK, Some s)" for s b
    using open_selected_cong [OF selector_status_slot [OF that]] assms by blast
  then show ?thesis
    using assms
    by (cases rule: selector_status_cases [of "sels 0"]; cases rule: selector_status_cases [of "sels 1"])
      (auto simp: open_decide_def)
qed

section \<open>Successors and torn writes\<close>

text \<open>The record a transition commits after \<open>r\<close>.\<close>

definition successor :: "u8 list \<Rightarrow> RibonProtectedRecord \<Rightarrow> RibonProtectedRecord \<Rightarrow> bool" where
  "successor domain r r' \<longleftrightarrow>
     record_wf r' \<and> rec_domain r' = domain \<and> record_identity (record_encode r') \<noteq> replicate 32 0 \<and>
     rec_generation r \<noteq> UINT64_MAX \<and> rec_generation r' = rec_generation r + 1"

lemma successorD:
  assumes "successor domain r r'"
  shows "record_wf r'" and "rec_domain r' = domain" and "record_identity (record_encode r') \<noteq> replicate 32 0"
    and "rec_generation r < rec_generation r'"
  using assms unat_plus_one [of "rec_generation r"] by (simp_all add: successor_def word_less_nat_alt)

text \<open>
  An interrupted write leaves the old object, the new one, or bytes that the decoder refuses.
\<close>

definition record_torn :: "u8 list \<Rightarrow> u8 list \<Rightarrow> u8 list \<Rightarrow> bool" where
  "record_torn old new now \<longleftrightarrow> now = old \<or> now = new \<or> fst (record_decode now) \<noteq> PS_OK"

definition selector_torn :: "u8 list \<Rightarrow> u8 list \<Rightarrow> u8 list \<Rightarrow> bool" where
  "selector_torn old new now \<longleftrightarrow> now = old \<or> now = new \<or> fst (selector_status now) \<noteq> PS_OK"

lemma other_other [simp]: "1 - (1 - slot) = slot" for slot :: u32
  by simp

lemma committed_advance:
  assumes com: "committed domain sels recs slot r" and succ: "successor domain r r'"
    and "recs' (1 - slot) = record_encode r'"
    and "sels' (1 - slot) = selector_encode (selector_for domain (1 - slot) r')"
    and "recs' slot = recs slot" and "sels' slot = sels slot"
  shows "committed domain sels' recs' (1 - slot) r'"
proof -
  have slot: "slot < 2" and rec: "record_decode (recs slot) = (PS_OK, Some r)"
    and sel: "selector_status (sels slot) = (PS_OK, Some (selector_for domain slot r))"
    using com record_decode_encode selector_for_wf selector_status_encode
    by (auto simp: committed_def)
  then show ?thesis
    using assms(3-) successorD [OF succ] by (auto simp: committed_def selector_for_def)
qed

lemma committed_retain:
  assumes com: "committed domain sels recs slot r" and succ: "successor domain r r'"
    and torn: "record_torn (recs (1 - slot)) (record_encode r') (recs' (1 - slot))"
      "selector_torn (sels (1 - slot)) (selector_encode (selector_for domain (1 - slot) r'))
        (sels' (1 - slot))"
    and same: "recs' slot = recs slot" "sels' slot = sels slot"
    and order: "sels' (1 - slot) = sels (1 - slot) \<or> recs' (1 - slot) = record_encode r'"
    and part: "\<not> (sels' (1 - slot) = selector_encode (selector_for domain (1 - slot) r') \<and>
      recs' (1 - slot) = record_encode r')"
  shows "committed domain sels' recs' slot r"
proof -
  have new: "record_decode (record_encode r') = (PS_OK, Some r')"
    using record_decode_encode successorD(1) [OF succ] .
  have "sels' (1 - slot) = sels (1 - slot) \<or> fst (selector_status (sels' (1 - slot))) \<noteq> PS_OK"
    using torn(2) order part by (auto simp: selector_torn_def)
  then have sel: "\<forall>s. selector_status (sels' (1 - slot)) = (PS_OK, Some s) \<longrightarrow>
      sel_generation s < rec_generation r"
    using com by (auto simp: committed_def)
  have rec: "\<forall>x. record_decode (recs' (1 - slot)) = (PS_OK, Some x) \<longrightarrow>
      rec_generation x = rec_generation r \<longrightarrow> recs' (1 - slot) = recs' slot"
    using torn(1) com same(1) new successorD(4) [OF succ] by (auto simp: record_torn_def committed_def)
  show ?thesis using com same sel rec by (simp add: committed_def)
qed

lemma open_decide_Some: "open_decide domain sels recs = (PS_OK, snap) \<Longrightarrow> \<exists>s. snap = Some s"
  by (auto simp: open_decide_def open_selected_def Let_def split: prod.splits if_splits)

section \<open>The steps of a commit\<close>

text \<open>A commit stops at the first of its provider calls that fails.\<close>

lemma commit_cases:
  assumes "commit_record j slot r snapshot w = (st, sn, w')"
    and "provider_write j OBJECT_RECORD slot (record_encode r) w = (s1, w1)"
    and "provider_flush j w1 = (s2, w2)"
    and "provider_read j OBJECT_RECORD slot 160 w2 = (s3, b3, w3)"
    and "provider_write j OBJECT_SELECTOR slot (selector_encode (selector_for (rec_domain r) slot r)) w3 =
      (s4, w4)"
    and "provider_flush j w4 = (s5, w5)"
    and "ribon_protected_state_open (Some j) True w5 = (s6, o6, w6)"
  obtains "st \<noteq> PS_OK" "w' = w1"
    | "st \<noteq> PS_OK" "w' = w2"
    | "st \<noteq> PS_OK" "s1 = PS_OK" "s2 = PS_OK" "w' = w3"
    | "st \<noteq> PS_OK" "s1 = PS_OK" "s2 = PS_OK" "w' = w4"
    | "st \<noteq> PS_OK" "s1 = PS_OK" "s2 = PS_OK" "w' = w5"
    | "s1 = PS_OK" "s2 = PS_OK" "s4 = PS_OK" "s5 = PS_OK" "w' = w6"
      "st = PS_OK \<Longrightarrow> s6 = PS_OK \<and> snap_generation (the o6) = rec_generation r \<and>
         snap_selected_slot (the o6) = slot \<and> sn = (if snapshot then o6 else None)"
proof -
  note run = assms(1) [unfolded commit_record_def Let_def selector_for_def [symmetric]]
  show thesis
  proof (cases "s1 = PS_OK \<and> s2 = PS_OK \<and> s3 = PS_OK \<and> bytes_equal (record_encode r) b3 160 \<and>
      s4 = PS_OK \<and> s5 = PS_OK")
    case True
    then show thesis using run assms(2-) that(6) by (auto split: if_splits)
  next
    case False
    then show thesis using run assms(2-) that(1-5) by (auto split: if_splits)
  qed
qed

section \<open>The provider contract\<close>

text \<open>No write is waiting for a flush.\<close>

definition quiescent ::
  "('w \<Rightarrow> RibonProtectedStateObject \<Rightarrow> u32 \<Rightarrow> u8 list option) \<Rightarrow> 'w \<Rightarrow> bool"
where
  "quiescent staged w \<longleftrightarrow> (\<forall>ob i. staged w ob i = None)"

text \<open>
  \<open>cell\<close> is what a read of an object returns and \<open>staged\<close> the writes not yet flushed; the world
  satisfies the provider's own invariant \<open>inv\<close>. A failing write or flush may leave anything in the
  objects it was to change.
\<close>

locale protected_store =
  fixes j :: "'w RibonProtectedStateJournal"
    and inv :: "'w \<Rightarrow> bool"
    and cell :: "'w \<Rightarrow> RibonProtectedStateObject \<Rightarrow> u32 \<Rightarrow> u8 list"
    and staged :: "'w \<Rightarrow> RibonProtectedStateObject \<Rightarrow> u32 \<Rightarrow> u8 list option"
  assumes journal_ok: "journal_validate (Some j) = PS_OK"
    and domain_length: "length (journal_domain j) = 32"
    and cell_length: "inv w \<Longrightarrow> ob \<noteq> OBJECT_INVALID \<Longrightarrow> i < 2 \<Longrightarrow> length (cell w ob i) = 160"
    and read_law: "inv w \<Longrightarrow> ob \<noteq> OBJECT_INVALID \<Longrightarrow> i < 2 \<Longrightarrow>
      provider_read j ob i 160 w = (st, b, w') \<Longrightarrow>
      inv w' \<and> cell w' = cell w \<and> staged w' = staged w \<and> (st = PS_OK \<longrightarrow> b = cell w ob i)"
    and write_law: "inv w \<Longrightarrow> ob \<noteq> OBJECT_INVALID \<Longrightarrow> i < 2 \<Longrightarrow> length b = 160 \<Longrightarrow>
      provider_write j ob i b w = (st, w') \<Longrightarrow>
      inv w' \<and> (\<forall>ob' i'. (ob', i') \<noteq> (ob, i) \<longrightarrow> cell w' ob' i' = cell w ob' i' \<and>
        staged w' ob' i' = staged w ob' i') \<and> (st = PS_OK \<longrightarrow> staged w' ob i = Some b)"
    and flush_law: "inv w \<Longrightarrow> provider_flush j w = (st, w') \<Longrightarrow>
      inv w' \<and> (\<forall>ob i. staged w ob i = None \<longrightarrow> cell w' ob i = cell w ob i \<and> staged w' ob i = None) \<and>
      (st = PS_OK \<longrightarrow> (\<forall>ob i. staged w' ob i = None \<and>
        (\<forall>b. staged w ob i = Some b \<longrightarrow> cell w' ob i = b)))"
begin

abbreviation domain :: "u8 list" where
  "domain \<equiv> journal_domain j"

lemma domain_nonzero: "domain \<noteq> replicate 32 0"
  using journal_ok domain_length
  by (auto simp: journal_validate_def bytes_zero_replicate split: if_splits)

text \<open>Reads only fail with one of the two storage statuses.\<close>

lemma read_status:
  "provider_read j ob i n w = (st, b, w') \<Longrightarrow> st \<in> {PS_OK, PS_UNAVAILABLE, PS_IO_ERROR}"
  by (auto simp: provider_read_def provider_status_def split: prod.splits if_splits)

lemma open_read_slot_spec:
  assumes "inv w" and "i < 2" and "open_read_slot j i w = (st, (sb, rb), w')"
  shows "inv w' \<and> cell w' = cell w \<and> staged w' = staged w \<and> st \<in> {PS_OK, PS_UNAVAILABLE, PS_IO_ERROR} \<and>
    (st = PS_OK \<longrightarrow> sb = cell w OBJECT_SELECTOR i \<and> rb = cell w OBJECT_RECORD i)"
proof -
  obtain st1 sb1 w1 where r1: "provider_read j OBJECT_SELECTOR i 160 w = (st1, sb1, w1)"
    by (cases "provider_read j OBJECT_SELECTOR i 160 w")
  obtain st2 rb2 w2 where r2: "provider_read j OBJECT_RECORD i 160 w1 = (st2, rb2, w2)"
    by (cases "provider_read j OBJECT_RECORD i 160 w1")
  have l1: "inv w1 \<and> cell w1 = cell w \<and> staged w1 = staged w \<and> (st1 = PS_OK \<longrightarrow> sb1 = cell w OBJECT_SELECTOR i)"
    using read_law [OF assms(1) _ assms(2) r1] by simp
  have l2: "inv w2 \<and> cell w2 = cell w1 \<and> staged w2 = staged w1 \<and> (st2 = PS_OK \<longrightarrow> rb2 = cell w1 OBJECT_RECORD i)"
    using read_law [OF conjunct1 [OF l1] _ assms(2) r2] by simp
  show ?thesis
    using assms(3) r1 r2 l1 l2 read_status [OF r1] read_status [OF r2]
    by (auto simp: open_read_slot_def split: if_splits)
qed

text \<open>Opening changes nothing, and what it returns is decided by the four objects alone.\<close>

lemma open_spec:
  assumes "inv w" and "ribon_protected_state_open (Some j) True w = (st, snap, w')"
  shows "inv w' \<and> cell w' = cell w \<and> staged w' = staged w \<and>
    ((st, snap) = open_decide domain (cell w OBJECT_SELECTOR) (cell w OBJECT_RECORD) \<or>
     st \<in> {PS_UNAVAILABLE, PS_IO_ERROR} \<and> snap = None)"
proof -
  obtain st0 sb0 rb0 w1 where r0: "open_read_slot j 0 w = (st0, (sb0, rb0), w1)"
    by (metis prod.exhaust)
  obtain st1 sb1 rb1 w2 where r1: "open_read_slot j 1 w1 = (st1, (sb1, rb1), w2)"
    by (metis prod.exhaust)
  note l0 = open_read_slot_spec [OF assms(1) _ r0, simplified]
  have l1: "inv w2 \<and> cell w2 = cell w \<and> staged w2 = staged w \<and>
      st1 \<in> {PS_OK, PS_UNAVAILABLE, PS_IO_ERROR} \<and>
      (st1 = PS_OK \<longrightarrow> sb1 = cell w OBJECT_SELECTOR 1 \<and> rb1 = cell w OBJECT_RECORD 1)"
    using open_read_slot_spec [OF conjunct1 [OF l0] _ r1] l0 by simp
  show ?thesis
  proof (cases "st0 = PS_OK \<and> st1 = PS_OK")
    case True
    have "open_decide domain (\<lambda>i. if i = 0 then sb0 else sb1) (\<lambda>i. if i = 0 then rb0 else rb1) =
        open_decide domain (cell w OBJECT_SELECTOR) (cell w OBJECT_RECORD)"
      using True l0 l1 by (intro open_decide_cong) auto
    then show ?thesis
      using assms(2) r0 r1 True l0 l1 journal_ok
      by (auto simp: ribon_protected_state_open_def split: prod.splits)
  next
    case False
    then show ?thesis
      using assms(2) r0 r1 l0 l1 journal_ok
      by (auto simp: ribon_protected_state_open_def split: if_splits)
  qed
qed

lemma write_flush:
  assumes "inv w" and "quiescent staged w" and "ob \<noteq> OBJECT_INVALID" and "i < 2" and "length b = 160"
    and wr: "provider_write j ob i b w = (st1, w1)"
    and fl: "provider_flush j w1 = (st2, w2)"
  shows "inv w1" and "\<And>ob' i'. (ob', i') \<noteq> (ob, i) \<Longrightarrow> cell w1 ob' i' = cell w ob' i'"
    and "inv w2" and "\<And>ob' i'. (ob', i') \<noteq> (ob, i) \<Longrightarrow> cell w2 ob' i' = cell w ob' i'"
    and "st1 = PS_OK \<Longrightarrow> st2 = PS_OK \<Longrightarrow> quiescent staged w2 \<and> cell w2 ob i = b"
proof -
  note W = write_law [OF assms(1,3,4,5) wr]
  note F = flush_law [OF conjunct1 [OF W] fl]
  show "inv w1" "inv w2" using W F by simp_all
  show "cell w1 ob' i' = cell w ob' i'" if "(ob', i') \<noteq> (ob, i)" for ob' i'
    using W that by blast
  show "cell w2 ob' i' = cell w ob' i'" if "(ob', i') \<noteq> (ob, i)" for ob' i'
    using W F that assms(2) unfolding quiescent_def by metis
  show "quiescent staged w2 \<and> cell w2 ob i = b" if "st1 = PS_OK" "st2 = PS_OK"
    using W F that unfolding quiescent_def by blast
qed

text \<open>
  What a commit may do to the objects, whatever fails on the way: only the target slot changes, and
  its selector changes only once its record is in place.
\<close>

lemma commit_effect:
  assumes inv: "inv w" and q: "quiescent staged w" and slot: "slot < 2" and wf: "record_wf r"
    and dom: "rec_domain r = domain" and id: "record_identity (record_encode r) \<noteq> replicate 32 0"
    and commit: "commit_record j slot r snapshot w = (st, sn, w')"
  shows "inv w'"
    and "\<And>ob i. i \<noteq> slot \<Longrightarrow> cell w' ob i = cell w ob i"
    and "cell w' OBJECT_SELECTOR slot = cell w OBJECT_SELECTOR slot \<or>
      cell w' OBJECT_RECORD slot = record_encode r"
    and "st = PS_OK \<Longrightarrow> quiescent staged w' \<and> cell w' OBJECT_RECORD slot = record_encode r \<and>
      cell w' OBJECT_SELECTOR slot = selector_encode (selector_for domain slot r) \<and>
      (\<exists>snap. open_decide domain (cell w' OBJECT_SELECTOR) (cell w' OBJECT_RECORD) = (PS_OK, Some snap) \<and>
        snap_generation snap = rec_generation r \<and> snap_selected_slot snap = slot \<and>
        sn = (if snapshot then Some snap else None))"
proof -
  let ?rb = "record_encode r" and ?sb = "selector_encode (selector_for domain slot r)"
  have len: "length ?rb = 160" "length ?sb = 160"
    using record_encode_length [OF wf] selector_encode_length [OF selector_for_wf [OF slot wf dom id]]
    by simp_all
  obtain s1 w1 where w1: "provider_write j OBJECT_RECORD slot ?rb w = (s1, w1)" by fastforce
  obtain s2 w2 where w2: "provider_flush j w1 = (s2, w2)" by fastforce
  obtain s3 b3 w3 where w3: "provider_read j OBJECT_RECORD slot 160 w2 = (s3, b3, w3)"
    by (metis prod.exhaust)
  obtain s4 w4 where w4: "provider_write j OBJECT_SELECTOR slot ?sb w3 = (s4, w4)" by fastforce
  note w4' = w4 [folded dom]
  obtain s5 w5 where w5: "provider_flush j w4 = (s5, w5)" by fastforce
  obtain s6 o6 w6 where w6: "ribon_protected_state_open (Some j) True w5 = (s6, o6, w6)"
    by (metis prod.exhaust)
  note A = write_flush [OF inv q _ slot len(1) w1 w2, simplified]
  have R: "inv w3" "cell w3 = cell w2" "staged w3 = staged w2"
    using read_law [OF A(3) _ slot w3] by simp_all
  have q3: "quiescent staged w3" if "s1 = PS_OK" "s2 = PS_OK"
    using A(5) [OF that] R by (simp add: quiescent_def)
  note B = write_flush [OF R(1) _ _ slot len(2) w4 w5, simplified]
  have O: "inv w5 \<Longrightarrow> inv w6 \<and> cell w6 = cell w5 \<and> staged w6 = staged w5 \<and>
      ((s6, o6) = open_decide domain (cell w5 OBJECT_SELECTOR) (cell w5 OBJECT_RECORD) \<or>
       s6 \<in> {PS_UNAVAILABLE, PS_IO_ERROR} \<and> o6 = None)"
    using open_spec [OF _ w6] by blast
  note stop = commit_cases [OF commit w1 w2 w3 w4' w5 w6]
  show "inv w'"
    by (cases rule: stop) (use A R B O q3 in auto)
  show "cell w' ob i = cell w ob i" if "i \<noteq> slot" for ob i
    by (cases rule: stop) (use A R B O q3 that in auto)
  show "cell w' OBJECT_SELECTOR slot = cell w OBJECT_SELECTOR slot \<or>
      cell w' OBJECT_RECORD slot = record_encode r"
    by (cases rule: stop) (use A R B O q3 in auto)
  show "quiescent staged w' \<and> cell w' OBJECT_RECORD slot = record_encode r \<and>
      cell w' OBJECT_SELECTOR slot = selector_encode (selector_for domain slot r) \<and>
      (\<exists>snap. open_decide domain (cell w' OBJECT_SELECTOR) (cell w' OBJECT_RECORD) = (PS_OK, Some snap) \<and>
        snap_generation snap = rec_generation r \<and> snap_selected_slot snap = slot \<and>
        sn = (if snapshot then Some snap else None))" if "st = PS_OK"
  proof (cases rule: stop)
    case 6
    note ok = 6(6) [OF that]
    have decide: "open_decide domain (cell w5 OBJECT_SELECTOR) (cell w5 OBJECT_RECORD) = (PS_OK, o6)"
      using O [OF B(3)] q3 6 ok by auto
    obtain snap where snap: "o6 = Some snap" using open_decide_Some [OF decide] by blast
    have w5: "quiescent staged w5" "cell w5 OBJECT_SELECTOR slot = ?sb" "cell w5 OBJECT_RECORD slot = ?rb"
      using B(4,5) q3 6 A(5) R by auto
    have w6: "cell w6 = cell w5" "staged w6 = staged w5" using O [OF B(3)] q3 6 by simp_all
    show ?thesis
      using w5 decide ok snap unfolding 6(5) w6 quiescent_def by simp
  qed (use that in simp_all)
qed

lemma commit_ok:
  assumes inv: "inv w" and q: "quiescent staged w"
    and com: "committed domain (cell w OBJECT_SELECTOR) (cell w OBJECT_RECORD) slot r"
    and succ: "successor domain r r'"
    and commit: "commit_record j (1 - slot) r' snapshot w = (PS_OK, sn, w')"
  shows "inv w' \<and> quiescent staged w' \<and>
    committed domain (cell w' OBJECT_SELECTOR) (cell w' OBJECT_RECORD) (1 - slot) r' \<and>
    sn = (if snapshot then Some (snapshot_from_record r' (1 - slot)) else None)"
proof -
  have slot: "slot < 2" using com by (simp add: committed_def)
  note E = commit_effect [OF inv q other_slot [OF slot] succ [THEN successorD(1)]
      succ [THEN successorD(2)] succ [THEN successorD(3)] commit]
  have new: "committed domain (cell w' OBJECT_SELECTOR) (cell w' OBJECT_RECORD) (1 - slot) r'"
    by (rule committed_advance [OF com succ])
      (use E other_slot_neq [OF slot] in auto)
  then show ?thesis using E(1,4) committed_open [OF new] by auto
qed

lemma commit_atomic:
  assumes inv: "inv w" and q: "quiescent staged w"
    and com: "committed domain (cell w OBJECT_SELECTOR) (cell w OBJECT_RECORD) slot r"
    and succ: "successor domain r r'"
    and commit: "commit_record j (1 - slot) r' snapshot w = (st, sn, w')"
    and torn: "record_torn (cell w OBJECT_RECORD (1 - slot)) (record_encode r')
        (cell w' OBJECT_RECORD (1 - slot))"
      "selector_torn (cell w OBJECT_SELECTOR (1 - slot))
        (selector_encode (selector_for domain (1 - slot) r')) (cell w' OBJECT_SELECTOR (1 - slot))"
  shows "committed domain (cell w' OBJECT_SELECTOR) (cell w' OBJECT_RECORD) slot r \<or>
    committed domain (cell w' OBJECT_SELECTOR) (cell w' OBJECT_RECORD) (1 - slot) r'"
proof -
  have slot: "slot < 2" using com by (simp add: committed_def)
  note E = commit_effect [OF inv q other_slot [OF slot] succ [THEN successorD(1)]
      succ [THEN successorD(2)] succ [THEN successorD(3)] commit]
  show ?thesis
  proof (cases "cell w' OBJECT_SELECTOR (1 - slot) = selector_encode (selector_for domain (1 - slot) r') \<and>
      cell w' OBJECT_RECORD (1 - slot) = record_encode r'")
    case True
    have "committed domain (cell w' OBJECT_SELECTOR) (cell w' OBJECT_RECORD) (1 - slot) r'"
      by (rule committed_advance [OF com succ]) (use True E(2) other_slot_neq [OF slot] in auto)
    then show ?thesis ..
  next
    case False
    have "committed domain (cell w' OBJECT_SELECTOR) (cell w' OBJECT_RECORD) slot r"
      by (rule committed_retain [OF com succ]) (use torn False E(2,3) other_slot_neq [OF slot] in auto)
    then show ?thesis ..
  qed
qed

end

section \<open>Providers that do not fail\<close>

locale reliable_store = protected_store +
  assumes read_total: "inv w \<Longrightarrow> ob \<noteq> OBJECT_INVALID \<Longrightarrow> i < 2 \<Longrightarrow>
      fst (provider_read j ob i 160 w) = PS_OK"
    and write_total: "inv w \<Longrightarrow> ob \<noteq> OBJECT_INVALID \<Longrightarrow> i < 2 \<Longrightarrow> length b = 160 \<Longrightarrow>
      fst (provider_write j ob i b w) = PS_OK"
    and flush_total: "inv w \<Longrightarrow> fst (provider_flush j w) = PS_OK"
begin

lemma open_read_slot_total: "inv w \<Longrightarrow> i < 2 \<Longrightarrow> fst (open_read_slot j i w) = PS_OK"
proof -
  assume A: "inv w" "i < 2"
  obtain st sb w1 where r: "provider_read j OBJECT_SELECTOR i 160 w = (st, sb, w1)"
    by (metis prod.exhaust)
  have "st = PS_OK" "inv w1"
    using read_total [OF A(1) _ A(2), of OBJECT_SELECTOR] read_law [OF A(1) _ A(2) r] r by simp_all
  then show ?thesis
    using r read_total [OF _ _ A(2), of w1 OBJECT_RECORD]
    by (auto simp: open_read_slot_def split: prod.splits)
qed

text \<open>Opening then reports exactly what the objects say.\<close>

lemma open_total:
  assumes "inv w"
  obtains w' where "ribon_protected_state_open (Some j) True w =
      (case open_decide domain (cell w OBJECT_SELECTOR) (cell w OBJECT_RECORD) of (st, snap) \<Rightarrow> (st, snap, w'))"
    and "inv w'" and "cell w' = cell w" and "staged w' = staged w"
proof -
  obtain st0 sb0 rb0 w1 where r0: "open_read_slot j 0 w = (st0, (sb0, rb0), w1)"
    by (metis prod.exhaust)
  obtain st1 sb1 rb1 w2 where r1: "open_read_slot j 1 w1 = (st1, (sb1, rb1), w2)"
    by (metis prod.exhaust)
  have l0: "st0 = PS_OK \<and> inv w1 \<and> cell w1 = cell w \<and> staged w1 = staged w \<and>
      sb0 = cell w OBJECT_SELECTOR 0 \<and> rb0 = cell w OBJECT_RECORD 0"
    using open_read_slot_spec [OF assms _ r0] open_read_slot_total [OF assms, of 0] r0 by simp
  then have l1: "st1 = PS_OK \<and> inv w2 \<and> cell w2 = cell w \<and> staged w2 = staged w \<and>
      sb1 = cell w OBJECT_SELECTOR 1 \<and> rb1 = cell w OBJECT_RECORD 1"
    using open_read_slot_spec [OF _ _ r1] open_read_slot_total [of w1 1] r1 by simp
  have "open_decide domain (\<lambda>i. if i = 0 then cell w OBJECT_SELECTOR 0 else cell w OBJECT_SELECTOR 1)
        (\<lambda>i. if i = 0 then cell w OBJECT_RECORD 0 else cell w OBJECT_RECORD 1) =
      open_decide domain (cell w OBJECT_SELECTOR) (cell w OBJECT_RECORD)"
    by (intro open_decide_cong) simp_all
  then have "ribon_protected_state_open (Some j) True w =
      (case open_decide domain (cell w OBJECT_SELECTOR) (cell w OBJECT_RECORD) of (st, snap) \<Rightarrow> (st, snap, w2))"
    using r0 r1 l0 l1 journal_ok by (simp add: ribon_protected_state_open_def)
  then show ?thesis using that l1 by blast
qed

lemma write_flush_total:
  assumes "inv w" and "quiescent staged w" and "ob \<noteq> OBJECT_INVALID" and "i < 2" and "length b = 160"
  obtains w1 w2 where "provider_write j ob i b w = (PS_OK, w1)" and "provider_flush j w1 = (PS_OK, w2)"
    and "inv w2" and "quiescent staged w2" and "cell w2 ob i = b"
    and "\<And>ob' i'. (ob', i') \<noteq> (ob, i) \<Longrightarrow> cell w2 ob' i' = cell w ob' i'"
proof -
  obtain w1 where w1: "provider_write j ob i b w = (PS_OK, w1)"
    using write_total [OF assms(1,3,4,5)] by (cases "provider_write j ob i b w") simp
  have "inv w1" using write_law [OF assms(1,3,4,5) w1] by simp
  then obtain w2 where w2: "provider_flush j w1 = (PS_OK, w2)"
    using flush_total by (cases "provider_flush j w1") fastforce
  note E = write_flush [OF assms w1 w2]
  show ?thesis
    by (rule that [OF w1 w2 E(3) _ _ E(4)]) (use E(5) in simp_all)
qed

text \<open>Every commit of a successor then succeeds.\<close>

lemma commit_total:
  assumes inv: "inv w" and q: "quiescent staged w" and slot: "slot < 2" and wf: "record_wf r"
    and dom: "rec_domain r = domain" and id: "record_identity (record_encode r) \<noteq> replicate 32 0"
    and com: "\<And>sels recs. sels slot = selector_encode (selector_for domain slot r) \<Longrightarrow>
        recs slot = record_encode r \<Longrightarrow>
        sels (1 - slot) = cell w OBJECT_SELECTOR (1 - slot) \<Longrightarrow>
        recs (1 - slot) = cell w OBJECT_RECORD (1 - slot) \<Longrightarrow> committed domain sels recs slot r"
  shows "fst (commit_record j slot r snapshot w) = PS_OK"
proof -
  let ?rb = "record_encode r" and ?sb = "selector_encode (selector_for domain slot r)"
  have len: "length ?rb = 160" "length ?sb = 160"
    using record_encode_length [OF wf] selector_encode_length [OF selector_for_wf [OF slot wf dom id]]
    by simp_all
  obtain w1 w2 where a: "provider_write j OBJECT_RECORD slot ?rb w = (PS_OK, w1)"
      "provider_flush j w1 = (PS_OK, w2)" "inv w2" "quiescent staged w2"
      "cell w2 OBJECT_RECORD slot = ?rb"
      "\<And>ob' i'. (ob', i') \<noteq> (OBJECT_RECORD, slot) \<Longrightarrow> cell w2 ob' i' = cell w ob' i'"
    by (rule write_flush_total [OF inv q _ slot len(1), of OBJECT_RECORD]) simp_all
  obtain b w3 where r: "provider_read j OBJECT_RECORD slot 160 w2 = (PS_OK, b, w3)"
    using read_total [OF a(3) _ slot, of OBJECT_RECORD]
    by (cases "provider_read j OBJECT_RECORD slot 160 w2") simp
  have b: "inv w3" "cell w3 = cell w2" "quiescent staged w3" "b = ?rb"
    using read_law [OF a(3) _ slot r] a(4,5) by (simp_all add: quiescent_def)
  obtain w4 w5 where c: "provider_write j OBJECT_SELECTOR slot ?sb w3 = (PS_OK, w4)"
      "provider_flush j w4 = (PS_OK, w5)" "inv w5" "cell w5 OBJECT_SELECTOR slot = ?sb"
      "\<And>ob' i'. (ob', i') \<noteq> (OBJECT_SELECTOR, slot) \<Longrightarrow> cell w5 ob' i' = cell w3 ob' i'"
    by (rule write_flush_total [OF b(1,3) _ slot len(2), of OBJECT_SELECTOR]) simp_all
  have "committed domain (cell w5 OBJECT_SELECTOR) (cell w5 OBJECT_RECORD) slot r"
    by (rule com) (use a b c other_slot_neq [OF slot] in simp_all)
  note open_ok = committed_open [OF this]
  obtain w6 where "ribon_protected_state_open (Some j) True w5 = (PS_OK, Some (snapshot_from_record r slot), w6)"
    by (rule open_total [OF c(3)]) (simp add: open_ok)
  then show ?thesis
    using a r b c dom
    by (simp add: commit_record_def Let_def selector_for_def bytes_equal_refl snapshot_from_record_def)
qed

end

end
