(* ===== verification/Protected_Ledger.thy ===== *)
theory Protected_Ledger
  imports Protected_Store
begin

text \<open>
  The anti-rollback ledger that the protected-state journal implements. A ledger over natural
  numbers holds the confirmed floor and, during a trial of the release \<open>floor + 1\<close>, the boots that
  are left to it. Every operation of the journal is shown to perform exactly one ledger step: on a
  provider that does not fail by \<open>run_command_refines\<close>, and on one that may fail either that step
  or nothing.
\<close>

section \<open>The ledger\<close>

datatype ledger_mode = Confirmed | Trial nat

record ledger =
  floor_of :: nat
  mode_of :: ledger_mode
  bound_to :: "u8 list"
  attempt_of :: nat
  generation_of :: nat

datatype ps_command =
    Begin_Trial u64 u32
  | Begin_Bound_Trial u64 u32 "u8 list" u64
  | Rebind_Trial u64 "u8 list" u64
  | Consume_Attempt u64
  | Confirm u64
  | Confirm_Bound u64 "u8 list" u64
  | Fail_Trial

definition ledger_of :: "RibonProtectedRecord \<Rightarrow> ledger" where
  "ledger_of r =
     \<lparr>floor_of = unat (rec_confirmed_floor r),
      mode_of = (if rec_kind r = KIND_TRIAL then Trial (unat (rec_attempts r)) else Confirmed),
      bound_to = rec_binding r, attempt_of = unat (rec_attempt_sequence r),
      generation_of = unat (rec_generation r)\<rparr>"

text \<open>A step is refused with a status or leads to a ledger; the generation counts the steps.\<close>

definition ledger_commit :: "ledger \<Rightarrow> RibonProtectedStateStatus + ledger" where
  "ledger_commit l =
     (if generation_of l = 2 ^ 64 - 1 then Inl PS_OVERFLOW
      else Inr (l\<lparr>generation_of := generation_of l + 1\<rparr>))"

definition ledger_begin :: "nat \<Rightarrow> nat \<Rightarrow> u8 list \<Rightarrow> nat \<Rightarrow> bool \<Rightarrow> ledger \<Rightarrow> RibonProtectedStateStatus + ledger" where
  "ledger_begin candidate n binding attempt bad_binding l =
     (if mode_of l \<noteq> Confirmed then Inl PS_ROLLBACK
      else if floor_of l = 2 ^ 64 - 1 then Inl PS_OVERFLOW
      else if candidate \<le> floor_of l then Inl PS_ROLLBACK
      else if floor_of l + 1 < candidate then Inl PS_SEQUENCE_GAP
      else if n = 0 \<or> 32 < n \<or> bad_binding then Inl PS_INVALID_ARGUMENT
      else ledger_commit (l\<lparr>mode_of := Trial n, bound_to := binding, attempt_of := attempt\<rparr>))"

fun ledger_step :: "ps_command \<Rightarrow> ledger \<Rightarrow> RibonProtectedStateStatus + ledger" where
  "ledger_step (Begin_Trial candidate n) l =
     ledger_begin (unat candidate) (unat n) (replicate 32 0) 0 False l"
| "ledger_step (Begin_Bound_Trial candidate n b s) l =
     ledger_begin (unat candidate) (unat n) b (unat s) (b = replicate 32 0 \<or> s = 0) l"
| "ledger_step (Rebind_Trial p b s) l =
     (if b = replicate 32 0 \<or> s = 0 then Inl PS_INVALID_ARGUMENT else
      case mode_of l of
        Confirmed \<Rightarrow> Inl PS_ROLLBACK
      | Trial n \<Rightarrow>
          if unat p \<noteq> floor_of l + 1 then Inl PS_ROLLBACK
          else if n = 0 then Inl PS_ATTEMPTS_EXHAUSTED
          else if unat s \<le> attempt_of l then Inl PS_BINDING_MISMATCH
          else ledger_commit (l\<lparr>bound_to := b, attempt_of := unat s\<rparr>))"
| "ledger_step (Consume_Attempt p) l =
     (case mode_of l of
        Confirmed \<Rightarrow> Inl PS_ROLLBACK
      | Trial n \<Rightarrow>
          if unat p \<noteq> floor_of l + 1 then Inl PS_ROLLBACK
          else if n = 0 then Inl PS_ATTEMPTS_EXHAUSTED
          else ledger_commit (l\<lparr>mode_of := Trial (n - 1)\<rparr>))"
| "ledger_step (Confirm p) l =
     (if mode_of l = Confirmed \<or> unat p \<noteq> floor_of l + 1 \<or> attempt_of l \<noteq> 0 then Inl PS_ROLLBACK
      else ledger_commit (l\<lparr>floor_of := floor_of l + 1, mode_of := Confirmed\<rparr>))"
| "ledger_step (Confirm_Bound p b s) l =
     (if b = replicate 32 0 \<or> s = 0 then Inl PS_INVALID_ARGUMENT
      else if bound_to l \<noteq> b \<or> attempt_of l \<noteq> unat s then Inl PS_BINDING_MISMATCH
      else if mode_of l = Confirmed
      then (if unat p = floor_of l then Inr l else Inl PS_BINDING_MISMATCH)
      else if unat p \<noteq> floor_of l + 1 then Inl PS_BINDING_MISMATCH
      else ledger_commit (l\<lparr>floor_of := floor_of l + 1, mode_of := Confirmed\<rparr>))"
| "ledger_step Fail_Trial l =
     (if mode_of l = Confirmed then Inl PS_ROLLBACK else ledger_commit (l\<lparr>mode_of := Confirmed\<rparr>))"

text \<open>What the ledger authorises: the confirmed release, and the next one while its trial has boots left.\<close>

definition ledger_authorize :: "nat \<Rightarrow> ledger \<Rightarrow> RibonProtectedStateStatus + RibonProtectedStateAuthority" where
  "ledger_authorize sequence l =
     (if sequence = floor_of l then Inr AUTHORITY_CONFIRMED
      else if sequence < floor_of l then Inl PS_ROLLBACK
      else if sequence = floor_of l + 1 \<and> mode_of l \<noteq> Confirmed
      then (if mode_of l = Trial 0 then Inl PS_ATTEMPTS_EXHAUSTED else Inr AUTHORITY_TRIAL)
      else Inl PS_SEQUENCE_GAP)"

section \<open>The operations, one by one\<close>

text \<open>The call of the interface behind each command.\<close>

fun run_command ::
  "'w RibonProtectedStateJournal \<Rightarrow> ps_command \<Rightarrow> 'w \<Rightarrow>
   RibonProtectedStateStatus \<times> RibonProtectedStateSnapshot option \<times> 'w"
where
  "run_command j (Begin_Trial c n) w = ribon_protected_state_begin_trial (Some j) c n True w"
| "run_command j (Begin_Bound_Trial c n b s) w =
     ribon_protected_state_begin_bound_trial (Some j) c n (Some b) s True w"
| "run_command j (Rebind_Trial p b s) w =
     ribon_protected_state_rebind_trial_attempt (Some j) p (Some b) s True w"
| "run_command j (Consume_Attempt p) w = ribon_protected_state_consume_trial_attempt (Some j) p True w"
| "run_command j (Confirm p) w = ribon_protected_state_confirm (Some j) p True w"
| "run_command j (Confirm_Bound p b s) w = ribon_protected_state_confirm_bound (Some j) p (Some b) s True w"
| "run_command j Fail_Trial w = ribon_protected_state_fail_trial (Some j) True w"

text \<open>A binding is a digest: 32 bytes.\<close>

fun command_ok :: "ps_command \<Rightarrow> bool" where
  "command_ok (Begin_Bound_Trial c n b s) = (length b = 32)"
| "command_ok (Rebind_Trial p b s) = (length b = 32)"
| "command_ok (Confirm_Bound p b s) = (length b = 32)"
| "command_ok _ = True"

text \<open>
  The record that follows \<open>r\<close> when the ledger steps to \<open>l\<close>. Records are determined by their ledger
  and domain.
\<close>

definition record_of :: "u8 list \<Rightarrow> ledger \<Rightarrow> RibonProtectedRecord" where
  "record_of domain l =
     \<lparr>rec_kind = (if mode_of l = Confirmed then KIND_CONFIRMED else KIND_TRIAL),
      rec_confirmed_floor = word_of_nat (floor_of l),
      rec_pending_sequence = (if mode_of l = Confirmed then 0 else word_of_nat (floor_of l + 1)),
      rec_attempts = (case mode_of l of Confirmed \<Rightarrow> 0 | Trial n \<Rightarrow> word_of_nat n),
      rec_generation = word_of_nat (generation_of l), rec_domain = domain,
      rec_binding = bound_to l, rec_attempt_sequence = word_of_nat (attempt_of l)\<rparr>"

definition ledger_wf :: "ledger \<Rightarrow> bool" where
  "ledger_wf l \<longleftrightarrow>
     floor_of l < 2 ^ 64 \<and> attempt_of l < 2 ^ 64 \<and> 0 < generation_of l \<and> generation_of l < 2 ^ 64 \<and>
     length (bound_to l) = 32 \<and> (bound_to l = replicate 32 0 \<longleftrightarrow> attempt_of l = 0) \<and>
     (case mode_of l of Confirmed \<Rightarrow> True | Trial n \<Rightarrow> floor_of l + 1 < 2 ^ 64 \<and> n \<le> 32)"

section \<open>Ledgers and records\<close>

lemma unat_max: "unat x = 2 ^ 64 - 1 \<longleftrightarrow> x = UINT64_MAX" for x :: u64
  by (simp add: word_unat_eq_iff unat_minus_one_eq)

lemma unat_next_eq: "y \<noteq> UINT64_MAX \<Longrightarrow> x = y + 1 \<longleftrightarrow> unat x = unat y + 1" for x y :: u64
  by (simp add: word_unat_eq_iff unat_plus_one)

lemma word_of_nat_next: "word_of_nat (unat x + 1) = x + 1" for x :: u64
  by simp

lemma ledger_of_wf:
  assumes "record_wf r"
  shows "ledger_wf (ledger_of r)"
proof -
  have "unat (rec_confirmed_floor r) + 1 < 2 ^ 64" if "rec_confirmed_floor r \<noteq> UINT64_MAX"
    using unat_plus_one [OF that] unat_bound [of "rec_confirmed_floor r + 1"] by simp
  moreover have "unat (rec_attempts r) \<le> 32" if "rec_attempts r \<le> 32"
    using that by (simp add: word_le_nat_alt)
  moreover have "0 < unat (rec_generation r)"
    using assms by (simp add: record_wf_def unat_gt_0)
  moreover have "unat (rec_attempt_sequence r) = 0 \<longleftrightarrow> rec_attempt_sequence r = 0"
    by (simp add: unat_eq_zero)
  ultimately show ?thesis
    using assms unat_bound [of "rec_confirmed_floor r"] unat_bound [of "rec_attempt_sequence r"]
      unat_bound [of "rec_generation r"]
    by (auto simp: ledger_wf_def ledger_of_def record_wf_def)
qed

lemma record_of_ledger_of:
  assumes "record_wf r"
  shows "record_of (rec_domain r) (ledger_of r) = r"
  using assms by (cases r) (auto simp: record_of_def ledger_of_def record_wf_def)

lemma ledger_of_record_of: "ledger_wf l \<Longrightarrow> ledger_of (record_of domain l) = l"
  by (cases l) (auto simp: record_of_def ledger_of_def ledger_wf_def unsigned_of_nat
      take_bit_nat_eq_self split: ledger_mode.splits)

lemma record_of_wf:
  assumes "ledger_wf l" and "length domain = 32" and "domain \<noteq> replicate 32 0"
  shows "record_wf (record_of domain l)"
proof -
  have nat64: "word_of_nat n = (0 :: u64) \<longleftrightarrow> n = 0" if "n < 2 ^ 64" for n
    using that by (simp add: word_unat_eq_iff unsigned_of_nat take_bit_nat_eq_self)
  have "word_of_nat (floor_of l) \<noteq> UINT64_MAX" if "floor_of l + 1 < 2 ^ 64"
    using that by (simp add: word_unat_eq_iff unsigned_of_nat take_bit_nat_eq_self unat_minus_one_eq)
  moreover have "word_of_nat n \<le> (32 :: u32)" if "n \<le> 32" for n
    using that by (simp add: word_le_nat_alt unsigned_of_nat take_bit_nat_eq_self)
  ultimately show ?thesis
    using assms nat64 by (auto simp: record_wf_def record_of_def ledger_wf_def split: ledger_mode.splits)
qed

section \<open>The ledger keeps its invariant\<close>

lemma ledger_commit_Inr:
  "ledger_commit l = Inr l' \<longleftrightarrow> generation_of l \<noteq> 2 ^ 64 - 1 \<and> l' = l\<lparr>generation_of := generation_of l + 1\<rparr>"
  by (auto simp: ledger_commit_def)

lemma ledger_commit_wf:
  "ledger_commit l = Inr l' \<Longrightarrow> ledger_wf l \<Longrightarrow> ledger_wf l'"
  by (auto simp: ledger_commit_Inr ledger_wf_def split: ledger_mode.splits)

lemma ledger_begin_wf:
  assumes "ledger_begin c n b s bad l = Inr l'" and "ledger_wf l" and "length b = 32" and "s < 2 ^ 64"
    and "bad \<or> (b = replicate 32 0 \<longleftrightarrow> s = 0)"
  shows "ledger_wf l'"
proof -
  have c: "ledger_commit (l\<lparr>mode_of := Trial n, bound_to := b, attempt_of := s\<rparr>) = Inr l'"
    and n: "n \<le> 32" "\<not> bad" "floor_of l \<noteq> 2 ^ 64 - 1"
    using assms(1) by (auto simp: ledger_begin_def split: if_splits)
  show ?thesis
    by (rule ledger_commit_wf [OF c]) (use n assms(2-) in \<open>auto simp: ledger_wf_def\<close>)
qed

text \<open>The ledger that a step commits, before its generation is counted.\<close>

lemma ledger_step_cases:
  assumes "ledger_step c l = Inr l'"
  obtains (begin_unbound) p n where "c = Begin_Trial p n"
      "ledger_begin (unat p) (unat n) (replicate 32 0) 0 False l = Inr l'"
  | (begin_bound) p n b s where "c = Begin_Bound_Trial p n b s"
      "ledger_begin (unat p) (unat n) b (unat s) (b = replicate 32 0 \<or> s = 0) l = Inr l'"
  | (rebind) p b s n where "c = Rebind_Trial p b s" "mode_of l = Trial n" "n \<noteq> 0"
      "b \<noteq> replicate 32 0" "s \<noteq> 0" "attempt_of l < unat s"
      "ledger_commit (l\<lparr>bound_to := b, attempt_of := unat s\<rparr>) = Inr l'"
  | (consume) p n where "c = Consume_Attempt p" "mode_of l = Trial n" "n \<noteq> 0"
      "ledger_commit (l\<lparr>mode_of := Trial (n - 1)\<rparr>) = Inr l'"
  | (confirm) n p b s where "mode_of l = Trial n"
      "c = Confirm p \<and> attempt_of l = 0 \<or> c = Confirm_Bound p b s \<and> bound_to l = b \<and> attempt_of l = unat s"
      "unat p = floor_of l + 1" "ledger_commit (l\<lparr>floor_of := floor_of l + 1, mode_of := Confirmed\<rparr>) = Inr l'"
  | (again) p b s where "c = Confirm_Bound p b s" "mode_of l = Confirmed" "l' = l"
  | (fail) n where "c = Fail_Trial" "mode_of l = Trial n"
      "ledger_commit (l\<lparr>mode_of := Confirmed\<rparr>) = Inr l'"
proof (cases c)
  case (Begin_Trial p n)
  then show ?thesis using assms begin_unbound by simp
next
  case (Begin_Bound_Trial p n b s)
  then show ?thesis using assms begin_bound by simp
next
  case (Rebind_Trial p b s)
  then show ?thesis using assms rebind by (auto split: if_splits ledger_mode.splits)
next
  case (Consume_Attempt p)
  then show ?thesis using assms consume by (auto split: if_splits ledger_mode.splits)
next
  case (Confirm p)
  then show ?thesis using assms confirm [of _ p] by (cases "mode_of l") (auto split: if_splits)
next
  case (Confirm_Bound p b s)
  show ?thesis
  proof (cases "mode_of l")
    case Confirmed
    then show ?thesis using Confirm_Bound assms again by (auto split: if_splits)
  next
    case (Trial n)
    then show ?thesis using Confirm_Bound assms confirm [of n p b s] by (auto split: if_splits)
  qed
next
  case Fail_Trial
  then show ?thesis using assms fail by (cases "mode_of l") (auto split: if_splits)
qed

lemma ledger_step_wf:
  assumes "ledger_step c l = Inr l'" and wf: "ledger_wf l" and ok: "command_ok c"
  shows "ledger_wf l'"
  using assms(1)
proof (cases rule: ledger_step_cases)
  case (begin_unbound p n)
  show ?thesis by (rule ledger_begin_wf [OF begin_unbound(2) wf]) simp_all
next
  case (begin_bound p n b s)
  show ?thesis
    by (rule ledger_begin_wf [OF begin_bound(2) wf])
      (use begin_bound ok unat_bound [of s] in \<open>auto simp: unat_eq_zero\<close>)
next
  case (rebind p b s n)
  show ?thesis
    by (rule ledger_commit_wf [OF rebind(7)])
      (use rebind wf ok unat_bound [of s] in \<open>auto simp: ledger_wf_def unat_eq_zero\<close>)
next
  case (consume p n)
  show ?thesis by (rule ledger_commit_wf [OF consume(4)]) (use consume wf in \<open>auto simp: ledger_wf_def\<close>)
next
  case (confirm n p b s)
  show ?thesis by (rule ledger_commit_wf [OF confirm(4)]) (use confirm wf in \<open>auto simp: ledger_wf_def\<close>)
next
  case (fail n)
  show ?thesis by (rule ledger_commit_wf [OF fail(3)]) (use fail wf in \<open>auto simp: ledger_wf_def\<close>)
qed (use wf in simp)

text \<open>The floor only rises, by one, and only when a trial is confirmed.\<close>

lemma ledger_step_floor:
  assumes "ledger_step c l = Inr l'"
  shows "floor_of l' = floor_of l \<or>
    floor_of l' = floor_of l + 1 \<and> mode_of l \<noteq> Confirmed \<and> mode_of l' = Confirmed"
  using assms
  by (cases rule: ledger_step_cases)
    (auto simp: ledger_commit_Inr ledger_begin_def split: if_splits)

text \<open>The boots left to a trial only go down until the next trial begins.\<close>

fun attempts_left :: "ledger_mode \<Rightarrow> nat" where
  "attempts_left Confirmed = 0"
| "attempts_left (Trial n) = n"

fun begins_trial :: "ps_command \<Rightarrow> bool" where
  "begins_trial (Begin_Trial c n) = True"
| "begins_trial (Begin_Bound_Trial c n b s) = True"
| "begins_trial _ = False"

fun consumes :: "ps_command \<Rightarrow> bool" where
  "consumes (Consume_Attempt p) = True"
| "consumes _ = False"

lemma ledger_step_attempts:
  assumes "ledger_step c l = Inr l'" and "\<not> begins_trial c"
  shows "attempts_left (mode_of l') + (if consumes c then 1 else 0) \<le> attempts_left (mode_of l)"
  using assms(1)
  by (cases rule: ledger_step_cases) (use assms(2) in \<open>auto simp: ledger_commit_Inr\<close>)

text \<open>A sequence of commands: the statuses, the ledgers in between and the last one.\<close>

fun ledger_after :: "ps_command \<Rightarrow> ledger \<Rightarrow> ledger" where
  "ledger_after c l = (case ledger_step c l of Inl e \<Rightarrow> l | Inr l' \<Rightarrow> l')"

fun ledger_status :: "ps_command \<Rightarrow> ledger \<Rightarrow> RibonProtectedStateStatus" where
  "ledger_status c l = (case ledger_step c l of Inl e \<Rightarrow> e | Inr l' \<Rightarrow> PS_OK)"

fun ledger_trace :: "ps_command list \<Rightarrow> ledger \<Rightarrow> ledger list" where
  "ledger_trace [] l = []"
| "ledger_trace (c # cs) l = ledger_after c l # ledger_trace cs (ledger_after c l)"

fun ledger_statuses :: "ps_command list \<Rightarrow> ledger \<Rightarrow> RibonProtectedStateStatus list" where
  "ledger_statuses [] l = []"
| "ledger_statuses (c # cs) l = ledger_status c l # ledger_statuses cs (ledger_after c l)"

definition boots_consumed :: "ps_command list \<Rightarrow> RibonProtectedStateStatus list \<Rightarrow> nat" where
  "boots_consumed cs sts = length (filter (\<lambda>(c, st). consumes c \<and> st = PS_OK) (zip cs sts))"

lemma ledger_step_not_ok: "ledger_step c l \<noteq> Inl PS_OK"
  by (cases c) (auto simp: ledger_begin_def ledger_commit_def split: if_splits ledger_mode.splits)

lemma ledger_trial_budget:
  assumes "list_all (\<lambda>c. \<not> begins_trial c) cs"
  shows "boots_consumed cs (ledger_statuses cs l) \<le> attempts_left (mode_of l)"
  using assms
proof (induction cs arbitrary: l)
  case (Cons c cs)
  have rest: "boots_consumed cs (ledger_statuses cs (ledger_after c l)) \<le>
      attempts_left (mode_of (ledger_after c l))"
    using Cons by simp
  have head: "boots_consumed (c # cs) (st # sts) =
      (if consumes c \<and> st = PS_OK then 1 else 0) + boots_consumed cs sts" for st sts
    by (simp add: boots_consumed_def)
  show ?case
  proof (cases "ledger_step c l")
    case (Inl e)
    then show ?thesis using rest ledger_step_not_ok [of c l] by (simp add: head)
  next
    case (Inr l')
    then show ?thesis using rest ledger_step_attempts [OF Inr] Cons.prems by (simp add: head)
  qed
qed (simp add: boots_consumed_def)

section \<open>Each operation performs its ledger step\<close>

text \<open>
  What a call does once the journal is open on \<open>r\<close>: it refuses with the ledger's status, keeps what
  is there, or commits the record of the ledger's next state to the other slot.
\<close>

definition performs ::
  "'w RibonProtectedStateJournal \<Rightarrow> u32 \<Rightarrow> RibonProtectedRecord \<Rightarrow> 'w set \<Rightarrow>
   RibonProtectedStateStatus + ledger \<Rightarrow>
   RibonProtectedStateStatus \<times> RibonProtectedStateSnapshot option \<times> 'w \<Rightarrow> bool"
where
  "performs j slot r ws next result =
     (case next of
        Inl st \<Rightarrow> \<exists>w\<in>ws. result = (st, None, w)
      | Inr l \<Rightarrow> \<exists>w\<in>ws. result =
          (if l = ledger_of r then (PS_OK, Some (snapshot_from_record r slot), w)
           else commit_record j (1 - slot) (record_of (rec_domain r) l) True w))"

lemma performs_cases:
  assumes "performs j slot r ws nxt (st, sn, w')"
  obtains (refused) "nxt = Inl st" "sn = None" "w' \<in> ws"
  | (kept) "nxt = Inr (ledger_of r)" "st = PS_OK" "sn = Some (snapshot_from_record r slot)" "w' \<in> ws"
  | (commits) l w0 where "nxt = Inr l" "l \<noteq> ledger_of r" "w0 \<in> ws"
      "commit_record j (1 - slot) (record_of (rec_domain r) l) True w0 = (st, sn, w')"
proof (cases nxt)
  case (Inl e)
  then show ?thesis using assms refused by (auto simp: performs_def)
next
  case (Inr l)
  then obtain w0 where "w0 \<in> ws" "(st, sn, w') =
      (if l = ledger_of r then (PS_OK, Some (snapshot_from_record r slot), w0)
       else commit_record j (1 - slot) (record_of (rec_domain r) l) True w0)"
    using assms by (auto simp: performs_def)
  then show ?thesis using Inr kept commits [of l w0] by (cases "l = ledger_of r") auto
qed

lemma performs_refuse: "w \<in> ws \<Longrightarrow> performs j slot r ws (Inl st) (st, None, w)"
  by (auto simp: performs_def)

lemma performs_keep:
  "w \<in> ws \<Longrightarrow> performs j slot r ws (Inr (ledger_of r)) (PS_OK, Some (snapshot_from_record r slot), w)"
  by (auto simp: performs_def)

lemma performs_transition:
  assumes "w \<in> ws" and "generation_of l = unat (rec_generation r)"
    and "\<And>g. new\<lparr>rec_generation := g, rec_domain := rec_domain r\<rparr> =
      (record_of (rec_domain r) l)\<lparr>rec_generation := g\<rparr>"
  shows "performs j slot r ws (ledger_commit l)
    (transition_record j (snapshot_from_record r slot) new True w)"
proof (cases "rec_generation r = UINT64_MAX")
  case True
  then show ?thesis
    using assms(1,2) unat_max [of "rec_generation r"]
    by (auto simp: performs_def ledger_commit_def transition_record_def snapshot_from_record_def)
next
  case False
  let ?l = "l\<lparr>generation_of := generation_of l + 1\<rparr>"
  have "record_of (rec_domain r) ?l = new\<lparr>rec_generation := rec_generation r + 1, rec_domain := rec_domain r\<rparr>"
    using assms(2,3) by (simp add: record_of_def)
  moreover have "?l \<noteq> ledger_of r"
  proof
    assume "?l = ledger_of r"
    then have "generation_of ?l = generation_of (ledger_of r)" by simp
    then show False using assms(2) by (simp add: ledger_of_def)
  qed
  moreover have "ledger_commit l = Inr ?l"
    using False assms(2) unat_max [of "rec_generation r"] by (simp add: ledger_commit_def)
  ultimately show ?thesis
    using False assms(1)
    by (auto simp: performs_def transition_record_def snapshot_from_record_def)
qed

lemma snapshot_fields [simp]:
  "snap_kind (snapshot_from_record r slot) = rec_kind r"
  "snap_confirmed_floor (snapshot_from_record r slot) = rec_confirmed_floor r"
  "snap_pending_sequence (snapshot_from_record r slot) = rec_pending_sequence r"
  "snap_attempts (snapshot_from_record r slot) = rec_attempts r"
  "snap_generation (snapshot_from_record r slot) = rec_generation r"
  "snap_domain (snapshot_from_record r slot) = rec_domain r"
  "snap_binding (snapshot_from_record r slot) = rec_binding r"
  "snap_attempt_sequence (snapshot_from_record r slot) = rec_attempt_sequence r"
  "snap_selected_slot (snapshot_from_record r slot) = slot"
  by (simp_all add: snapshot_from_record_def)

text \<open>The two shapes of a record, as the ledger sees them.\<close>

lemma record_shape:
  assumes "record_wf r"
  obtains (confirmed) "rec_kind r = KIND_CONFIRMED" "rec_pending_sequence r = 0" "rec_attempts r = 0"
      "mode_of (ledger_of r) = Confirmed"
  | (trial) "rec_kind r = KIND_TRIAL" "rec_confirmed_floor r \<noteq> UINT64_MAX"
      "rec_pending_sequence r = rec_confirmed_floor r + 1"
      "mode_of (ledger_of r) = Trial (unat (rec_attempts r))"
  using assms by (auto simp: record_wf_def ledger_of_def)

lemma ledger_fields [simp]:
  "floor_of (ledger_of r) = unat (rec_confirmed_floor r)"
  "bound_to (ledger_of r) = rec_binding r"
  "attempt_of (ledger_of r) = unat (rec_attempt_sequence r)"
  "generation_of (ledger_of r) = unat (rec_generation r)"
  by (simp_all add: ledger_of_def)

lemma bytes_zero_32: "length b = 32 \<Longrightarrow> bytes_zero b 32 \<longleftrightarrow> b = replicate 32 0"
  by (simp add: bytes_zero_replicate)

lemma ledger_begin_words:
  fixes c :: u64 and n :: u32
  assumes "mode_of (ledger_of r) = Confirmed"
  shows "ledger_begin (unat c) (unat n) b s bad (ledger_of r) =
    (if rec_confirmed_floor r = UINT64_MAX then Inl PS_OVERFLOW
     else if c \<noteq> rec_confirmed_floor r + 1
     then Inl (if c \<le> rec_confirmed_floor r then PS_ROLLBACK else PS_SEQUENCE_GAP)
     else if n = 0 \<or> 32 < n \<or> bad then Inl PS_INVALID_ARGUMENT
     else ledger_commit (ledger_of r\<lparr>mode_of := Trial (unat n), bound_to := b, attempt_of := s\<rparr>))"
proof (cases "rec_confirmed_floor r = UINT64_MAX")
  case True
  then show ?thesis using assms unat_max [of "rec_confirmed_floor r"] by (simp add: ledger_begin_def)
next
  case False
  have "n = 0 \<longleftrightarrow> unat n = 0" and "32 < n \<longleftrightarrow> 32 < unat n"
    by (simp_all add: unat_eq_zero word_less_nat_alt)
  then show ?thesis
    using assms False unat_max [of "rec_confirmed_floor r"] unat_next_eq [OF False, of c]
    by (auto simp: ledger_begin_def word_le_nat_alt)
qed

lemma begin_trial_performs:
  assumes wf: "record_wf r"
    and opened: "ribon_protected_state_open (Some j) True w = (PS_OK, Some (snapshot_from_record r slot), w1)"
    and binding: "case binding of None \<Rightarrow> b = replicate 32 0 \<and> s = 0 \<and> \<not> bad
      | Some x \<Rightarrow> length x = 32 \<and> b = x \<and> bad = (x = replicate 32 0 \<or> s = 0)"
  shows "performs j slot r {w, w1} (ledger_begin (unat c) (unat n) b (unat s) bad (ledger_of r))
    (begin_trial (Some j) c n binding s True w)"
  using wf
proof (cases rule: record_shape)
  case confirmed
  have bad: "bad \<longleftrightarrow> (binding = None \<and> s \<noteq> 0) \<or> (binding \<noteq> None \<and> (bytes_zero (the binding) 32 \<or> s = 0))"
    using binding by (auto simp: bytes_zero_32 split: option.splits)
  have b: "(case binding of None \<Rightarrow> replicate 32 0 | Some x \<Rightarrow> take 32 x) = b"
    using binding by (auto split: option.splits)
  have commit: "performs j slot r {w, w1}
      (ledger_commit (ledger_of r\<lparr>mode_of := Trial (unat n), bound_to := b, attempt_of := unat s\<rparr>))
      (transition_record j (snapshot_from_record r slot)
        (record_zero\<lparr>rec_kind := KIND_TRIAL, rec_confirmed_floor := rec_confirmed_floor r,
          rec_pending_sequence := rec_confirmed_floor r + 1, rec_attempts := n, rec_attempt_sequence := s,
          rec_binding := b\<rparr>) True w1)"
    by (rule performs_transition) (simp_all add: record_of_def record_zero_def)
  show ?thesis
    using confirmed opened commit
    unfolding ledger_begin_words [OF confirmed(4)] bad
    by (simp add: begin_trial_def b performs_refuse split del: if_split cong: if_cong)
      (auto simp: performs_refuse)
next
  case trial
  then show ?thesis
    using opened by (auto simp: begin_trial_def ledger_begin_def intro: performs_refuse)
qed

lemma rebind_performs:
  assumes wf: "record_wf r" and len: "length b = 32"
    and opened: "ribon_protected_state_open (Some j) True w = (PS_OK, Some (snapshot_from_record r slot), w1)"
  shows "performs j slot r {w, w1} (ledger_step (Rebind_Trial p b s) (ledger_of r))
    (ribon_protected_state_rebind_trial_attempt (Some j) p (Some b) s True w)"
  using wf
proof (cases rule: record_shape)
  case confirmed
  then show ?thesis
    using opened len
    by (auto simp: ribon_protected_state_rebind_trial_attempt_def bytes_zero_32 intro: performs_refuse)
next
  case trial
  have commit: "performs j slot r {w, w1}
      (ledger_commit (ledger_of r\<lparr>bound_to := b, attempt_of := unat s\<rparr>))
      (transition_record j (snapshot_from_record r slot)
        (record_zero\<lparr>rec_kind := KIND_TRIAL, rec_confirmed_floor := rec_confirmed_floor r,
          rec_pending_sequence := rec_confirmed_floor r + 1, rec_attempts := rec_attempts r,
          rec_attempt_sequence := s, rec_binding := take 32 b\<rparr>) True w1)"
    by (rule performs_transition) (use trial len in \<open>simp_all add: record_of_def record_zero_def\<close>)
  show ?thesis
    using opened len trial commit unat_next_eq [OF trial(2), of p]
    by (auto simp: ribon_protected_state_rebind_trial_attempt_def bytes_zero_32 unat_eq_zero
        word_le_nat_alt intro: performs_refuse)
qed

lemma consume_performs:
  assumes wf: "record_wf r"
    and opened: "ribon_protected_state_open (Some j) True w = (PS_OK, Some (snapshot_from_record r slot), w1)"
  shows "performs j slot r {w, w1} (ledger_step (Consume_Attempt p) (ledger_of r))
    (ribon_protected_state_consume_trial_attempt (Some j) p True w)"
  using wf
proof (cases rule: record_shape)
  case confirmed
  then show ?thesis
    using opened by (auto simp: ribon_protected_state_consume_trial_attempt_def intro: performs_refuse)
next
  case trial
  have dec: "word_of_nat (unat (rec_attempts r) - 1) = rec_attempts r - 1" if "rec_attempts r \<noteq> 0"
    using that by (simp add: of_nat_diff unat_gt_0 Suc_le_eq)
  have commit: "performs j slot r {w, w1}
      (ledger_commit (ledger_of r\<lparr>mode_of := Trial (unat (rec_attempts r) - 1)\<rparr>))
      (transition_record j (snapshot_from_record r slot)
        (record_zero\<lparr>rec_kind := KIND_TRIAL, rec_confirmed_floor := rec_confirmed_floor r,
          rec_pending_sequence := rec_confirmed_floor r + 1, rec_attempts := rec_attempts r - 1,
          rec_attempt_sequence := rec_attempt_sequence r, rec_binding := rec_binding r\<rparr>) True w1)"
    if "rec_attempts r \<noteq> 0"
    by (rule performs_transition) (use dec [OF that] in \<open>simp_all add: record_of_def record_zero_def\<close>)
  show ?thesis
    using opened trial commit unat_next_eq [OF trial(2), of p]
    by (auto simp: ribon_protected_state_consume_trial_attempt_def unat_eq_zero intro: performs_refuse)
qed

text \<open>The record both confirmations commit.\<close>

lemma confirm_transition:
  assumes wf: "record_wf r" and p: "p = rec_confirmed_floor r + 1"
    and b: "rec_binding r = b" and s: "rec_attempt_sequence r = s"
  shows "performs j slot r {w, w1}
      (ledger_commit (ledger_of r\<lparr>floor_of := unat (rec_confirmed_floor r) + 1, mode_of := Confirmed\<rparr>))
      (transition_record j (snapshot_from_record r slot)
        (record_zero\<lparr>rec_kind := KIND_CONFIRMED, rec_confirmed_floor := p,
          rec_attempt_sequence := s, rec_binding := b\<rparr>) True w1)"
  by (rule performs_transition) (use assms in \<open>simp_all add: record_of_def record_zero_def\<close>)

lemma confirm_performs:
  assumes wf: "record_wf r"
    and opened: "ribon_protected_state_open (Some j) True w = (PS_OK, Some (snapshot_from_record r slot), w1)"
  shows "performs j slot r {w, w1} (ledger_step (Confirm p) (ledger_of r))
    (ribon_protected_state_confirm (Some j) p True w)"
  using wf
proof (cases rule: record_shape)
  case confirmed
  then show ?thesis
    using opened by (auto simp: ribon_protected_state_confirm_def intro: performs_refuse)
next
  case trial
  have bind: "rec_binding r = replicate 32 0 \<longleftrightarrow> rec_attempt_sequence r = 0" "length (rec_binding r) = 32"
    using wf by (simp_all add: record_wf_def)
  have zero: "record_zero\<lparr>rec_kind := k, rec_confirmed_floor := f, rec_attempt_sequence := 0,
      rec_binding := replicate 32 0\<rparr> = record_zero\<lparr>rec_kind := k, rec_confirmed_floor := f\<rparr>" for k f
    by (simp add: record_zero_def)
  show ?thesis
    using opened trial bind unat_next_eq [OF trial(2), of p]
      confirm_transition [OF wf _ _ _, of p "replicate 32 0" 0 j slot w w1]
    by (auto simp: ribon_protected_state_confirm_def bytes_zero_32 unat_eq_zero zero
        intro: performs_refuse)
qed

lemma confirm_bound_performs:
  assumes wf: "record_wf r" and len: "length b = 32"
    and opened: "ribon_protected_state_open (Some j) True w = (PS_OK, Some (snapshot_from_record r slot), w1)"
  shows "performs j slot r {w, w1} (ledger_step (Confirm_Bound p b s) (ledger_of r))
    (ribon_protected_state_confirm_bound (Some j) p (Some b) s True w)"
proof -
  have eq: "bytes_equal (rec_binding r) b 32 \<longleftrightarrow> rec_binding r = b"
    using wf len by (simp add: bytes_equal_iff record_wf_def)
  have seq: "unat (rec_attempt_sequence r) = unat s \<longleftrightarrow> rec_attempt_sequence r = s"
    and floor: "unat p = unat (rec_confirmed_floor r) \<longleftrightarrow> rec_confirmed_floor r = p"
    by (auto simp: word_unat_eq_iff)
  show ?thesis
    using wf
  proof (cases rule: record_shape)
    case confirmed
    then show ?thesis
      using opened len performs_keep [of w1 "{w, w1}" j slot r]
      by (auto simp: ribon_protected_state_confirm_bound_def bytes_zero_32 eq seq floor
          intro: performs_refuse)
  next
    case trial
    show ?thesis
      using opened len trial unat_next_eq [OF trial(2), of p]
        confirm_transition [OF wf _ _ _, of p b s j slot w w1]
      by (auto simp: ribon_protected_state_confirm_bound_def bytes_zero_32 eq seq
          intro: performs_refuse)
  qed
qed

lemma fail_performs:
  assumes wf: "record_wf r"
    and opened: "ribon_protected_state_open (Some j) True w = (PS_OK, Some (snapshot_from_record r slot), w1)"
  shows "performs j slot r {w, w1} (ledger_step Fail_Trial (ledger_of r))
    (ribon_protected_state_fail_trial (Some j) True w)"
  using wf
proof (cases rule: record_shape)
  case confirmed
  then show ?thesis
    using opened by (auto simp: ribon_protected_state_fail_trial_def intro: performs_refuse)
next
  case trial
  have "performs j slot r {w, w1} (ledger_commit (ledger_of r\<lparr>mode_of := Confirmed\<rparr>))
      (transition_record j (snapshot_from_record r slot)
        (record_zero\<lparr>rec_kind := KIND_CONFIRMED, rec_confirmed_floor := rec_confirmed_floor r,
          rec_attempt_sequence := rec_attempt_sequence r, rec_binding := rec_binding r\<rparr>) True w1)"
    by (rule performs_transition) (simp_all add: record_of_def record_zero_def)
  then show ?thesis
    using opened trial by (simp add: ribon_protected_state_fail_trial_def)
qed

lemma run_command_performs:
  assumes "record_wf r" and "command_ok c"
    and "ribon_protected_state_open (Some j) True w = (PS_OK, Some (snapshot_from_record r slot), w1)"
  shows "performs j slot r {w, w1} (ledger_step c (ledger_of r)) (run_command j c w)"
proof (cases c)
  case (Begin_Trial p n)
  then show ?thesis
    using begin_trial_performs [OF assms(1,3), where binding = None and b = "replicate 32 0" and s = 0
        and bad = False and c = p and n = n]
    by (simp add: ribon_protected_state_begin_trial_def)
next
  case (Begin_Bound_Trial p n b s)
  then show ?thesis
    using begin_trial_performs [OF assms(1,3), where binding = "Some b" and b = b and s = s
        and bad = "b = replicate 32 0 \<or> s = 0" and c = p and n = n] assms(2)
    by (simp add: ribon_protected_state_begin_bound_trial_def)
qed (use assms rebind_performs consume_performs confirm_performs confirm_bound_performs fail_performs
    in \<open>simp_all del: ledger_step.simps\<close>)

text \<open>An operation that cannot open the journal changes nothing.\<close>

lemma run_command_not_open:
  assumes "ribon_protected_state_open (Some j) True w = (st, opened, w1)" and "st \<noteq> PS_OK"
  shows "\<exists>st'. st' \<noteq> PS_OK \<and> (\<exists>w2\<in>{w, w1}. run_command j c w = (st', None, w2))"
  using assms
  by (cases c)
    (auto simp: ribon_protected_state_begin_trial_def ribon_protected_state_begin_bound_trial_def
      begin_trial_def ribon_protected_state_rebind_trial_attempt_def
      ribon_protected_state_consume_trial_attempt_def ribon_protected_state_confirm_def
      ribon_protected_state_confirm_bound_def ribon_protected_state_fail_trial_def)

section \<open>Commands on a provider\<close>

text \<open>The journal's objects in the world \<open>w\<close> commit to \<open>r\<close>.\<close>

abbreviation holds ::
  "'w RibonProtectedStateJournal \<Rightarrow> ('w \<Rightarrow> RibonProtectedStateObject \<Rightarrow> u32 \<Rightarrow> u8 list) \<Rightarrow>
   'w \<Rightarrow> u32 \<Rightarrow> RibonProtectedRecord \<Rightarrow> bool"
where
  "holds j cell w slot r \<equiv>
     committed (journal_domain j) (cell w OBJECT_SELECTOR) (cell w OBJECT_RECORD) slot r"

definition digest_ok :: "RibonProtectedRecord \<Rightarrow> bool" where
  "digest_ok r \<longleftrightarrow> record_identity (record_encode r) \<noteq> replicate 32 0"

lemma ledger_step_successor:
  assumes "ledger_step c (ledger_of r) = Inr l" and "l \<noteq> ledger_of r"
    and "record_wf r" and "rec_domain r = domain" and "command_ok c" and "digest_ok (record_of domain l)"
  shows "successor domain r (record_of domain l)"
proof -
  have gen: "unat (rec_generation r) \<noteq> 2 ^ 64 - 1 \<and> generation_of l = unat (rec_generation r) + 1"
    using assms(1)
    by (cases rule: ledger_step_cases)
      (use assms(2) in \<open>auto simp: ledger_commit_Inr ledger_begin_def split: if_splits\<close>)
  have wf: "record_wf (record_of domain l)"
    by (rule record_of_wf [OF ledger_step_wf [OF assms(1) ledger_of_wf [OF assms(3)] assms(5)]])
      (use assms(3,4) in \<open>auto simp: record_wf_def\<close>)
  have "rec_generation (record_of domain l) = word_of_nat (unat (rec_generation r) + 1)"
    using gen by (simp add: record_of_def)
  then show ?thesis
    using gen wf assms(6) unat_max [of "rec_generation r"] word_of_nat_next
    by (simp add: successor_def digest_ok_def record_of_def)
qed

text \<open>What a command left behind was written whole or is recognisably torn.\<close>

definition tears_detected ::
  "'w RibonProtectedStateJournal \<Rightarrow> ('w \<Rightarrow> RibonProtectedStateObject \<Rightarrow> u32 \<Rightarrow> u8 list) \<Rightarrow>
   'w \<Rightarrow> 'w \<Rightarrow> u32 \<Rightarrow> RibonProtectedRecord \<Rightarrow> bool"
where
  "tears_detected j cell w w' slot r' \<longleftrightarrow>
     record_torn (cell w OBJECT_RECORD slot) (record_encode r') (cell w' OBJECT_RECORD slot) \<and>
     selector_torn (cell w OBJECT_SELECTOR slot) (selector_encode (selector_for (journal_domain j) slot r'))
       (cell w' OBJECT_SELECTOR slot)"

definition initial_ledger :: "nat \<Rightarrow> ledger" where
  "initial_ledger floor =
     \<lparr>floor_of = floor, mode_of = Confirmed, bound_to = replicate 32 0, attempt_of = 0, generation_of = 1\<rparr>"

text \<open>
  One boot of the machine: a command is started and runs to its end or stops where the provider
  fails, and the machine comes up again on what the objects then hold.
\<close>

inductive boot ::
  "'w RibonProtectedStateJournal \<Rightarrow> ('w \<Rightarrow> bool) \<Rightarrow>
   ('w \<Rightarrow> RibonProtectedStateObject \<Rightarrow> u32 \<Rightarrow> u8 list) \<Rightarrow>
   ('w \<Rightarrow> RibonProtectedStateObject \<Rightarrow> u32 \<Rightarrow> u8 list option) \<Rightarrow> 'w \<Rightarrow> 'w \<Rightarrow> bool"
  for j inv cell staged
where
  boot: "inv w \<Longrightarrow> quiescent staged w \<Longrightarrow> command_ok c \<Longrightarrow> run_command j c w = (st, sn, w') \<Longrightarrow>
    (\<And>slot r l. holds j cell w slot r \<Longrightarrow> ledger_step c (ledger_of r) = Inr l \<Longrightarrow> l \<noteq> ledger_of r \<Longrightarrow>
       digest_ok (record_of (journal_domain j) l) \<and>
       tears_detected j cell w w' (1 - slot) (record_of (journal_domain j) l)) \<Longrightarrow>
    inv w'' \<Longrightarrow> quiescent staged w'' \<Longrightarrow> cell w'' = cell w' \<Longrightarrow> boot j inv cell staged w w''"

definition ledger_next :: "ledger \<Rightarrow> ledger \<Rightarrow> bool" where
  "ledger_next l l' \<longleftrightarrow> (\<exists>c. command_ok c \<and> ledger_step c l = Inr l')"

lemma ledger_reach_floor: "ledger_next\<^sup>*\<^sup>* l l' \<Longrightarrow> floor_of l \<le> floor_of l'"
proof (induction rule: rtranclp_induct)
  case (step l1 l2)
  then show ?case using ledger_step_floor by (fastforce simp: ledger_next_def)
qed simp

fun run_commands ::
  "'w RibonProtectedStateJournal \<Rightarrow> ps_command list \<Rightarrow> 'w \<Rightarrow> RibonProtectedStateStatus list \<times> 'w"
where
  "run_commands j [] w = ([], w)"
| "run_commands j (c # cs) w =
     (let (st, sn, w1) = run_command j c w; (sts, w2) = run_commands j cs w1 in (st # sts, w2))"

context protected_store
begin

lemma command_atomic:
  assumes inv: "inv w" and q: "quiescent staged w" and com: "holds j cell w slot r"
    and ok: "command_ok c" and run: "run_command j c w = (st, sn, w')"
    and safe: "\<And>l. ledger_step c (ledger_of r) = Inr l \<Longrightarrow> l \<noteq> ledger_of r \<Longrightarrow>
      digest_ok (record_of domain l) \<and> tears_detected j cell w w' (1 - slot) (record_of domain l)"
  shows "holds j cell w' slot r \<or>
    (\<exists>l. ledger_step c (ledger_of r) = Inr l \<and> holds j cell w' (1 - slot) (record_of domain l))"
proof -
  have wf: "record_wf r" "rec_domain r = domain" using com by (simp_all add: committed_def)
  obtain st1 o1 w1 where opened: "ribon_protected_state_open (Some j) True w = (st1, o1, w1)"
    by (metis prod.exhaust)
  have w1: "inv w1" "cell w1 = cell w" "quiescent staged w1"
    using open_spec [OF inv opened] q by (simp_all add: quiescent_def)
  show ?thesis
  proof (cases "st1 = PS_OK")
    case False
    then have "cell w' = cell w"
      using run_command_not_open [OF opened False, of c] run w1 by auto
    then show ?thesis using com by simp
  next
    case True
    have "o1 = Some (snapshot_from_record r slot)"
      using open_spec [OF inv opened] True committed_open [OF com] by auto
    then have perf: "performs j slot r {w, w1} (ledger_step c (ledger_of r)) (st, sn, w')"
      using run_command_performs [OF wf(1) ok, of j w slot w1] opened True run by simp
    from perf show ?thesis
    proof (cases rule: performs_cases)
      case (commits l w0)
      have w0: "inv w0" "quiescent staged w0" "cell w0 = cell w" using commits(3) w1 inv q by auto
      note safe' = safe [OF commits(1,2)]
      have succ: "successor domain r (record_of domain l)"
        using ledger_step_successor [OF commits(1,2) wf ok] safe' by blast
      show ?thesis
        using commit_atomic [OF w0(1,2) _ succ commits(4) [unfolded wf(2)]] com safe' commits(1)
        unfolding w0(3) tears_detected_def by blast
    qed (use com w1 in auto)
  qed
qed

lemma boot_ledger:
  assumes "boot j inv cell staged w w''" and "holds j cell w slot r"
  shows "\<exists>slot' r'. holds j cell w'' slot' r' \<and> ledger_next\<^sup>*\<^sup>* (ledger_of r) (ledger_of r')"
  using assms(1)
proof cases
  case (boot c st sn w')
  have wf: "ledger_wf (ledger_of r)" using assms(2) ledger_of_wf by (simp add: committed_def)
  consider "holds j cell w' slot r"
    | l where "ledger_step c (ledger_of r) = Inr l" "holds j cell w' (1 - slot) (record_of domain l)"
    using command_atomic [OF boot(1,2) assms(2) boot(3,4) boot(5) [OF assms(2)]] by blast
  then show ?thesis
  proof cases
    case 1
    then show ?thesis unfolding boot(8) by blast
  next
    case 2
    have "ledger_of (record_of domain l) = l"
      using ledger_of_record_of ledger_step_wf [OF 2(1) wf boot(3)] .
    then have "ledger_next (ledger_of r) (ledger_of (record_of domain l))"
      using 2(1) boot(3) by (auto simp: ledger_next_def)
    then show ?thesis using 2(2) unfolding boot(8) by (blast intro: r_into_rtranclp)
  qed
qed

lemma boots_ledger:
  assumes "(boot j inv cell staged)\<^sup>*\<^sup>* w w''" and "holds j cell w slot r"
  shows "\<exists>slot' r'. holds j cell w'' slot' r' \<and> ledger_next\<^sup>*\<^sup>* (ledger_of r) (ledger_of r')"
  using assms
proof (induction rule: rtranclp_induct)
  case (step w1 w2)
  then show ?case using boot_ledger by (meson rtranclp_trans)
qed blast

lemma authorize_opened:
  assumes "ribon_protected_state_open (Some j) True w = (PS_OK, Some (snapshot_from_record r slot), w1)"
    and wf: "record_wf r"
    and run: "ribon_protected_state_authorize (Some j) sequence True w = (st, d, w')"
  shows "w' = w1 \<and>
    (case ledger_authorize (unat sequence) (ledger_of r) of
       Inl e \<Rightarrow> st = e \<and> d = None
     | Inr a \<Rightarrow> st = PS_OK \<and> (\<exists>x. d = Some x \<and> decision_authority x = a \<and>
         decision_sequence x = sequence \<and> decision_attempts x = rec_attempts r \<and>
         decision_generation x = rec_generation r \<and> decision_domain x = rec_domain r))"
proof -
  have eq: "unat sequence = unat (rec_confirmed_floor r) \<longleftrightarrow> sequence = rec_confirmed_floor r"
    by (simp add: word_unat_eq_iff)
  have less: "unat sequence < unat (rec_confirmed_floor r) \<longleftrightarrow> sequence < rec_confirmed_floor r"
    by (simp add: word_less_nat_alt)
  from wf show ?thesis
  proof (cases rule: record_shape)
    case confirmed
    then show ?thesis
      using run assms(1)
      by (auto simp: ribon_protected_state_authorize_def ledger_authorize_def Let_def eq less
          split: if_splits)
  next
    case trial
    have next_eq: "unat sequence = unat (rec_confirmed_floor r) + 1 \<longleftrightarrow> sequence = rec_confirmed_floor r + 1"
      using unat_next_eq [OF trial(2)] by simp
    have "rec_confirmed_floor r < rec_confirmed_floor r + 1"
      using unat_plus_one [OF trial(2)] by (simp add: word_less_nat_alt)
    then show ?thesis
      using run assms(1) trial
      by (auto simp: ribon_protected_state_authorize_def ledger_authorize_def Let_def eq less
          next_eq [simplified] unat_eq_zero split: if_splits)
  qed
qed

lemma authorize_spec:
  assumes "inv w" and com: "holds j cell w slot r"
    and ok: "ribon_protected_state_authorize (Some j) sequence True w = (PS_OK, Some d, w')"
  shows "ledger_authorize (unat sequence) (ledger_of r) = Inr (decision_authority d)"
proof -
  obtain st o1 w1 where opened: "ribon_protected_state_open (Some j) True w = (st, o1, w1)"
    by (metis prod.exhaust)
  have st: "st = PS_OK" using ok opened
    by (auto simp: ribon_protected_state_authorize_def split: if_splits)
  then have "o1 = Some (snapshot_from_record r slot)"
    using open_spec [OF assms(1) opened] committed_open [OF com] by auto
  moreover have "record_wf r" using com by (simp add: committed_def)
  moreover have "ledger_authorize n l \<noteq> Inl PS_OK" for n l by (simp add: ledger_authorize_def)
  ultimately show ?thesis
    using authorize_opened [OF _ _ ok] opened st by (force split: sum.splits)
qed

lemma no_rollback:
  assumes "(boot j inv cell staged)\<^sup>*\<^sup>* w w1" and "inv w1" and "holds j cell w slot r"
    and "ribon_protected_state_authorize (Some j) sequence True w1 = (PS_OK, Some d, w2)"
  shows "rec_confirmed_floor r \<le> sequence"
proof -
  obtain slot' r' where r': "holds j cell w1 slot' r'" "ledger_next\<^sup>*\<^sup>* (ledger_of r) (ledger_of r')"
    using boots_ledger [OF assms(1,3)] by blast
  have "unat (rec_confirmed_floor r) \<le> unat (rec_confirmed_floor r')"
    using ledger_reach_floor [OF r'(2)] by simp
  moreover have "unat (rec_confirmed_floor r') \<le> unat sequence"
    using authorize_spec [OF assms(2) r'(1) assms(4)]
    by (auto simp: ledger_authorize_def split: if_splits)
  ultimately show ?thesis by (simp add: word_le_nat_alt)
qed

end

context reliable_store
begin

lemma command_refines:
  assumes inv: "inv w" and q: "quiescent staged w" and com: "holds j cell w slot r"
    and ok: "command_ok c"
    and digest: "\<And>l. ledger_step c (ledger_of r) = Inr l \<Longrightarrow> digest_ok (record_of domain l)"
    and run: "run_command j c w = (st, sn, w')"
  shows "inv w' \<and> quiescent staged w' \<and>
    (case ledger_step c (ledger_of r) of
       Inl e \<Rightarrow> st = e \<and> sn = None \<and> cell w' = cell w
     | Inr l \<Rightarrow> st = PS_OK \<and>
         (\<exists>slot'. slot' = (if l = ledger_of r then slot else 1 - slot) \<and>
           holds j cell w' slot' (record_of domain l) \<and>
           sn = Some (snapshot_from_record (record_of domain l) slot')))"
proof -
  have wf: "record_wf r" "rec_domain r = domain" and slot: "slot < 2"
    using com by (simp_all add: committed_def)
  obtain w1 where opened: "ribon_protected_state_open (Some j) True w =
      (PS_OK, Some (snapshot_from_record r slot), w1)"
    and w1: "inv w1" "cell w1 = cell w" "staged w1 = staged w"
    using open_total [OF inv] committed_open [OF com] by force
  have perf: "performs j slot r {w, w1} (ledger_step c (ledger_of r)) (st, sn, w')"
    using run_command_performs [OF wf(1) ok opened] run by simp
  have q1: "quiescent staged w1" using q w1(3) by (simp add: quiescent_def)
  from perf show ?thesis
  proof (cases rule: performs_cases)
    case kept
    have "record_of domain (ledger_of r) = r" using record_of_ledger_of [OF wf(1)] wf(2) by simp
    then show ?thesis using kept w1 inv q q1 com by auto
  next
    case (commits l w0)
    have w0: "inv w0" "quiescent staged w0" "cell w0 = cell w" using commits(3) w1 inv q q1 by auto
    have com0: "holds j cell w0 slot r" using com w0(3) by simp
    have succ: "successor domain r (record_of domain l)"
      by (rule ledger_step_successor [OF commits(1,2) wf ok digest [OF commits(1)]])
    note commit = commits(4) [unfolded wf(2)]
    have "fst (commit_record j (1 - slot) (record_of domain l) True w0) = PS_OK"
      by (rule commit_total [OF w0(1,2) other_slot [OF slot] successorD(1-3) [OF succ]])
        (rule committed_advance [OF com0 succ], simp_all)
    then have st: "st = PS_OK" using commit by simp
    show ?thesis
      using commit_ok [OF w0(1,2) com0 succ commit [unfolded st]] commits(1,2) st by auto
  qed (use w1 inv q q1 in auto)
qed

lemma commands_refine:
  assumes "inv w" and "quiescent staged w" and "holds j cell w slot r" and "list_all command_ok cs"
    and "list_all (\<lambda>l. digest_ok (record_of domain l)) (ledger_trace cs (ledger_of r))"
    and "run_commands j cs w = (sts, w')"
  shows "sts = ledger_statuses cs (ledger_of r) \<and> inv w' \<and> quiescent staged w' \<and>
    (\<exists>slot'. holds j cell w' slot' (record_of domain (fold ledger_after cs (ledger_of r))))"
  using assms
proof (induction cs arbitrary: w slot r sts)
  case Nil
  have "record_of domain (ledger_of r) = r"
    using Nil(3) record_of_ledger_of [of r] by (simp add: committed_def)
  then show ?case using Nil by auto
next
  case (Cons c cs)
  obtain st sn w1 where run: "run_command j c w = (st, sn, w1)" by (metis prod.exhaust)
  obtain sts' where rest: "run_commands j cs w1 = (sts', w')" "sts = st # sts'"
    using Cons.prems(6) run by (auto split: prod.splits)
  let ?l = "ledger_after c (ledger_of r)"
  have ok: "command_ok c" using Cons.prems(4) by simp
  have digest: "digest_ok (record_of domain l)" if "ledger_step c (ledger_of r) = Inr l" for l
    using Cons.prems(5) that by simp
  have wf: "record_wf r" "rec_domain r = domain"
    using Cons.prems(3) by (simp_all add: committed_def)
  note R = command_refines [OF Cons.prems(1-3) ok digest run]
  have st: "st = ledger_status c (ledger_of r)" using R by (auto split: sum.splits)
  have "ledger_wf ?l"
    using ledger_of_wf [OF wf(1)] ledger_step_wf [OF _ _ ok] by (auto split: sum.splits)
  then have l: "ledger_of (record_of domain ?l) = ?l" by (rule ledger_of_record_of)
  obtain slot1 where com1: "holds j cell w1 slot1 (record_of domain ?l)"
    using R Cons.prems(3) record_of_ledger_of [OF wf(1)] wf(2) by (auto split: sum.splits)
  show ?case
    using Cons.IH [OF _ _ com1 _ _ rest(1)] R Cons.prems(4,5) rest(2) st unfolding l by simp
qed

lemma authorize_refines:
  assumes "inv w" and com: "holds j cell w slot r"
    and run: "ribon_protected_state_authorize (Some j) sequence True w = (st, d, w')"
  shows "inv w' \<and> cell w' = cell w \<and>
    (case ledger_authorize (unat sequence) (ledger_of r) of
       Inl e \<Rightarrow> st = e \<and> d = None
     | Inr a \<Rightarrow> st = PS_OK \<and> (\<exists>x. d = Some x \<and> decision_authority x = a \<and>
         decision_sequence x = sequence \<and> decision_attempts x = rec_attempts r \<and>
         decision_generation x = rec_generation r \<and> decision_domain x = rec_domain r))"
proof -
  obtain w1 where opened: "ribon_protected_state_open (Some j) True w =
      (PS_OK, Some (snapshot_from_record r slot), w1)" and w1: "inv w1" "cell w1 = cell w"
    by (rule open_total [OF assms(1)]) (simp add: committed_open [OF com])
  have "record_wf r" using com by (simp add: committed_def)
  then show ?thesis using authorize_opened [OF opened _ run] w1 by auto
qed

text \<open>Provisioning blank objects.\<close>

lemma initialize_refines:
  assumes inv: "inv w" and q: "quiescent staged w"
    and blank: "\<And>i. i < 2 \<Longrightarrow> bytes_zero (cell w OBJECT_SELECTOR i) 160"
      "fst (record_decode (cell w OBJECT_RECORD 1)) \<noteq> PS_OK"
    and digest: "digest_ok (record_of domain (initial_ledger (unat confirmed_floor)))"
    and run: "ribon_protected_state_initialize (Some j) confirmed_floor True w = (st, sn, w')"
  shows "st = PS_OK \<and> inv w' \<and> quiescent staged w' \<and>
    holds j cell w' 0 (record_of domain (initial_ledger (unat confirmed_floor)))"
proof -
  let ?l = "initial_ledger (unat confirmed_floor)"
  let ?r = "record_of domain ?l"
  have wf: "record_wf ?r"
    by (rule record_of_wf [OF _ domain_length domain_nonzero])
      (simp add: ledger_wf_def initial_ledger_def unat_bound [of confirmed_floor, simplified])
  have dom: "rec_domain ?r = domain" by (simp add: record_of_def)
  have uninit: "selector_status (cell w OBJECT_SELECTOR i) = (PS_UNINITIALIZED, None)" if "i < 2" for i
    using blank(1) [OF that] by (simp add: selector_status_def)
  have decide: "open_decide domain (cell w OBJECT_SELECTOR) (cell w OBJECT_RECORD) = (PS_UNINITIALIZED, None)"
    using uninit [of 0] uninit [of 1] by (simp add: open_decide_def)
  obtain w1 where opened: "ribon_protected_state_open (Some j) True w = (PS_UNINITIALIZED, None, w1)"
    and w1: "inv w1" "cell w1 = cell w" "staged w1 = staged w"
    by (rule open_total [OF inv]) (simp add: decide)
  have r: "record_zero\<lparr>rec_kind := KIND_CONFIRMED, rec_confirmed_floor := confirmed_floor,
      rec_generation := 1, rec_domain := domain\<rparr> = ?r"
    by (simp add: record_of_def initial_ledger_def record_zero_def)
  have commit: "commit_record j 0 ?r True w1 = (st, sn, w')"
    using run opened by (simp add: ribon_protected_state_initialize_def r)
  have q1: "quiescent staged w1" using q w1(3) by (simp add: quiescent_def)
  have com: "committed domain sels recs 0 ?r"
    if "sels 0 = selector_encode (selector_for domain 0 ?r)" "recs 0 = record_encode ?r"
      "sels (1 - 0) = cell w1 OBJECT_SELECTOR (1 - 0)" "recs (1 - 0) = cell w1 OBJECT_RECORD (1 - 0)"
    for sels recs
    using that wf dom digest uninit [of 1] blank(2) w1(2)
    by (auto simp: committed_def digest_ok_def)
  note id = digest [unfolded digest_ok_def]
  have slot: "(0 :: u32) < 2" by simp
  have "fst (commit_record j 0 ?r True w1) = PS_OK"
    by (rule commit_total [OF w1(1) q1 slot wf dom id com])
  then have st: "st = PS_OK" using commit by simp
  note E = commit_effect [OF w1(1) q1 slot wf dom id commit]
  have "holds j cell w' 0 ?r"
    by (rule com) (use E(4) [OF st] E(2) in simp_all)
  then show ?thesis using st E(1,4) by simp
qed

end

end
