(* ===== verification/Host_Provider.thy ===== *)
theory Host_Provider
  imports Protected_Ledger
begin

text \<open>
  The in-memory reference provider of the host environment (\<open>src/environments/host/ribos_policy.c\<close>).
  It keeps a durable and a pending copy of every object; a flush applies the pending ones. It is
  shown to satisfy the provider contract, so the journal's guarantees hold of it.
\<close>

section \<open>State and calls\<close>

record RibonHostProtectedState =
  durable :: "u8 list list list"
  pending :: "u8 list list list"
  pending_valid :: "u8 list list"

definition host_state_zero :: RibonHostProtectedState where
  "host_state_zero =
     \<lparr>durable = replicate 2 (replicate 2 (replicate 160 0)),
      pending = replicate 2 (replicate 2 (replicate 160 0)),
      pending_valid = replicate 2 (replicate 2 0)\<rparr>"

definition ribon_host_protected_domain_is_valid :: "u8 list option \<Rightarrow> bool" where
  "ribon_host_protected_domain_is_valid domain =
     (case domain of None \<Rightarrow> False
      | Some d \<Rightarrow> fold (\<lambda>index value. value OR d ! index) [0..<32] 0 \<noteq> 0)"

fun object_value :: "RibonProtectedStateObject \<Rightarrow> u32" where
  "object_value OBJECT_INVALID = 0"
| "object_value OBJECT_RECORD = 1"
| "object_value OBJECT_SELECTOR = 2"

definition ribon_host_protected_read ::
  "u8 list \<Rightarrow> RibonProtectedStateObject \<Rightarrow> u32 \<Rightarrow> nat \<Rightarrow> RibonHostProtectedState \<Rightarrow>
   int \<times> u8 list \<times> RibonHostProtectedState"
where
  "ribon_host_protected_read domain object slot n state =
     (let object_index = object_value object - 1
      in if \<not> ribon_host_protected_domain_is_valid (Some domain) \<or>
            2 \<le> object_index \<or> 2 \<le> slot \<or> n \<noteq> 160
         then (PROVIDER_IO_ERROR, [], state)
         else (PROVIDER_OK, take n (durable state ! unat object_index ! unat slot), state))"

definition ribon_host_protected_write ::
  "u8 list \<Rightarrow> RibonProtectedStateObject \<Rightarrow> u32 \<Rightarrow> u8 list \<Rightarrow> RibonHostProtectedState \<Rightarrow>
   int \<times> RibonHostProtectedState"
where
  "ribon_host_protected_write domain object slot bytes state =
     (let object_index = object_value object - 1
      in if \<not> ribon_host_protected_domain_is_valid (Some domain) \<or>
            2 \<le> object_index \<or> 2 \<le> slot \<or> length bytes \<noteq> 160
         then (PROVIDER_IO_ERROR, state)
         else
           let ob = unat object_index; s = unat slot
           in (PROVIDER_OK,
               state\<lparr>pending := (pending state)[ob := (pending state ! ob)[s := bytes]],
                     pending_valid := (pending_valid state)[ob := (pending_valid state ! ob)[s := 1]]\<rparr>))"

definition host_flush_cell :: "nat \<times> nat \<Rightarrow> RibonHostProtectedState \<Rightarrow> RibonHostProtectedState" where
  "host_flush_cell = (\<lambda>(ob, s) state.
     if pending_valid state ! ob ! s = 0 then state
     else state\<lparr>durable := (durable state)[ob := (durable state ! ob)[s := pending state ! ob ! s]],
                pending_valid := (pending_valid state)[ob := (pending_valid state ! ob)[s := 0]]\<rparr>)"

definition ribon_host_protected_flush ::
  "u8 list \<Rightarrow> RibonHostProtectedState \<Rightarrow> int \<times> RibonHostProtectedState"
where
  "ribon_host_protected_flush domain state =
     (if \<not> ribon_host_protected_domain_is_valid (Some domain) then (PROVIDER_IO_ERROR, state)
      else (PROVIDER_OK, fold host_flush_cell (List.product [0..<2] [0..<2]) state))"

definition ribon_host_protected_state_provider_descriptor ::
  "RibonHostProtectedState RibonProtectedStateProvider"
where
  "ribon_host_protected_state_provider_descriptor =
     \<lparr>provider_magic = 0x52425053, provider_size = 120, provider_abi_version = 1,
      provider_class = 2, provider_flags = 0, provider_record_slots = 2, provider_selector_slots = 2,
      provider_reserved0 = 0, provider_record_bytes = 160, provider_selector_bytes = 160,
      provider_id = Some ''security.protected-state.reference.host-reference'',
      provider_read_fn = Some ribon_host_protected_read,
      provider_write_fn = Some ribon_host_protected_write,
      provider_flush_fn = Some ribon_host_protected_flush,
      provider_reserved = [0, 0, 0, 0]\<rparr>"

text \<open>The journal that \<open>ribon_protected_state_journal_bind\<close> makes over this provider.\<close>

definition host_journal :: "u8 list \<Rightarrow> RibonHostProtectedState RibonProtectedStateJournal" where
  "host_journal domain =
     \<lparr>journal_size = 80, journal_abi_version = 1,
      journal_provider = Some ribon_host_protected_state_provider_descriptor,
      journal_domain = domain, journal_reserved = [0, 0, 0, 0]\<rparr>"

section \<open>The contract\<close>

definition host_inv :: "RibonHostProtectedState \<Rightarrow> bool" where
  "host_inv w \<longleftrightarrow>
     length (durable w) = 2 \<and> length (pending w) = 2 \<and> length (pending_valid w) = 2 \<and>
     list_all (\<lambda>xs. length xs = 2 \<and> list_all (\<lambda>b. length b = 160) xs) (durable w) \<and>
     list_all (\<lambda>xs. length xs = 2 \<and> list_all (\<lambda>b. length b = 160) xs) (pending w) \<and>
     list_all (\<lambda>xs. length xs = 2) (pending_valid w)"

definition host_cell :: "RibonHostProtectedState \<Rightarrow> RibonProtectedStateObject \<Rightarrow> u32 \<Rightarrow> u8 list" where
  "host_cell w ob i =
     (if ob = OBJECT_INVALID \<or> 2 \<le> i then []
      else durable w ! unat (object_value ob - 1) ! unat i)"

definition host_staged ::
  "RibonHostProtectedState \<Rightarrow> RibonProtectedStateObject \<Rightarrow> u32 \<Rightarrow> u8 list option"
where
  "host_staged w ob i =
     (if ob = OBJECT_INVALID \<or> 2 \<le> i \<or> pending_valid w ! unat (object_value ob - 1) ! unat i = 0
      then None else Some (pending w ! unat (object_value ob - 1) ! unat i))"

lemma length_2: "length xs = 2 \<longleftrightarrow> (\<exists>x y. xs = [x, y])"
  by (auto simp: numeral_2_eq_2 length_Suc_conv)

text \<open>The shapes of the three tables.\<close>

lemma host_shape:
  assumes "host_inv w"
  obtains a b c d e f g h p q r s where
    "durable w = [[a, b], [c, d]]" "pending w = [[e, f], [g, h]]" "pending_valid w = [[p, q], [r, s]]"
    "length a = 160" "length b = 160" "length c = 160" "length d = 160"
    "length e = 160" "length f = 160" "length g = 160" "length h = 160"
  using assms by (auto simp: host_inv_def length_2)

lemma slot_one [simp]: "\<not> (2 :: u32) \<le> 1"
  by (simp add: word_le_nat_alt)

lemma host_object_cases:
  assumes "ob \<noteq> OBJECT_INVALID"
  obtains "ob = OBJECT_RECORD" | "ob = OBJECT_SELECTOR"
  using assms by (cases ob) auto

lemma host_domain_valid:
  assumes "length d = 32" and "d \<noteq> replicate 32 0"
  shows "ribon_host_protected_domain_is_valid (Some d)"
proof -
  have or: "fold (\<lambda>i v. v OR d ! i) [0..<n] 0 = 0 \<Longrightarrow> i < n \<Longrightarrow> d ! i = 0" for n i
  proof (induction n)
    case (Suc n)
    have "fold (\<lambda>i v. v OR d ! i) [0..<n] 0 OR d ! n = 0" using Suc.prems(1) by simp
    then have "fold (\<lambda>i v. v OR d ! i) [0..<n] 0 = 0" "d ! n = 0"
      by (simp_all add: bit_eq_iff bit_or_iff)
    then show ?case using Suc by (cases "i = n") auto
  qed simp
  show ?thesis
    using or [of 32] assms
    by (auto simp: ribon_host_protected_domain_is_valid_def list_eq_iff_nth_eq)
qed

lemma host_journal_valid:
  assumes "length d = 32" and "d \<noteq> replicate 32 0"
  shows "journal_validate (Some (host_journal d)) = PS_OK"
  using assms
  by (simp add: journal_validate_def host_journal_def ribon_protected_state_provider_validate_def
      ribon_host_protected_state_provider_descriptor_def reserved_zero_def bytes_zero_replicate)

lemma host_calls:
  assumes "length d = 32" and "d \<noteq> replicate 32 0"
  shows "ob \<noteq> OBJECT_INVALID \<Longrightarrow> i < 2 \<Longrightarrow> provider_read (host_journal d) ob i 160 w =
      (PS_OK, take 160 (host_cell w ob i), w)"
    and "ob \<noteq> OBJECT_INVALID \<Longrightarrow> i < 2 \<Longrightarrow> length b = 160 \<Longrightarrow> provider_write (host_journal d) ob i b w =
      (PS_OK, let n = unat (object_value ob - 1); s = unat i
        in w\<lparr>pending := (pending w)[n := (pending w ! n)[s := b]],
             pending_valid := (pending_valid w)[n := (pending_valid w ! n)[s := 1]]\<rparr>)"
    and "provider_flush (host_journal d) w =
      (PS_OK, fold host_flush_cell (List.product [0..<2] [0..<2]) w)"
  using host_domain_valid [OF assms]
  by (auto simp: provider_read_def provider_write_def provider_flush_def provider_status_def
      host_journal_def ribon_host_protected_state_provider_descriptor_def ribon_host_protected_read_def
      ribon_host_protected_write_def ribon_host_protected_flush_def host_cell_def Let_def not_le
      elim!: host_object_cases)

lemma host_write_contract:
  assumes "host_inv w" and "ob \<noteq> OBJECT_INVALID" and "i < 2" and "length b = 160"
    and "w' = (let n = unat (object_value ob - 1); s = unat i
        in w\<lparr>pending := (pending w)[n := (pending w ! n)[s := b]],
             pending_valid := (pending_valid w)[n := (pending_valid w ! n)[s := 1]]\<rparr>)"
  shows "host_inv w' \<and> host_staged w' ob i = Some b \<and> host_cell w' = host_cell w \<and>
    (\<forall>ob' i'. (ob', i') \<noteq> (ob, i) \<longrightarrow> host_staged w' ob' i' = host_staged w ob' i')"
proof -
  have other: "host_staged w' ob' i' = host_staged w ob' i'" if "(ob', i') \<noteq> (ob, i)" for ob' i'
    using assms(1)
  proof (cases rule: host_shape)
    case 1
    then show ?thesis
      using slot_cases [OF assms(3)] slot_cases [of i'] assms(2,5) that
      by (cases ob; cases ob'; cases "i' < 2") (auto simp: host_staged_def Let_def not_le)
  qed
  have "host_inv w' \<and> host_staged w' ob i = Some b"
    using assms(1)
  proof (cases rule: host_shape)
    case 1
    then show ?thesis
      using slot_cases [OF assms(3)] assms(2,4,5)
      by (cases ob) (auto simp: host_staged_def host_inv_def Let_def)
  qed
  moreover have "host_cell w' = host_cell w"
    using assms(5) by (simp add: host_cell_def fun_eq_iff Let_def)
  ultimately show ?thesis using other by blast
qed

lemma flush_order: "List.product [0..<2] [0..<2] = [(0, 0), (0, 1), (1, 0), (1, 1 :: nat)]"
  by code_simp

lemma host_flush_contract:
  assumes "host_inv w" and "w' = fold host_flush_cell (List.product [0..<2] [0..<2]) w"
  shows "host_inv w' \<and> host_staged w' ob i = None \<and>
    host_cell w' ob i = (case host_staged w ob i of None \<Rightarrow> host_cell w ob i | Some b \<Rightarrow> b)"
  using assms(1)
proof (cases rule: host_shape)
  case (1 a b c d e f g h p q r s)
  have w': "w' = w\<lparr>durable := [[if p = 0 then a else e, if q = 0 then b else f],
      [if r = 0 then c else g, if s = 0 then d else h]], pending_valid := [[0, 0], [0, 0]]\<rparr>"
    unfolding assms(2) flush_order using 1(1-3)
    by (cases w; cases "p = 0"; cases "q = 0"; cases "r = 0"; cases "s = 0")
      (simp_all add: host_flush_cell_def)
  have "host_inv w'" using 1 by (simp add: w' host_inv_def)
  moreover have "host_staged w' ob i = None"
    using slot_cases [of i] by (cases ob; cases "i < 2") (auto simp: w' host_staged_def not_le)
  moreover have "host_cell w' ob i = (case host_staged w ob i of None \<Rightarrow> host_cell w ob i | Some b \<Rightarrow> b)"
    using 1(1-3) slot_cases [of i]
    by (cases ob; cases "i < 2") (auto simp: w' host_staged_def host_cell_def not_le)
  ultimately show ?thesis by blast
qed

lemma host_reliable:
  assumes "length d = 32" and "d \<noteq> replicate 32 0"
  shows "reliable_store (host_journal d) host_inv host_cell host_staged"
proof unfold_locales
  have cell_160: "length (host_cell w ob i) = 160" if "host_inv w" "ob \<noteq> OBJECT_INVALID" "i < 2" for w ob i
    using that(1)
  proof (cases rule: host_shape)
    case 1
    then show ?thesis
      using that(2) slot_cases [OF that(3)] by (cases ob) (auto simp: host_cell_def)
  qed
  then show "length (host_cell w ob i) = 160" if "host_inv w" "ob \<noteq> OBJECT_INVALID" "i < 2" for w ob i
    using that .
  show "host_inv w' \<and> host_cell w' = host_cell w \<and> host_staged w' = host_staged w \<and>
      (st = PS_OK \<longrightarrow> b = host_cell w ob i)"
    if "host_inv w" "ob \<noteq> OBJECT_INVALID" "i < 2" "provider_read (host_journal d) ob i 160 w = (st, b, w')"
    for w ob i st b w'
    using that host_calls(1) [OF assms that(2,3), of w] cell_160 [OF that(1-3)] by auto
  show "host_inv w' \<and> (\<forall>ob' i'. (ob', i') \<noteq> (ob, i) \<longrightarrow> host_cell w' ob' i' = host_cell w ob' i' \<and>
      host_staged w' ob' i' = host_staged w ob' i') \<and> (st = PS_OK \<longrightarrow> host_staged w' ob i = Some b)"
    if "host_inv w" "ob \<noteq> OBJECT_INVALID" "i < 2" "length b = 160"
      "provider_write (host_journal d) ob i b w = (st, w')" for w ob i b st w'
    using host_write_contract [OF that(1-4), of w'] that(5) host_calls(2) [OF assms that(2-4), of w] by simp
  show "host_inv w' \<and> (\<forall>ob i. host_staged w ob i = None \<longrightarrow> host_cell w' ob i = host_cell w ob i \<and>
      host_staged w' ob i = None) \<and> (st = PS_OK \<longrightarrow> (\<forall>ob i. host_staged w' ob i = None \<and>
        (\<forall>b. host_staged w ob i = Some b \<longrightarrow> host_cell w' ob i = b)))"
    if "host_inv w" "provider_flush (host_journal d) w = (st, w')" for w st w'
    using host_flush_contract [OF that(1), of w'] that(2) host_calls(3) [OF assms, of w] by simp
qed (simp_all add: host_journal_valid assms host_calls, simp add: host_journal_def assms)

end
