(* ===== verification/Sha256_Eval.thy ===== *)
theory Sha256_Eval
  imports Sha256
begin

text \<open>
  Bit-level evaluation of SHA-256. Words are lists of 32 booleans, least significant bit first;
  every operation of the compression function has a counterpart on such lists that the simplifier
  computes quickly, and \<open>transform_bits\<close> shows that the two agree. Digests of concrete
  inputs are obtained from it.
\<close>

section \<open>Words as lists of bits\<close>

definition wbits :: "u32 \<Rightarrow> bool list" where
  "wbits w = map (bit w) [0..<32]"

fun bits_xor :: "bool list \<Rightarrow> bool list \<Rightarrow> bool list" where
  "bits_xor (x # xs) (y # ys) = (x \<noteq> y) # bits_xor xs ys"
| "bits_xor _ _ = []"

fun bits_choose :: "bool list \<Rightarrow> bool list \<Rightarrow> bool list \<Rightarrow> bool list" where
  "bits_choose (x # xs) (y # ys) (z # zs) = (if x then y else z) # bits_choose xs ys zs"
| "bits_choose _ _ _ = []"

fun bits_majority :: "bool list \<Rightarrow> bool list \<Rightarrow> bool list \<Rightarrow> bool list" where
  "bits_majority (x # xs) (y # ys) (z # zs) =
     (if x then y \<or> z else y \<and> z) # bits_majority xs ys zs"
| "bits_majority _ _ _ = []"

text \<open>Ripple-carry addition; the carry out of the last position is dropped.\<close>

fun bits_add :: "bool \<Rightarrow> bool list \<Rightarrow> bool list \<Rightarrow> bool list" where
  "bits_add c (x # xs) (y # ys) =
     (if x then (if y then c # bits_add True xs ys else (\<not> c) # bits_add c xs ys)
      else (if y then (\<not> c) # bits_add c xs ys else c # bits_add False xs ys))"
| "bits_add _ _ _ = []"

definition bits_rotate :: "nat \<Rightarrow> bool list \<Rightarrow> bool list" where
  "bits_rotate n xs = drop n xs @ take n xs"

definition bits_shift :: "nat \<Rightarrow> bool list \<Rightarrow> bool list" where
  "bits_shift n xs = drop n xs @ replicate n False"

lemma length_wbits [simp]: "length (wbits w) = 32"
  by (simp add: wbits_def)

lemma nth_wbits [simp]: "i < 32 \<Longrightarrow> wbits w ! i = bit w i"
  by (simp add: wbits_def)

lemma wbits_inject: "wbits v = wbits w \<longleftrightarrow> v = w"
proof
  assume eq: "wbits v = wbits w"
  show "v = w"
  proof (rule bit_word_eqI)
    fix n
    assume "n < LENGTH(32)"
    then show "bit v n = bit w n" using arg_cong [OF eq, of "\<lambda>bs. bs ! n"] by simp
  qed
qed simp

lemma bits_xor_map2: "length xs = length ys \<Longrightarrow> bits_xor xs ys = map2 (\<noteq>) xs ys"
  by (induction xs ys rule: list_induct2) auto

lemma bits_choose_map:
  "length xs = length ys \<Longrightarrow> length ys = length zs \<Longrightarrow>
     bits_choose xs ys zs = map (\<lambda>i. if xs ! i then ys ! i else zs ! i) [0..<length xs]"
  by (induction xs ys zs rule: list_induct3) (auto simp: upt_conv_Cons map_Suc_upt [symmetric] simp del: upt_Suc)

lemma bits_majority_map:
  "length xs = length ys \<Longrightarrow> length ys = length zs \<Longrightarrow>
     bits_majority xs ys zs =
       map (\<lambda>i. if xs ! i then ys ! i \<or> zs ! i else ys ! i \<and> zs ! i) [0..<length xs]"
  by (induction xs ys zs rule: list_induct3) (auto simp: upt_conv_Cons map_Suc_upt [symmetric] simp del: upt_Suc)

lemma wbits_xor: "wbits (v XOR w) = bits_xor (wbits v) (wbits w)"
  by (rule nth_equalityI) (simp_all add: bits_xor_map2 bit_simps)

lemma wbits_choose: "wbits ((e AND f) XOR (NOT e AND g)) = bits_choose (wbits e) (wbits f) (wbits g)"
  by (rule nth_equalityI) (auto simp: bits_choose_map bit_simps)

lemma wbits_majority:
  "wbits ((a AND b) XOR (a AND c) XOR (b AND c)) = bits_majority (wbits a) (wbits b) (wbits c)"
  by (rule nth_equalityI) (auto simp: bits_majority_map bit_simps)

lemma wbits_rotate_right: "n < 32 \<Longrightarrow> wbits (rotate_right w n) = bits_rotate n (wbits w)"
  by (rule nth_equalityI)
    (auto simp: bits_rotate_def rotate_right_def bit_simps nth_append dest: bit_imp_le_length)

lemma wbits_drop_bit: "n < 32 \<Longrightarrow> wbits (drop_bit n w) = bits_shift n (wbits w)"
  by (rule nth_equalityI)
    (auto simp: bits_shift_def bit_simps nth_append dest: bit_imp_le_length)

lemma length_bits_add: "length xs = length ys \<Longrightarrow> length (bits_add c xs ys) = length xs"
  by (induction xs ys arbitrary: c rule: list_induct2) auto

lemma bits_add_Cons:
  "bits_add c (x # xs) (y # ys) = ((x \<noteq> y) \<noteq> c) # bits_add (if x then y \<or> c else y \<and> c) xs ys"
  by (cases x; cases y; cases c) simp_all

lemma bit_double_mod: "of_bool b + 2 * (t mod m) = (of_bool b + 2 * t) mod (2 * m)" for t m :: nat
  by (cases b) (simp_all add: mod_mult2_eq div_mult2_eq)

lemma bits_add_value:
  "length xs = length ys \<Longrightarrow>
     (horner_sum of_bool 2 (bits_add c xs ys) :: nat) =
       (horner_sum of_bool 2 xs + horner_sum of_bool 2 ys + of_bool c) mod 2 ^ length xs"
proof (induction xs ys arbitrary: c rule: list_induct2)
  case (Cons x xs y ys)
  let ?b = "(x \<noteq> y) \<noteq> c" and ?d = "if x then y \<or> c else y \<and> c"
  let ?X = "horner_sum of_bool 2 xs :: nat" and ?Y = "horner_sum of_bool 2 ys :: nat"
  have "horner_sum of_bool 2 (bits_add c (x # xs) (y # ys)) =
      of_bool ?b + 2 * ((?X + ?Y + of_bool ?d) mod 2 ^ length xs)"
    unfolding bits_add_Cons horner_sum_simps Cons.IH ..
  also have "\<dots> = (of_bool ?b + 2 * (?X + ?Y + of_bool ?d)) mod (2 * 2 ^ length xs)"
    by (rule bit_double_mod)
  also have "of_bool ?b + 2 * (?X + ?Y + of_bool ?d) =
      of_bool x + 2 * ?X + (of_bool y + 2 * ?Y) + of_bool c"
    by (cases x; cases y; cases c) simp_all
  finally show ?case by (simp only: horner_sum_simps length_Cons power_Suc)
qed simp

lemma horner_wbits: "horner_sum of_bool 2 (wbits w) = unat w"
proof -
  have "horner_sum of_bool 2 (wbits w) = (horner_sum of_bool 2 (map (bit (unat w)) [0..<32]) :: nat)"
    by (simp add: wbits_def bit_unsigned_iff map_eq_conv cong: map_cong)
  then show ?thesis
    using unat_bound [of w] by (simp add: horner_sum_bit_eq_take_bit take_bit_nat_eq_self)
qed

lemma wbits_eqI: "length bs = 32 \<Longrightarrow> horner_sum of_bool 2 bs = unat w \<Longrightarrow> wbits w = bs"
proof (rule nth_equalityI)
  fix i
  assume len: "length bs = 32" and val: "horner_sum of_bool 2 bs = unat w"
  assume i: "i < length (wbits w)"
  have "bit (horner_sum of_bool 2 bs :: nat) i \<longleftrightarrow> i < length bs \<and> bs ! i"
    by (simp only: bit_horner_sum_bit_iff) simp
  then show "wbits w ! i = bs ! i"
    using i len unfolding val by (simp add: bit_unsigned_iff)
qed simp

lemma wbits_add: "wbits (v + w) = bits_add False (wbits v) (wbits w)"
  by (rule wbits_eqI) (simp_all add: length_bits_add bits_add_value horner_wbits unat_word_ariths)

section \<open>The compression function on bits\<close>

definition bits_Sigma1 :: "bool list \<Rightarrow> bool list" where
  "bits_Sigma1 e = bits_xor (bits_rotate 6 e) (bits_xor (bits_rotate 11 e) (bits_rotate 25 e))"

definition bits_Sigma0 :: "bool list \<Rightarrow> bool list" where
  "bits_Sigma0 a = bits_xor (bits_rotate 2 a) (bits_xor (bits_rotate 13 a) (bits_rotate 22 a))"

definition bits_sigma0 :: "bool list \<Rightarrow> bool list" where
  "bits_sigma0 w = bits_xor (bits_rotate 7 w) (bits_xor (bits_rotate 18 w) (bits_shift 3 w))"

definition bits_sigma1 :: "bool list \<Rightarrow> bool list" where
  "bits_sigma1 w = bits_xor (bits_rotate 17 w) (bits_xor (bits_rotate 19 w) (bits_shift 10 w))"

abbreviation bits_plus :: "bool list \<Rightarrow> bool list \<Rightarrow> bool list" where
  "bits_plus \<equiv> bits_add False"

text \<open>
  The message schedule keeps its last sixteen words in a window and emits the oldest one; the
  driver list has one element per word still to be computed.
\<close>

fun bits_schedule :: "'a list \<Rightarrow> bool list list \<Rightarrow> bool list list" where
  "bits_schedule (u # us) (w0 # ws) =
     w0 # bits_schedule us (ws @ [bits_plus (bits_plus (bits_plus w0 (bits_sigma0 (ws ! 0))) (ws ! 8))
                                    (bits_sigma1 (ws ! 13))])"
| "bits_schedule _ ws = ws"

definition bits_next ::
  "bool list \<Rightarrow> bool list \<Rightarrow> bool list \<Rightarrow> bool list \<Rightarrow> bool list \<Rightarrow> bool list \<Rightarrow>
   bool list \<Rightarrow> bool list \<Rightarrow> bool list \<Rightarrow> bool list list"
where
  "bits_next first second a b c d e f g =
     [bits_plus first second, a, b, c, bits_plus d first, e, f, g]"

fun bits_round :: "bool list list \<Rightarrow> bool list \<times> bool list \<Rightarrow> bool list list" where
  "bits_round [a, b, c, d, e, f, g, h] (k, w) =
     bits_next
       (bits_plus (bits_plus (bits_plus (bits_plus h (bits_Sigma1 e)) (bits_choose e f g)) k) w)
       (bits_plus (bits_Sigma0 a) (bits_majority a b c)) a b c d e f g"
| "bits_round v _ = v"

lemma wbits_Sigma1:
  "wbits (rotate_right e 6 XOR rotate_right e 11 XOR rotate_right e 25) = bits_Sigma1 (wbits e)"
  by (simp add: wbits_xor wbits_rotate_right bits_Sigma1_def)

lemma wbits_Sigma0:
  "wbits (rotate_right a 2 XOR rotate_right a 13 XOR rotate_right a 22) = bits_Sigma0 (wbits a)"
  by (simp add: wbits_xor wbits_rotate_right bits_Sigma0_def)

lemma wbits_sigma0:
  "wbits (rotate_right w 7 XOR rotate_right w 18 XOR drop_bit 3 w) = bits_sigma0 (wbits w)"
  by (simp add: wbits_xor wbits_rotate_right wbits_drop_bit bits_sigma0_def)

lemma wbits_sigma1:
  "wbits (rotate_right w 17 XOR rotate_right w 19 XOR drop_bit 10 w) = bits_sigma1 (wbits w)"
  by (simp add: wbits_xor wbits_rotate_right wbits_drop_bit bits_sigma1_def)

lemma wbits_first:
  "wbits (sha_first e f g h k w) =
     bits_plus (bits_plus (bits_plus (bits_plus (wbits h) (bits_Sigma1 (wbits e)))
       (bits_choose (wbits e) (wbits f) (wbits g))) (wbits k)) (wbits w)"
  unfolding sha_first_def wbits_add wbits_Sigma1 wbits_choose ..

lemma wbits_second:
  "wbits (sha_second a b c) =
     bits_plus (bits_Sigma0 (wbits a)) (bits_majority (wbits a) (wbits b) (wbits c))"
  unfolding sha_second_def wbits_add wbits_Sigma0 wbits_majority ..

fun vars_list :: "sha_vars \<Rightarrow> u32 list" where
  "vars_list (a, b, c, d, e, f, g, h) = [a, b, c, d, e, f, g, h]"

lemma bits_rounds_fold:
  "map wbits (vars_list (fold sha_round kws v)) =
     foldl bits_round (map wbits (vars_list v)) (map (map_prod wbits wbits) kws)"
proof (induction kws arbitrary: v)
  case (Cons kw kws)
  obtain k w where kw: "kw = (k, w)" by fastforce
  have "map wbits (vars_list (sha_round kw v)) = bits_round (map wbits (vars_list v)) (wbits k, wbits w)"
    unfolding kw
    by (cases v rule: vars_list.cases)
      (simp add: Let_def bits_next_def wbits_first wbits_second wbits_add del: bits_add.simps)
  then show ?case
    using Cons.IH by (simp add: kw)
qed simp

lemma schedule_word_window:
  assumes "length pre = n" and "length win = 16"
  shows "wbits (sha_schedule_word (pre @ win) (16 + n)) =
    bits_plus (bits_plus (bits_plus (wbits (win ! 0)) (bits_sigma0 (wbits (win ! 1)))) (wbits (win ! 9)))
      (bits_sigma1 (wbits (win ! 14)))"
proof -
  have "(pre @ win) ! (16 + n - 16) = win ! 0" "(pre @ win) ! (16 + n - 15) = win ! 1"
      "(pre @ win) ! (16 + n - 7) = win ! 9" "(pre @ win) ! (16 + n - 2) = win ! 14"
    using assms by (simp_all add: nth_append)
  then show ?thesis
    unfolding sha_schedule_word_def Let_def wbits_add wbits_sigma0 wbits_sigma1 by (simp only:)
qed

lemma bits_schedule_fold:
  "length us + n = 48 \<Longrightarrow> length pre = n \<Longrightarrow> length win = 16 \<Longrightarrow>
     map wbits (fold (\<lambda>index ws. ws @ [sha_schedule_word ws index]) [16 + n..<64] (pre @ win)) =
       map wbits pre @ bits_schedule us (map wbits win)"
proof (induction us arbitrary: n pre win)
  case (Cons u us)
  let ?new = "sha_schedule_word (pre @ win) (16 + n)"
  obtain w0 ws where win: "win = w0 # ws" "length ws = 15"
    using Cons.prems(3) by (cases win) auto
  have "[16 + n..<64] = (16 + n) # [16 + Suc n..<64]"
    using Cons.prems(1) by (simp add: upt_conv_Cons)
  moreover have "wbits ?new = bits_plus (bits_plus (bits_plus (wbits w0) (bits_sigma0 (wbits (ws ! 0))))
      (wbits (ws ! 8))) (bits_sigma1 (wbits (ws ! 13)))"
    using schedule_word_window [OF Cons.prems(2,3)] win(1) by (simp add: nth_Cons')
  moreover have "map wbits (fold (\<lambda>index ws. ws @ [sha_schedule_word ws index]) [16 + Suc n..<64]
      ((pre @ [w0]) @ ws @ [?new])) =
      map wbits (pre @ [w0]) @ bits_schedule us (map wbits (ws @ [?new]))"
    using Cons.prems win(2) by (intro Cons.IH) simp_all
  ultimately show ?case
    using win by (simp del: bits_add.simps)
next
  case Nil
  then show ?case by (cases "map wbits win") simp_all
qed

lemma rounds_zip:
  assumes "length ws = 64"
  shows "fold (\<lambda>index. sha_round (sha_constants ! index, ws ! index)) [0..<64] v =
    fold sha_round (zip sha_constants ws) v"
proof -
  have "zip sha_constants ws = map (\<lambda>index. (sha_constants ! index, ws ! index)) [0..<64]"
    using assms by (intro nth_equalityI) (simp_all add: sha_constants_def)
  then show ?thesis by (simp add: fold_map comp_def)
qed

text \<open>A 64-byte block as sixteen big-endian words.\<close>

definition byte_bits :: "u8 \<Rightarrow> bool list" where
  "byte_bits b = map (bit b) [0..<8]"

fun block_bits :: "u8 list \<Rightarrow> bool list list" where
  "block_bits (b0 # b1 # b2 # b3 # bs) =
     (byte_bits b3 @ byte_bits b2 @ byte_bits b1 @ byte_bits b0) # block_bits bs"
| "block_bits _ = []"

lemma wbits_load_word:
  "wbits (sha_load_word block k) =
     byte_bits (block ! (k + 3)) @ byte_bits (block ! (k + 2)) @ byte_bits (block ! (k + 1)) @
     byte_bits (block ! k)"
proof (rule nth_equalityI)
  fix i
  assume "i < length (wbits (sha_load_word block k))"
  then consider "i < 8" | "8 \<le> i" "i < 16" | "16 \<le> i" "i < 24" | "24 \<le> i" "i < 32"
    by fastforce
  then show "wbits (sha_load_word block k) ! i = (byte_bits (block ! (k + 3)) @
      byte_bits (block ! (k + 2)) @ byte_bits (block ! (k + 1)) @ byte_bits (block ! k)) ! i"
    by cases (auto simp: byte_bits_def sha_load_word_def bit_simps nth_append less_diff_conv2
        dest: bit_imp_le_length)
qed (simp add: byte_bits_def)

lemma block_bits_load:
  "length block = 4 * n \<Longrightarrow>
     map (\<lambda>index. wbits (sha_load_word block (index * 4))) [0..<n] = block_bits block"
proof (induction n arbitrary: block)
  case (Suc n)
  obtain b0 b1 b2 b3 bs where block: "block = b0 # b1 # b2 # b3 # bs" and len: "length bs = 4 * n"
  proof -
    have "length block = Suc (Suc (Suc (Suc (4 * n))))" using Suc.prems by simp
    then show ?thesis using that by (auto simp: length_Suc_conv)
  qed
  have "wbits (sha_load_word block (Suc index * 4)) = wbits (sha_load_word bs (index * 4))" for index
    by (simp add: wbits_load_word block add.commute)
  then have "map (\<lambda>index. wbits (sha_load_word block (index * 4))) [0..<Suc n] =
      wbits (sha_load_word block 0) # block_bits bs"
    using Suc.IH [OF len] by (simp add: upt_conv_Cons map_Suc_upt [symmetric] comp_def del: upt_Suc)
  then show ?case by (simp add: wbits_load_word block)
qed simp

definition bits_transform :: "bool list list \<Rightarrow> bool list list \<Rightarrow> bool list list" where
  "bits_transform state ws =
     map2 bits_plus state
       (foldl bits_round state (zip (map wbits sha_constants) (bits_schedule (replicate 48 ()) ws)))"

lemma map_prod_zip: "map (map_prod f g) (zip xs ys) = zip (map f xs) (map g ys)"
  by (simp add: zip_map_map map_prod_def)

lemma length_sha_words: "length (sha_words block) = 64"
proof -
  have "length (fold (\<lambda>index ws. ws @ [sha_schedule_word ws index]) is ws) = length ws + length is"
    for "is" ws by (induction "is" arbitrary: ws) simp_all
  then show ?thesis unfolding sha_words_def by (simp only: length_upt length_map)
qed

lemma wbits_sha_words:
  assumes "length block = 64"
  shows "map wbits (sha_words block) = bits_schedule (replicate 48 ()) (block_bits block)"
proof -
  let ?ws = "map (\<lambda>index. sha_load_word block (index * 4)) [0..<16]"
  have "map wbits (sha_words block) = bits_schedule (replicate 48 ()) (map wbits ?ws)"
    using bits_schedule_fold [of "replicate 48 ()" 0 "[]" ?ws] unfolding sha_words_def
    by (simp only: length_replicate length_map length_upt list.size append_Nil list.map add_0_right
        diff_zero simp_thms)
  moreover have "map wbits ?ws = block_bits block"
    using block_bits_load [of block 16] assms unfolding map_map comp_def by simp
  ultimately show ?thesis by (simp only:)
qed

lemma transform_bits:
  assumes "length state = 8" and "length block = 64"
  shows "map wbits (transform state block) = bits_transform (map wbits state) (block_bits block)"
proof -
  obtain a b c d e f g h where abc: "state = [a, b, c, d, e, f, g, h]"
    using assms(1) by (auto simp: length_Suc_conv numeral_eq_Suc)
  let ?v = "fold sha_round (zip sha_constants (sha_words block)) (a, b, c, d, e, f, g, h)"
  have "map wbits (transform state block) = map2 bits_plus (map wbits state) (map wbits (vars_list ?v))"
    unfolding transform_def sha_rounds_def rounds_zip [OF length_sha_words] abc
    by (cases ?v rule: vars_list.cases) (simp add: wbits_add del: bits_add.simps)
  then show ?thesis
    using assms(2)
    by (simp add: bits_rounds_fold bits_transform_def map_prod_zip wbits_sha_words abc
        del: bits_add.simps bits_round.simps)
qed

lemma sha_process_bits:
  "length state = 8 \<Longrightarrow> \<forall>b \<in> set blocks. length b = 64 \<Longrightarrow>
     map wbits (sha_process state (concat blocks)) =
       foldl bits_transform (map wbits state) (map block_bits blocks)"
proof (induction blocks arbitrary: state)
  case (Cons b blocks)
  then have "sha_process state (concat (b # blocks)) = sha_process (transform state b) (concat blocks)"
    by (subst sha_process.simps) simp
  then show ?case
    using Cons by (simp add: transform_bits)
qed (simp, subst sha_process.simps, simp)

section \<open>Evaluation rules\<close>

text \<open>The bits of a numeral, as many as the driver list has elements.\<close>

fun num_bits :: "'a list \<Rightarrow> num \<Rightarrow> bool list" where
  "num_bits [] n = []"
| "num_bits (u # us) num.One = True # map (\<lambda>_. False) us"
| "num_bits (u # us) (num.Bit0 n) = False # num_bits us n"
| "num_bits (u # us) (num.Bit1 n) = True # num_bits us n"

lemma num_bits_nat: "map (bit (numeral n :: nat)) [0..<length us] = num_bits us n"
proof (induction us n rule: num_bits.induct)
  case (2 u us)
  have "map (bit (1 :: nat)) [0..<Suc (length us)] = True # map (\<lambda>_. False) [0..<length us]"
    by (simp add: upt_conv_Cons map_Suc_upt [symmetric] bit_1_iff bit_Suc_0_iff comp_def del: upt_Suc)
  then show ?case by (simp add: map_replicate_const)
next
  case (3 u us n)
  then show ?case
    by (simp add: upt_conv_Cons map_Suc_upt [symmetric] comp_def bit_Suc del: upt_Suc)
next
  case (4 u us n)
  then show ?case
    by (simp add: upt_conv_Cons map_Suc_upt [symmetric] comp_def bit_Suc del: upt_Suc)
qed simp

lemma word_num_bits:
  "length us = LENGTH('a) \<Longrightarrow> map (bit (numeral n :: 'a::len word)) [0..<LENGTH('a)] = num_bits us n"
proof -
  assume len: "length us = LENGTH('a)"
  have "bit (numeral n :: 'a word) i = bit (numeral n :: nat) i" if "i < LENGTH('a)" for i
    using that bit_numeral_word_iff [of n i, where 'a = 'a] bit_of_nat_iff_bit [of "numeral n" i, where 'a = int]
    by simp
  then have "map (bit (numeral n :: 'a word)) [0..<LENGTH('a)] =
      map (bit (numeral n :: nat)) [0..<length us]"
    unfolding len by (intro map_cong) (simp_all del: bit_numeral_word_iff)
  then show ?thesis by (simp only: num_bits_nat)
qed

definition ticks8 :: "unit list" where "ticks8 = [(), (), (), (), (), (), (), ()]"

definition ticks32 :: "unit list" where "ticks32 = ticks8 @ ticks8 @ ticks8 @ ticks8"

lemma wbits_numeral: "wbits (numeral n) = num_bits ticks32 n"
  using word_num_bits [of ticks32 n, where 'a = 32] by (simp add: wbits_def ticks32_def ticks8_def)

lemma byte_bits_numeral:
  "byte_bits 0 = [False, False, False, False, False, False, False, False]"
  "byte_bits 1 = [True, False, False, False, False, False, False, False]"
  "byte_bits (numeral n) = num_bits ticks8 n"
proof -
  show "byte_bits (numeral n) = num_bits ticks8 n" for n
    using word_num_bits [of ticks8 n, where 'a = 8] by (simp add: byte_bits_def ticks8_def)
  from this [of num.One] show "byte_bits 1 = [True, False, False, False, False, False, False, False]"
    by (simp add: ticks8_def)
qed (simp add: byte_bits_def upt_rec)

lemma replicate_48: "replicate 48 () = ticks32 @ ticks8 @ ticks8"
  by (simp add: ticks32_def ticks8_def numeral_eq_Suc)

lemma nth_Cons_pred: "(x # xs) ! numeral v = xs ! pred_numeral v"
  by (simp add: numeral_eq_Suc)

text \<open>Addition, one rule per combination of bits, so that no branch is left to explore.\<close>

lemma bits_add_eval:
  "bits_add False (False # xs) (False # ys) = False # bits_add False xs ys"
  "bits_add False (False # xs) (True # ys) = True # bits_add False xs ys"
  "bits_add False (True # xs) (False # ys) = True # bits_add False xs ys"
  "bits_add False (True # xs) (True # ys) = False # bits_add True xs ys"
  "bits_add True (False # xs) (False # ys) = True # bits_add False xs ys"
  "bits_add True (False # xs) (True # ys) = False # bits_add True xs ys"
  "bits_add True (True # xs) (False # ys) = False # bits_add True xs ys"
  "bits_add True (True # xs) (True # ys) = True # bits_add True xs ys"
  "bits_add c [] [] = []"
  by simp_all

lemma bits_Sigma1_eval:
  "bits_Sigma1
     [x0, x1, x2, x3, x4, x5, x6, x7, x8, x9, x10, x11, x12, x13, x14, x15, x16, x17, x18, x19,
      x20, x21, x22, x23, x24, x25, x26, x27, x28, x29, x30, x31] =
     [x6 \<noteq> (x11 \<noteq> x25), x7 \<noteq> (x12 \<noteq> x26), x8 \<noteq> (x13 \<noteq>
      x27), x9 \<noteq> (x14 \<noteq> x28), x10 \<noteq> (x15 \<noteq> x29), x11 \<noteq> (x16
      \<noteq> x30), x12 \<noteq> (x17 \<noteq> x31), x13 \<noteq> (x18 \<noteq> x0), x14 \<noteq>
      (x19 \<noteq> x1), x15 \<noteq> (x20 \<noteq> x2), x16 \<noteq> (x21 \<noteq> x3), x17
      \<noteq> (x22 \<noteq> x4), x18 \<noteq> (x23 \<noteq> x5), x19 \<noteq> (x24 \<noteq> x6),
      x20 \<noteq> (x25 \<noteq> x7), x21 \<noteq> (x26 \<noteq> x8), x22 \<noteq> (x27 \<noteq>
      x9), x23 \<noteq> (x28 \<noteq> x10), x24 \<noteq> (x29 \<noteq> x11), x25 \<noteq> (x30
      \<noteq> x12), x26 \<noteq> (x31 \<noteq> x13), x27 \<noteq> (x0 \<noteq> x14), x28 \<noteq>
      (x1 \<noteq> x15), x29 \<noteq> (x2 \<noteq> x16), x30 \<noteq> (x3 \<noteq> x17), x31
      \<noteq> (x4 \<noteq> x18), x0 \<noteq> (x5 \<noteq> x19), x1 \<noteq> (x6 \<noteq> x20), x2
      \<noteq> (x7 \<noteq> x21), x3 \<noteq> (x8 \<noteq> x22), x4 \<noteq> (x9 \<noteq> x23), x5
      \<noteq> (x10 \<noteq> x24)]"
  by (simp add: bits_Sigma1_def bits_rotate_def bits_shift_def)

lemma bits_Sigma0_eval:
  "bits_Sigma0
     [x0, x1, x2, x3, x4, x5, x6, x7, x8, x9, x10, x11, x12, x13, x14, x15, x16, x17, x18, x19,
      x20, x21, x22, x23, x24, x25, x26, x27, x28, x29, x30, x31] =
     [x2 \<noteq> (x13 \<noteq> x22), x3 \<noteq> (x14 \<noteq> x23), x4 \<noteq> (x15 \<noteq>
      x24), x5 \<noteq> (x16 \<noteq> x25), x6 \<noteq> (x17 \<noteq> x26), x7 \<noteq> (x18
      \<noteq> x27), x8 \<noteq> (x19 \<noteq> x28), x9 \<noteq> (x20 \<noteq> x29), x10 \<noteq>
      (x21 \<noteq> x30), x11 \<noteq> (x22 \<noteq> x31), x12 \<noteq> (x23 \<noteq> x0), x13
      \<noteq> (x24 \<noteq> x1), x14 \<noteq> (x25 \<noteq> x2), x15 \<noteq> (x26 \<noteq> x3),
      x16 \<noteq> (x27 \<noteq> x4), x17 \<noteq> (x28 \<noteq> x5), x18 \<noteq> (x29 \<noteq>
      x6), x19 \<noteq> (x30 \<noteq> x7), x20 \<noteq> (x31 \<noteq> x8), x21 \<noteq> (x0
      \<noteq> x9), x22 \<noteq> (x1 \<noteq> x10), x23 \<noteq> (x2 \<noteq> x11), x24 \<noteq>
      (x3 \<noteq> x12), x25 \<noteq> (x4 \<noteq> x13), x26 \<noteq> (x5 \<noteq> x14), x27
      \<noteq> (x6 \<noteq> x15), x28 \<noteq> (x7 \<noteq> x16), x29 \<noteq> (x8 \<noteq> x17),
      x30 \<noteq> (x9 \<noteq> x18), x31 \<noteq> (x10 \<noteq> x19), x0 \<noteq> (x11 \<noteq>
      x20), x1 \<noteq> (x12 \<noteq> x21)]"
  by (simp add: bits_Sigma0_def bits_rotate_def bits_shift_def)

lemma bits_sigma0_eval:
  "bits_sigma0
     [x0, x1, x2, x3, x4, x5, x6, x7, x8, x9, x10, x11, x12, x13, x14, x15, x16, x17, x18, x19,
      x20, x21, x22, x23, x24, x25, x26, x27, x28, x29, x30, x31] =
     [x7 \<noteq> (x18 \<noteq> x3), x8 \<noteq> (x19 \<noteq> x4), x9 \<noteq> (x20 \<noteq> x5),
      x10 \<noteq> (x21 \<noteq> x6), x11 \<noteq> (x22 \<noteq> x7), x12 \<noteq> (x23 \<noteq>
      x8), x13 \<noteq> (x24 \<noteq> x9), x14 \<noteq> (x25 \<noteq> x10), x15 \<noteq> (x26
      \<noteq> x11), x16 \<noteq> (x27 \<noteq> x12), x17 \<noteq> (x28 \<noteq> x13), x18
      \<noteq> (x29 \<noteq> x14), x19 \<noteq> (x30 \<noteq> x15), x20 \<noteq> (x31 \<noteq>
      x16), x21 \<noteq> (x0 \<noteq> x17), x22 \<noteq> (x1 \<noteq> x18), x23 \<noteq> (x2
      \<noteq> x19), x24 \<noteq> (x3 \<noteq> x20), x25 \<noteq> (x4 \<noteq> x21), x26 \<noteq>
      (x5 \<noteq> x22), x27 \<noteq> (x6 \<noteq> x23), x28 \<noteq> (x7 \<noteq> x24), x29
      \<noteq> (x8 \<noteq> x25), x30 \<noteq> (x9 \<noteq> x26), x31 \<noteq> (x10 \<noteq> x27),
      x0 \<noteq> (x11 \<noteq> x28), x1 \<noteq> (x12 \<noteq> x29), x2 \<noteq> (x13 \<noteq>
      x30), x3 \<noteq> (x14 \<noteq> x31), x4 \<noteq> x15, x5 \<noteq> x16, x6 \<noteq> x17]"
  by (simp add: bits_sigma0_def bits_rotate_def bits_shift_def numeral_eq_Suc)

lemma bits_sigma1_eval:
  "bits_sigma1
     [x0, x1, x2, x3, x4, x5, x6, x7, x8, x9, x10, x11, x12, x13, x14, x15, x16, x17, x18, x19,
      x20, x21, x22, x23, x24, x25, x26, x27, x28, x29, x30, x31] =
     [x17 \<noteq> (x19 \<noteq> x10), x18 \<noteq> (x20 \<noteq> x11), x19 \<noteq> (x21 \<noteq>
      x12), x20 \<noteq> (x22 \<noteq> x13), x21 \<noteq> (x23 \<noteq> x14), x22 \<noteq> (x24
      \<noteq> x15), x23 \<noteq> (x25 \<noteq> x16), x24 \<noteq> (x26 \<noteq> x17), x25
      \<noteq> (x27 \<noteq> x18), x26 \<noteq> (x28 \<noteq> x19), x27 \<noteq> (x29 \<noteq>
      x20), x28 \<noteq> (x30 \<noteq> x21), x29 \<noteq> (x31 \<noteq> x22), x30 \<noteq> (x0
      \<noteq> x23), x31 \<noteq> (x1 \<noteq> x24), x0 \<noteq> (x2 \<noteq> x25), x1 \<noteq>
      (x3 \<noteq> x26), x2 \<noteq> (x4 \<noteq> x27), x3 \<noteq> (x5 \<noteq> x28), x4 \<noteq>
      (x6 \<noteq> x29), x5 \<noteq> (x7 \<noteq> x30), x6 \<noteq> (x8 \<noteq> x31), x7 \<noteq>
      x9, x8 \<noteq> x10, x9 \<noteq> x11, x10 \<noteq> x12, x11 \<noteq> x13, x12 \<noteq> x14,
      x13 \<noteq> x15, x14 \<noteq> x16, x15 \<noteq> x17, x16 \<noteq> x18]"
  by (simp add: bits_sigma1_def bits_rotate_def bits_shift_def numeral_eq_Suc)

text \<open>The rules that compute a digest; they are used alone, so that nothing else is tried.\<close>

lemmas sha_eval =
  bits_transform_def foldl_Cons foldl_Nil bits_round.simps bits_next_def
  bits_add_eval bits_choose.simps bits_majority.simps bits_Sigma1_eval bits_Sigma0_eval
  bits_sigma0_eval bits_sigma1_eval bits_schedule.simps
  num_bits.simps ticks8_def ticks32_def replicate_48 wbits_numeral byte_bits_numeral block_bits.simps
  append_Cons append_Nil list.map zip_Cons_Cons zip_Nil list.case prod.case
  nth_Cons_0 nth_Cons_pred pred_numeral_simps BitM.simps sha_constants_def concat.simps
  if_True if_False simp_thms

text \<open>From the bits of the final state back to the digest.\<close>

definition bits_word :: "bool list \<Rightarrow> u32" where
  "bits_word bs = horner_sum of_bool 2 bs"

lemma bits_word_wbits: "bits_word (wbits w) = w"
proof (rule bit_word_eqI)
  fix n
  assume "n < LENGTH(32)"
  then show "bit (bits_word (wbits w)) n = bit w n"
    by (simp add: bits_word_def bit_horner_sum_bit_iff)
qed

lemma sha256_bits:
  assumes "sha_pad m = concat blocks" and "\<forall>b \<in> set blocks. length b = 64"
  shows "ribon_security_sha256 m (length m) =
    concat (map (sha_word_bytes \<circ> bits_word)
      (foldl bits_transform (map wbits (sha_state sha_initial)) (map block_bits blocks)))"
proof -
  have "foldl bits_transform (map wbits (sha_state sha_initial)) (map block_bits blocks) =
      map wbits (sha_process (sha_state sha_initial) (sha_pad m))"
    using sha_process_bits [of "sha_state sha_initial" blocks] assms by (simp add: sha_initial_def)
  then show ?thesis
    by (simp add: sha256_eq_reference sha256_reference_def bits_word_wbits comp_def)
qed

section \<open>Properties\<close>

text \<open>
  C13. The streaming implementation, which buffers partial blocks and pads in two further
  updates, computes the digest of the padded message taken 64 bytes at a time, for every message.
\<close>

theorem sha256_streaming_is_blockwise:
  "ribon_security_sha256 bytes (length bytes) = sha256_reference bytes"
  by (rule sha256_eq_reference)

lemma sha_pad_abc:
  "sha_pad [0x61, 0x62, 0x63] = concat [[0x61, 0x62, 0x63, 0x80,
     0, 0, 0, 0, 0, 0, 0, 0, 0, 0, 0, 0, 0, 0, 0, 0, 0, 0, 0, 0, 0, 0, 0, 0, 0, 0, 0, 0, 0, 0,
     0, 0, 0, 0, 0, 0, 0, 0, 0, 0, 0, 0, 0, 0, 0, 0, 0, 0, 0, 0, 0, 0, 0, 0, 0, 0, 0, 0, 0, 24]]"
  by code_simp

lemma sha_state_abc:
  "foldl bits_transform (map wbits (sha_state sha_initial)) [block_bits [0x61, 0x62, 0x63, 0x80,
     0, 0, 0, 0, 0, 0, 0, 0, 0, 0, 0, 0, 0, 0, 0, 0, 0, 0, 0, 0, 0, 0, 0, 0, 0, 0, 0, 0, 0, 0,
     0, 0, 0, 0, 0, 0, 0, 0, 0, 0, 0, 0, 0, 0, 0, 0, 0, 0, 0, 0, 0, 0, 0, 0, 0, 0, 0, 0, 0, 24]] =
   map wbits [0xba7816bf, 0x8f01cfea, 0x414140de, 0x5dae2223, 0xb00361a3, 0x96177a9c, 0xb410ff61, 0xf20015ad]"
  unfolding sha_initial_def RibonSecuritySha256.select_convs by (simp only: sha_eval)


end
