(* ===== verification/Crc_Eval.thy ===== *)
theory Crc_Eval
  imports Sha256_Eval
begin

text \<open>
  Bit-level evaluation of the CRC-32C, on the same lists of booleans as the digests: one rule per
  step of the shift register, so that checksums of concrete buffers are computed by rewriting.
\<close>

section \<open>The shift register\<close>

definition bits_crc_step :: "bool list \<Rightarrow> bool list" where
  "bits_crc_step bs =
     (if hd bs then bits_xor (tl bs @ [False]) (wbits 0x82f63b78) else tl bs @ [False])"

fun bits_xor_prefix :: "bool list \<Rightarrow> bool list \<Rightarrow> bool list" where
  "bits_xor_prefix (x # xs) (y # ys) = (x \<noteq> y) # bits_xor_prefix xs ys"
| "bits_xor_prefix xs [] = xs"
| "bits_xor_prefix [] ys = []"

definition bits_crc_byte :: "bool list \<Rightarrow> bool list \<Rightarrow> bool list" where
  "bits_crc_byte bs b =
     bits_crc_step (bits_crc_step (bits_crc_step (bits_crc_step
       (bits_crc_step (bits_crc_step (bits_crc_step (bits_crc_step (bits_xor_prefix bs b))))))))"

lemma wbits_shift: "wbits (drop_bit 1 w) = tl (wbits w) @ [False]"
proof (rule nth_equalityI)
  fix i
  assume "i < length (wbits (drop_bit 1 w))"
  then show "wbits (drop_bit 1 w) ! i = (tl (wbits w) @ [False]) ! i"
    by (cases "i < 31") (auto simp: bit_drop_bit_eq nth_append nth_tl dest: bit_imp_le_length)
qed simp

lemma wbits_crc_step: "wbits (crc_step w) = bits_crc_step (wbits w)"
proof -
  have hd: "hd (wbits w) = bit w 0" by (simp add: hd_conv_nth flip: length_0_conv)
  have low: "w AND 1 = (if bit w 0 then 1 else 0)" by (simp add: and_one_eq odd_iff_mod_2_eq_one bit_0)
  show ?thesis
  proof (cases "bit w 0")
    case True
    then have "crc_step w = drop_bit 1 w XOR 0x82f63b78" by (simp add: crc_step_def low)
    then show ?thesis using True by (simp only: bits_crc_step_def hd wbits_xor wbits_shift if_True)
  next
    case False
    then have "crc_step w = drop_bit 1 w" by (simp add: crc_step_def low)
    then show ?thesis using False by (simp only: bits_crc_step_def hd wbits_shift if_False)
  qed
qed

lemma bits_xor_prefix_nth:
  "length ys \<le> length xs \<Longrightarrow>
     bits_xor_prefix xs ys = map (\<lambda>i. if i < length ys then xs ! i \<noteq> ys ! i else xs ! i) [0..<length xs]"
proof (induction xs ys rule: bits_xor_prefix.induct)
  case (1 x xs y ys)
  then show ?case by (simp add: upt_conv_Cons map_Suc_upt [symmetric] comp_def del: upt_Suc)
qed (simp_all add: map_nth)

lemma wbits_xor_byte: "wbits (w XOR ucast b) = bits_xor_prefix (wbits w) (byte_bits b)"
  for b :: u8
  by (rule nth_equalityI)
    (auto simp: bits_xor_prefix_nth byte_bits_def bit_simps dest: bit_imp_le_length)

lemma wbits_crc_byte:
  "wbits ((crc_step ^^ 8) (w XOR ucast b)) = bits_crc_byte (wbits w) (byte_bits b)" for b :: u8
  by (simp add: numeral_eq_Suc wbits_crc_step wbits_xor_byte bits_crc_byte_def)

definition bits_crc :: "u8 list \<Rightarrow> bool list" where
  "bits_crc bytes = foldl bits_crc_byte (map (\<lambda>_. True) ticks32) (map byte_bits bytes)"

lemma crc32c_bits: "crc32c bytes n = NOT (bits_word (bits_crc (take n bytes)))"
proof -
  have start: "wbits UINT32_MAX = map (\<lambda>_. True) ticks32"
    by (simp add: wbits_def ticks32_def ticks8_def upt_rec)
  have "wbits (fold (\<lambda>b crc. (crc_step ^^ 8) (crc XOR ucast b)) bs w) =
      foldl bits_crc_byte (wbits w) (map byte_bits bs)" for bs :: "u8 list" and w
    by (induction bs arbitrary: w) (simp_all only: fold_simps list.map foldl.simps wbits_crc_byte)
  then show ?thesis
    unfolding crc32c_def bits_crc_def start [symmetric] by (metis bits_word_wbits)
qed

section \<open>Evaluation rules\<close>

lemma bits_crc_step_eval:
  "bits_crc_step
     [False, x1, x2, x3, x4, x5, x6, x7, x8, x9, x10, x11, x12, x13, x14, x15, x16, x17, x18,
      x19, x20, x21, x22, x23, x24, x25, x26, x27, x28, x29, x30, x31] =
     [x1, x2, x3, x4, x5, x6, x7, x8, x9, x10, x11, x12, x13, x14, x15, x16, x17, x18,
      x19, x20, x21, x22, x23, x24, x25, x26, x27, x28, x29, x30, x31, False]"
  "bits_crc_step
     [True, x1, x2, x3, x4, x5, x6, x7, x8, x9, x10, x11, x12, x13, x14, x15, x16, x17, x18,
      x19, x20, x21, x22, x23, x24, x25, x26, x27, x28, x29, x30, x31] =
     [x1, x2, x3, \<not> x4, \<not> x5, \<not> x6, \<not> x7, x8, \<not> x9,
      \<not> x10, x11, \<not> x12, \<not> x13, \<not> x14, x15, x16, x17, \<not> x18,
      \<not> x19, x20, \<not> x21, \<not> x22, \<not> x23, \<not> x24, x25, \<not> x26,
      x27, x28, x29, x30, x31, True]"
  by (simp_all add: bits_crc_step_def wbits_numeral ticks32_def ticks8_def)

lemmas crc_eval =
  bits_crc_def bits_crc_byte_def bits_crc_step_eval bits_xor_prefix.simps foldl_Cons foldl_Nil
  num_bits.simps ticks8_def ticks32_def append_Cons append_Nil byte_bits_numeral list.map if_True if_False simp_thms

end
