(* ===== verification/Protected_Example.thy ===== *)
theory Protected_Example
  imports Host_Provider Crc_Eval
begin

text \<open>
  A journal of the host provider that is provisioned with the floor 7 and runs a trial of release 8:
  the records it commits on the way, with the digests that identify them.
\<close>

definition example_domain :: "u8 list" where
  "example_domain = replicate 32 0xa5"

definition example_ledger_0 :: ledger where
  "example_ledger_0 = initial_ledger 7"

definition example_ledger_1 :: ledger where
  "example_ledger_1 = example_ledger_0\<lparr>mode_of := Trial 3, generation_of := 2\<rparr>"

definition example_ledger_2 :: ledger where
  "example_ledger_2 = example_ledger_0\<lparr>mode_of := Trial 2, generation_of := 3\<rparr>"

definition example_ledger_3 :: ledger where
  "example_ledger_3 = example_ledger_0\<lparr>floor_of := 8, generation_of := 4\<rparr>"

lemmas example_defs = example_domain_def example_ledger_0_def example_ledger_1_def example_ledger_2_def
  example_ledger_3_def initial_ledger_def

lemma digest_nonzero:
  assumes "sha_pad m = concat blocks"
    and "foldl bits_transform (map wbits (sha_state sha_initial)) (map block_bits blocks) = map wbits (w # ws)"
    and "length m = n" and "\<forall>b\<in>set blocks. length b = 64" and "sha_word_bytes w \<noteq> replicate 4 0"
  shows "ribon_security_sha256 m n \<noteq> replicate 32 0"
proof -
  have "take 4 (ribon_security_sha256 m n) = sha_word_bytes w"
    using sha256_bits [OF assms(1,4)] assms(2,3) by (simp add: bits_word_wbits sha_word_bytes_def)
  then show ?thesis using assms(5) by auto
qed

lemma record_encode_concat:
  assumes "length (rec_domain r) = 32" and "length (rec_binding r) = 32"
    and "concat (take 18 (record_fields r [])) = pre" and "bits_crc pre = wbits k"
    and "u32_bytes (NOT k) = crc"
  shows "record_encode r = pre @ crc @ replicate 12 0"
proof -
  have fields: "concat (record_fields r c) = pre @ c @ replicate 12 0" for c
    using assms(3) by (simp add: record_fields_def)
  have body: "record_body r = pre @ replicate 4 0 @ replicate 12 0"
    using laid_concat [OF record_body_laid [OF assms(1,2)]] fields by simp
  moreover have pre: "length pre = 144"
    using arg_cong [OF body, of length] laid_length [OF record_body_laid [OF assms(1,2)]] by simp
  ultimately have "crc32c (record_body r) 144 = NOT k"
    using assms(4) by (simp add: crc32c_bits bits_word_wbits)
  moreover have "length crc = 4" using assms(5) by (auto simp: u32_bytes_def)
  ultimately show ?thesis
    using assms(5) pre body by (simp add: record_encode_def store_u32_def blit_def)
qed


lemma example_bytes_0:
  "record_encode (record_of example_domain example_ledger_0) =
    [82, 73, 66, 79, 78, 45, 80, 83, 84, 65, 84, 69, 45, 82, 49, 0, 1, 0, 0, 0,
     160, 0, 0, 0, 1, 0, 0, 0, 1, 0, 0, 0, 1, 0, 0, 0, 0, 0, 0, 0,
     7, 0, 0, 0, 0, 0, 0, 0, 0, 0, 0, 0, 0, 0, 0, 0, 0, 0, 0, 0,
     0, 0, 0, 0, 165, 165, 165, 165, 165, 165, 165, 165, 165, 165, 165, 165, 165, 165, 165, 165,
     165, 165, 165, 165, 165, 165, 165, 165, 165, 165, 165, 165, 165, 165, 165, 165, 0, 0, 0, 0,
     0, 0, 0, 0, 0, 0, 0, 0, 0, 0, 0, 0, 0, 0, 0, 0, 0, 0, 0, 0,
     0, 0, 0, 0, 0, 0, 0, 0, 0, 0, 0, 0, 0, 0, 0, 0, 0, 0, 0, 0,
     0, 0, 0, 0] @
    [37, 98, 5, 124] @ replicate 12 0"
proof (rule record_encode_concat)
  show "concat (take 18 (record_fields (record_of example_domain example_ledger_0) [])) =
    [82, 73, 66, 79, 78, 45, 80, 83, 84, 65, 84, 69, 45, 82, 49, 0, 1, 0, 0, 0,
     160, 0, 0, 0, 1, 0, 0, 0, 1, 0, 0, 0, 1, 0, 0, 0, 0, 0, 0, 0,
     7, 0, 0, 0, 0, 0, 0, 0, 0, 0, 0, 0, 0, 0, 0, 0, 0, 0, 0, 0,
     0, 0, 0, 0, 165, 165, 165, 165, 165, 165, 165, 165, 165, 165, 165, 165, 165, 165, 165, 165,
     165, 165, 165, 165, 165, 165, 165, 165, 165, 165, 165, 165, 165, 165, 165, 165, 0, 0, 0, 0,
     0, 0, 0, 0, 0, 0, 0, 0, 0, 0, 0, 0, 0, 0, 0, 0, 0, 0, 0, 0,
     0, 0, 0, 0, 0, 0, 0, 0, 0, 0, 0, 0, 0, 0, 0, 0, 0, 0, 0, 0,
     0, 0, 0, 0]"
    by code_simp
  show "bits_crc
    [82, 73, 66, 79, 78, 45, 80, 83, 84, 65, 84, 69, 45, 82, 49, 0, 1, 0, 0, 0,
     160, 0, 0, 0, 1, 0, 0, 0, 1, 0, 0, 0, 1, 0, 0, 0, 0, 0, 0, 0,
     7, 0, 0, 0, 0, 0, 0, 0, 0, 0, 0, 0, 0, 0, 0, 0, 0, 0, 0, 0,
     0, 0, 0, 0, 165, 165, 165, 165, 165, 165, 165, 165, 165, 165, 165, 165, 165, 165, 165, 165,
     165, 165, 165, 165, 165, 165, 165, 165, 165, 165, 165, 165, 165, 165, 165, 165, 0, 0, 0, 0,
     0, 0, 0, 0, 0, 0, 0, 0, 0, 0, 0, 0, 0, 0, 0, 0, 0, 0, 0, 0,
     0, 0, 0, 0, 0, 0, 0, 0, 0, 0, 0, 0, 0, 0, 0, 0, 0, 0, 0, 0,
     0, 0, 0, 0] =
    wbits 0x83fa9dda"
    by (simp only: crc_eval wbits_numeral)
  show "u32_bytes (NOT 0x83fa9dda) = [37, 98, 5, 124]"
    by code_simp
qed (simp_all add: example_defs record_of_def)

lemma example_pad_0:
  "sha_pad (record_encode (record_of example_domain example_ledger_0)) = concat
    [[82, 73, 66, 79, 78, 45, 80, 83, 84, 65, 84, 69, 45, 82, 49, 0, 1, 0, 0, 0,
     160, 0, 0, 0, 1, 0, 0, 0, 1, 0, 0, 0, 1, 0, 0, 0, 0, 0, 0, 0,
     7, 0, 0, 0, 0, 0, 0, 0, 0, 0, 0, 0, 0, 0, 0, 0, 0, 0, 0, 0,
     0, 0, 0, 0],
     [165, 165, 165, 165, 165, 165, 165, 165, 165, 165, 165, 165, 165, 165, 165, 165, 165, 165, 165, 165,
     165, 165, 165, 165, 165, 165, 165, 165, 165, 165, 165, 165, 0, 0, 0, 0, 0, 0, 0, 0,
     0, 0, 0, 0, 0, 0, 0, 0, 0, 0, 0, 0, 0, 0, 0, 0, 0, 0, 0, 0,
     0, 0, 0, 0],
     [0, 0, 0, 0, 0, 0, 0, 0, 0, 0, 0, 0, 0, 0, 0, 0, 37, 98, 5, 124,
     0, 0, 0, 0, 0, 0, 0, 0, 0, 0, 0, 0, 128, 0, 0, 0, 0, 0, 0, 0,
     0, 0, 0, 0, 0, 0, 0, 0, 0, 0, 0, 0, 0, 0, 0, 0, 0, 0, 0, 0,
     0, 0, 5, 0]]"
  unfolding example_bytes_0 by code_simp

lemma example_state_0:
  "foldl bits_transform (map wbits (sha_state sha_initial)) (map block_bits
    [[82, 73, 66, 79, 78, 45, 80, 83, 84, 65, 84, 69, 45, 82, 49, 0, 1, 0, 0, 0,
     160, 0, 0, 0, 1, 0, 0, 0, 1, 0, 0, 0, 1, 0, 0, 0, 0, 0, 0, 0,
     7, 0, 0, 0, 0, 0, 0, 0, 0, 0, 0, 0, 0, 0, 0, 0, 0, 0, 0, 0,
     0, 0, 0, 0],
     [165, 165, 165, 165, 165, 165, 165, 165, 165, 165, 165, 165, 165, 165, 165, 165, 165, 165, 165, 165,
     165, 165, 165, 165, 165, 165, 165, 165, 165, 165, 165, 165, 0, 0, 0, 0, 0, 0, 0, 0,
     0, 0, 0, 0, 0, 0, 0, 0, 0, 0, 0, 0, 0, 0, 0, 0, 0, 0, 0, 0,
     0, 0, 0, 0],
     [0, 0, 0, 0, 0, 0, 0, 0, 0, 0, 0, 0, 0, 0, 0, 0, 37, 98, 5, 124,
     0, 0, 0, 0, 0, 0, 0, 0, 0, 0, 0, 0, 128, 0, 0, 0, 0, 0, 0, 0,
     0, 0, 0, 0, 0, 0, 0, 0, 0, 0, 0, 0, 0, 0, 0, 0, 0, 0, 0, 0,
     0, 0, 5, 0]]) =
   map wbits [0x3e1c490b, 0xa49989ac, 0x4af725d7, 0x337f6bf9, 0xb9126951, 0xdff80f47, 0xab745de3, 0xbdd1aa11]"
  unfolding sha_initial_def RibonSecuritySha256.select_convs by (simp only: sha_eval)

lemma example_digest_0: "digest_ok (record_of example_domain example_ledger_0)"
  unfolding digest_ok_def record_identity_def
  by (rule digest_nonzero [OF example_pad_0 example_state_0]) (simp_all add: example_bytes_0, code_simp)

lemma example_bytes_1:
  "record_encode (record_of example_domain example_ledger_1) =
    [82, 73, 66, 79, 78, 45, 80, 83, 84, 65, 84, 69, 45, 82, 49, 0, 1, 0, 0, 0,
     160, 0, 0, 0, 1, 0, 0, 0, 2, 0, 0, 0, 2, 0, 0, 0, 0, 0, 0, 0,
     7, 0, 0, 0, 0, 0, 0, 0, 8, 0, 0, 0, 0, 0, 0, 0, 3, 0, 0, 0,
     0, 0, 0, 0, 165, 165, 165, 165, 165, 165, 165, 165, 165, 165, 165, 165, 165, 165, 165, 165,
     165, 165, 165, 165, 165, 165, 165, 165, 165, 165, 165, 165, 165, 165, 165, 165, 0, 0, 0, 0,
     0, 0, 0, 0, 0, 0, 0, 0, 0, 0, 0, 0, 0, 0, 0, 0, 0, 0, 0, 0,
     0, 0, 0, 0, 0, 0, 0, 0, 0, 0, 0, 0, 0, 0, 0, 0, 0, 0, 0, 0,
     0, 0, 0, 0] @
    [68, 206, 127, 9] @ replicate 12 0"
proof (rule record_encode_concat)
  show "concat (take 18 (record_fields (record_of example_domain example_ledger_1) [])) =
    [82, 73, 66, 79, 78, 45, 80, 83, 84, 65, 84, 69, 45, 82, 49, 0, 1, 0, 0, 0,
     160, 0, 0, 0, 1, 0, 0, 0, 2, 0, 0, 0, 2, 0, 0, 0, 0, 0, 0, 0,
     7, 0, 0, 0, 0, 0, 0, 0, 8, 0, 0, 0, 0, 0, 0, 0, 3, 0, 0, 0,
     0, 0, 0, 0, 165, 165, 165, 165, 165, 165, 165, 165, 165, 165, 165, 165, 165, 165, 165, 165,
     165, 165, 165, 165, 165, 165, 165, 165, 165, 165, 165, 165, 165, 165, 165, 165, 0, 0, 0, 0,
     0, 0, 0, 0, 0, 0, 0, 0, 0, 0, 0, 0, 0, 0, 0, 0, 0, 0, 0, 0,
     0, 0, 0, 0, 0, 0, 0, 0, 0, 0, 0, 0, 0, 0, 0, 0, 0, 0, 0, 0,
     0, 0, 0, 0]"
    by code_simp
  show "bits_crc
    [82, 73, 66, 79, 78, 45, 80, 83, 84, 65, 84, 69, 45, 82, 49, 0, 1, 0, 0, 0,
     160, 0, 0, 0, 1, 0, 0, 0, 2, 0, 0, 0, 2, 0, 0, 0, 0, 0, 0, 0,
     7, 0, 0, 0, 0, 0, 0, 0, 8, 0, 0, 0, 0, 0, 0, 0, 3, 0, 0, 0,
     0, 0, 0, 0, 165, 165, 165, 165, 165, 165, 165, 165, 165, 165, 165, 165, 165, 165, 165, 165,
     165, 165, 165, 165, 165, 165, 165, 165, 165, 165, 165, 165, 165, 165, 165, 165, 0, 0, 0, 0,
     0, 0, 0, 0, 0, 0, 0, 0, 0, 0, 0, 0, 0, 0, 0, 0, 0, 0, 0, 0,
     0, 0, 0, 0, 0, 0, 0, 0, 0, 0, 0, 0, 0, 0, 0, 0, 0, 0, 0, 0,
     0, 0, 0, 0] =
    wbits 0xf68031bb"
    by (simp only: crc_eval wbits_numeral)
  show "u32_bytes (NOT 0xf68031bb) = [68, 206, 127, 9]"
    by code_simp
qed (simp_all add: example_defs record_of_def)

lemma example_pad_1:
  "sha_pad (record_encode (record_of example_domain example_ledger_1)) = concat
    [[82, 73, 66, 79, 78, 45, 80, 83, 84, 65, 84, 69, 45, 82, 49, 0, 1, 0, 0, 0,
     160, 0, 0, 0, 1, 0, 0, 0, 2, 0, 0, 0, 2, 0, 0, 0, 0, 0, 0, 0,
     7, 0, 0, 0, 0, 0, 0, 0, 8, 0, 0, 0, 0, 0, 0, 0, 3, 0, 0, 0,
     0, 0, 0, 0],
     [165, 165, 165, 165, 165, 165, 165, 165, 165, 165, 165, 165, 165, 165, 165, 165, 165, 165, 165, 165,
     165, 165, 165, 165, 165, 165, 165, 165, 165, 165, 165, 165, 0, 0, 0, 0, 0, 0, 0, 0,
     0, 0, 0, 0, 0, 0, 0, 0, 0, 0, 0, 0, 0, 0, 0, 0, 0, 0, 0, 0,
     0, 0, 0, 0],
     [0, 0, 0, 0, 0, 0, 0, 0, 0, 0, 0, 0, 0, 0, 0, 0, 68, 206, 127, 9,
     0, 0, 0, 0, 0, 0, 0, 0, 0, 0, 0, 0, 128, 0, 0, 0, 0, 0, 0, 0,
     0, 0, 0, 0, 0, 0, 0, 0, 0, 0, 0, 0, 0, 0, 0, 0, 0, 0, 0, 0,
     0, 0, 5, 0]]"
  unfolding example_bytes_1 by code_simp

lemma example_state_1:
  "foldl bits_transform (map wbits (sha_state sha_initial)) (map block_bits
    [[82, 73, 66, 79, 78, 45, 80, 83, 84, 65, 84, 69, 45, 82, 49, 0, 1, 0, 0, 0,
     160, 0, 0, 0, 1, 0, 0, 0, 2, 0, 0, 0, 2, 0, 0, 0, 0, 0, 0, 0,
     7, 0, 0, 0, 0, 0, 0, 0, 8, 0, 0, 0, 0, 0, 0, 0, 3, 0, 0, 0,
     0, 0, 0, 0],
     [165, 165, 165, 165, 165, 165, 165, 165, 165, 165, 165, 165, 165, 165, 165, 165, 165, 165, 165, 165,
     165, 165, 165, 165, 165, 165, 165, 165, 165, 165, 165, 165, 0, 0, 0, 0, 0, 0, 0, 0,
     0, 0, 0, 0, 0, 0, 0, 0, 0, 0, 0, 0, 0, 0, 0, 0, 0, 0, 0, 0,
     0, 0, 0, 0],
     [0, 0, 0, 0, 0, 0, 0, 0, 0, 0, 0, 0, 0, 0, 0, 0, 68, 206, 127, 9,
     0, 0, 0, 0, 0, 0, 0, 0, 0, 0, 0, 0, 128, 0, 0, 0, 0, 0, 0, 0,
     0, 0, 0, 0, 0, 0, 0, 0, 0, 0, 0, 0, 0, 0, 0, 0, 0, 0, 0, 0,
     0, 0, 5, 0]]) =
   map wbits [0x4a63f57b, 0x4d9e6c56, 0x8afc2098, 0x93190e4b, 0x7a4d60bd, 0xde495d22, 0x950014ad, 0xada019c8]"
  unfolding sha_initial_def RibonSecuritySha256.select_convs by (simp only: sha_eval)

lemma example_digest_1: "digest_ok (record_of example_domain example_ledger_1)"
  unfolding digest_ok_def record_identity_def
  by (rule digest_nonzero [OF example_pad_1 example_state_1]) (simp_all add: example_bytes_1, code_simp)

lemma example_bytes_2:
  "record_encode (record_of example_domain example_ledger_2) =
    [82, 73, 66, 79, 78, 45, 80, 83, 84, 65, 84, 69, 45, 82, 49, 0, 1, 0, 0, 0,
     160, 0, 0, 0, 1, 0, 0, 0, 2, 0, 0, 0, 3, 0, 0, 0, 0, 0, 0, 0,
     7, 0, 0, 0, 0, 0, 0, 0, 8, 0, 0, 0, 0, 0, 0, 0, 2, 0, 0, 0,
     0, 0, 0, 0, 165, 165, 165, 165, 165, 165, 165, 165, 165, 165, 165, 165, 165, 165, 165, 165,
     165, 165, 165, 165, 165, 165, 165, 165, 165, 165, 165, 165, 165, 165, 165, 165, 0, 0, 0, 0,
     0, 0, 0, 0, 0, 0, 0, 0, 0, 0, 0, 0, 0, 0, 0, 0, 0, 0, 0, 0,
     0, 0, 0, 0, 0, 0, 0, 0, 0, 0, 0, 0, 0, 0, 0, 0, 0, 0, 0, 0,
     0, 0, 0, 0] @
    [39, 28, 179, 36] @ replicate 12 0"
proof (rule record_encode_concat)
  show "concat (take 18 (record_fields (record_of example_domain example_ledger_2) [])) =
    [82, 73, 66, 79, 78, 45, 80, 83, 84, 65, 84, 69, 45, 82, 49, 0, 1, 0, 0, 0,
     160, 0, 0, 0, 1, 0, 0, 0, 2, 0, 0, 0, 3, 0, 0, 0, 0, 0, 0, 0,
     7, 0, 0, 0, 0, 0, 0, 0, 8, 0, 0, 0, 0, 0, 0, 0, 2, 0, 0, 0,
     0, 0, 0, 0, 165, 165, 165, 165, 165, 165, 165, 165, 165, 165, 165, 165, 165, 165, 165, 165,
     165, 165, 165, 165, 165, 165, 165, 165, 165, 165, 165, 165, 165, 165, 165, 165, 0, 0, 0, 0,
     0, 0, 0, 0, 0, 0, 0, 0, 0, 0, 0, 0, 0, 0, 0, 0, 0, 0, 0, 0,
     0, 0, 0, 0, 0, 0, 0, 0, 0, 0, 0, 0, 0, 0, 0, 0, 0, 0, 0, 0,
     0, 0, 0, 0]"
    by code_simp
  show "bits_crc
    [82, 73, 66, 79, 78, 45, 80, 83, 84, 65, 84, 69, 45, 82, 49, 0, 1, 0, 0, 0,
     160, 0, 0, 0, 1, 0, 0, 0, 2, 0, 0, 0, 3, 0, 0, 0, 0, 0, 0, 0,
     7, 0, 0, 0, 0, 0, 0, 0, 8, 0, 0, 0, 0, 0, 0, 0, 2, 0, 0, 0,
     0, 0, 0, 0, 165, 165, 165, 165, 165, 165, 165, 165, 165, 165, 165, 165, 165, 165, 165, 165,
     165, 165, 165, 165, 165, 165, 165, 165, 165, 165, 165, 165, 165, 165, 165, 165, 0, 0, 0, 0,
     0, 0, 0, 0, 0, 0, 0, 0, 0, 0, 0, 0, 0, 0, 0, 0, 0, 0, 0, 0,
     0, 0, 0, 0, 0, 0, 0, 0, 0, 0, 0, 0, 0, 0, 0, 0, 0, 0, 0, 0,
     0, 0, 0, 0] =
    wbits 0xdb4ce3d8"
    by (simp only: crc_eval wbits_numeral)
  show "u32_bytes (NOT 0xdb4ce3d8) = [39, 28, 179, 36]"
    by code_simp
qed (simp_all add: example_defs record_of_def)

lemma example_pad_2:
  "sha_pad (record_encode (record_of example_domain example_ledger_2)) = concat
    [[82, 73, 66, 79, 78, 45, 80, 83, 84, 65, 84, 69, 45, 82, 49, 0, 1, 0, 0, 0,
     160, 0, 0, 0, 1, 0, 0, 0, 2, 0, 0, 0, 3, 0, 0, 0, 0, 0, 0, 0,
     7, 0, 0, 0, 0, 0, 0, 0, 8, 0, 0, 0, 0, 0, 0, 0, 2, 0, 0, 0,
     0, 0, 0, 0],
     [165, 165, 165, 165, 165, 165, 165, 165, 165, 165, 165, 165, 165, 165, 165, 165, 165, 165, 165, 165,
     165, 165, 165, 165, 165, 165, 165, 165, 165, 165, 165, 165, 0, 0, 0, 0, 0, 0, 0, 0,
     0, 0, 0, 0, 0, 0, 0, 0, 0, 0, 0, 0, 0, 0, 0, 0, 0, 0, 0, 0,
     0, 0, 0, 0],
     [0, 0, 0, 0, 0, 0, 0, 0, 0, 0, 0, 0, 0, 0, 0, 0, 39, 28, 179, 36,
     0, 0, 0, 0, 0, 0, 0, 0, 0, 0, 0, 0, 128, 0, 0, 0, 0, 0, 0, 0,
     0, 0, 0, 0, 0, 0, 0, 0, 0, 0, 0, 0, 0, 0, 0, 0, 0, 0, 0, 0,
     0, 0, 5, 0]]"
  unfolding example_bytes_2 by code_simp

lemma example_state_2:
  "foldl bits_transform (map wbits (sha_state sha_initial)) (map block_bits
    [[82, 73, 66, 79, 78, 45, 80, 83, 84, 65, 84, 69, 45, 82, 49, 0, 1, 0, 0, 0,
     160, 0, 0, 0, 1, 0, 0, 0, 2, 0, 0, 0, 3, 0, 0, 0, 0, 0, 0, 0,
     7, 0, 0, 0, 0, 0, 0, 0, 8, 0, 0, 0, 0, 0, 0, 0, 2, 0, 0, 0,
     0, 0, 0, 0],
     [165, 165, 165, 165, 165, 165, 165, 165, 165, 165, 165, 165, 165, 165, 165, 165, 165, 165, 165, 165,
     165, 165, 165, 165, 165, 165, 165, 165, 165, 165, 165, 165, 0, 0, 0, 0, 0, 0, 0, 0,
     0, 0, 0, 0, 0, 0, 0, 0, 0, 0, 0, 0, 0, 0, 0, 0, 0, 0, 0, 0,
     0, 0, 0, 0],
     [0, 0, 0, 0, 0, 0, 0, 0, 0, 0, 0, 0, 0, 0, 0, 0, 39, 28, 179, 36,
     0, 0, 0, 0, 0, 0, 0, 0, 0, 0, 0, 0, 128, 0, 0, 0, 0, 0, 0, 0,
     0, 0, 0, 0, 0, 0, 0, 0, 0, 0, 0, 0, 0, 0, 0, 0, 0, 0, 0, 0,
     0, 0, 5, 0]]) =
   map wbits [0xabefcdb1, 0x858da7a, 0xd6c53797, 0x2af139bc, 0xb8f6a765, 0x4fca7012, 0x27c9123e, 0x827ed224]"
  unfolding sha_initial_def RibonSecuritySha256.select_convs by (simp only: sha_eval)

lemma example_digest_2: "digest_ok (record_of example_domain example_ledger_2)"
  unfolding digest_ok_def record_identity_def
  by (rule digest_nonzero [OF example_pad_2 example_state_2]) (simp_all add: example_bytes_2, code_simp)

lemma example_bytes_3:
  "record_encode (record_of example_domain example_ledger_3) =
    [82, 73, 66, 79, 78, 45, 80, 83, 84, 65, 84, 69, 45, 82, 49, 0, 1, 0, 0, 0,
     160, 0, 0, 0, 1, 0, 0, 0, 1, 0, 0, 0, 4, 0, 0, 0, 0, 0, 0, 0,
     8, 0, 0, 0, 0, 0, 0, 0, 0, 0, 0, 0, 0, 0, 0, 0, 0, 0, 0, 0,
     0, 0, 0, 0, 165, 165, 165, 165, 165, 165, 165, 165, 165, 165, 165, 165, 165, 165, 165, 165,
     165, 165, 165, 165, 165, 165, 165, 165, 165, 165, 165, 165, 165, 165, 165, 165, 0, 0, 0, 0,
     0, 0, 0, 0, 0, 0, 0, 0, 0, 0, 0, 0, 0, 0, 0, 0, 0, 0, 0, 0,
     0, 0, 0, 0, 0, 0, 0, 0, 0, 0, 0, 0, 0, 0, 0, 0, 0, 0, 0, 0,
     0, 0, 0, 0] @
    [27, 4, 82, 26] @ replicate 12 0"
proof (rule record_encode_concat)
  show "concat (take 18 (record_fields (record_of example_domain example_ledger_3) [])) =
    [82, 73, 66, 79, 78, 45, 80, 83, 84, 65, 84, 69, 45, 82, 49, 0, 1, 0, 0, 0,
     160, 0, 0, 0, 1, 0, 0, 0, 1, 0, 0, 0, 4, 0, 0, 0, 0, 0, 0, 0,
     8, 0, 0, 0, 0, 0, 0, 0, 0, 0, 0, 0, 0, 0, 0, 0, 0, 0, 0, 0,
     0, 0, 0, 0, 165, 165, 165, 165, 165, 165, 165, 165, 165, 165, 165, 165, 165, 165, 165, 165,
     165, 165, 165, 165, 165, 165, 165, 165, 165, 165, 165, 165, 165, 165, 165, 165, 0, 0, 0, 0,
     0, 0, 0, 0, 0, 0, 0, 0, 0, 0, 0, 0, 0, 0, 0, 0, 0, 0, 0, 0,
     0, 0, 0, 0, 0, 0, 0, 0, 0, 0, 0, 0, 0, 0, 0, 0, 0, 0, 0, 0,
     0, 0, 0, 0]"
    by code_simp
  show "bits_crc
    [82, 73, 66, 79, 78, 45, 80, 83, 84, 65, 84, 69, 45, 82, 49, 0, 1, 0, 0, 0,
     160, 0, 0, 0, 1, 0, 0, 0, 1, 0, 0, 0, 4, 0, 0, 0, 0, 0, 0, 0,
     8, 0, 0, 0, 0, 0, 0, 0, 0, 0, 0, 0, 0, 0, 0, 0, 0, 0, 0, 0,
     0, 0, 0, 0, 165, 165, 165, 165, 165, 165, 165, 165, 165, 165, 165, 165, 165, 165, 165, 165,
     165, 165, 165, 165, 165, 165, 165, 165, 165, 165, 165, 165, 165, 165, 165, 165, 0, 0, 0, 0,
     0, 0, 0, 0, 0, 0, 0, 0, 0, 0, 0, 0, 0, 0, 0, 0, 0, 0, 0, 0,
     0, 0, 0, 0, 0, 0, 0, 0, 0, 0, 0, 0, 0, 0, 0, 0, 0, 0, 0, 0,
     0, 0, 0, 0] =
    wbits 0xe5adfbe4"
    by (simp only: crc_eval wbits_numeral)
  show "u32_bytes (NOT 0xe5adfbe4) = [27, 4, 82, 26]"
    by code_simp
qed (simp_all add: example_defs record_of_def)

lemma example_pad_3:
  "sha_pad (record_encode (record_of example_domain example_ledger_3)) = concat
    [[82, 73, 66, 79, 78, 45, 80, 83, 84, 65, 84, 69, 45, 82, 49, 0, 1, 0, 0, 0,
     160, 0, 0, 0, 1, 0, 0, 0, 1, 0, 0, 0, 4, 0, 0, 0, 0, 0, 0, 0,
     8, 0, 0, 0, 0, 0, 0, 0, 0, 0, 0, 0, 0, 0, 0, 0, 0, 0, 0, 0,
     0, 0, 0, 0],
     [165, 165, 165, 165, 165, 165, 165, 165, 165, 165, 165, 165, 165, 165, 165, 165, 165, 165, 165, 165,
     165, 165, 165, 165, 165, 165, 165, 165, 165, 165, 165, 165, 0, 0, 0, 0, 0, 0, 0, 0,
     0, 0, 0, 0, 0, 0, 0, 0, 0, 0, 0, 0, 0, 0, 0, 0, 0, 0, 0, 0,
     0, 0, 0, 0],
     [0, 0, 0, 0, 0, 0, 0, 0, 0, 0, 0, 0, 0, 0, 0, 0, 27, 4, 82, 26,
     0, 0, 0, 0, 0, 0, 0, 0, 0, 0, 0, 0, 128, 0, 0, 0, 0, 0, 0, 0,
     0, 0, 0, 0, 0, 0, 0, 0, 0, 0, 0, 0, 0, 0, 0, 0, 0, 0, 0, 0,
     0, 0, 5, 0]]"
  unfolding example_bytes_3 by code_simp

lemma example_state_3:
  "foldl bits_transform (map wbits (sha_state sha_initial)) (map block_bits
    [[82, 73, 66, 79, 78, 45, 80, 83, 84, 65, 84, 69, 45, 82, 49, 0, 1, 0, 0, 0,
     160, 0, 0, 0, 1, 0, 0, 0, 1, 0, 0, 0, 4, 0, 0, 0, 0, 0, 0, 0,
     8, 0, 0, 0, 0, 0, 0, 0, 0, 0, 0, 0, 0, 0, 0, 0, 0, 0, 0, 0,
     0, 0, 0, 0],
     [165, 165, 165, 165, 165, 165, 165, 165, 165, 165, 165, 165, 165, 165, 165, 165, 165, 165, 165, 165,
     165, 165, 165, 165, 165, 165, 165, 165, 165, 165, 165, 165, 0, 0, 0, 0, 0, 0, 0, 0,
     0, 0, 0, 0, 0, 0, 0, 0, 0, 0, 0, 0, 0, 0, 0, 0, 0, 0, 0, 0,
     0, 0, 0, 0],
     [0, 0, 0, 0, 0, 0, 0, 0, 0, 0, 0, 0, 0, 0, 0, 0, 27, 4, 82, 26,
     0, 0, 0, 0, 0, 0, 0, 0, 0, 0, 0, 0, 128, 0, 0, 0, 0, 0, 0, 0,
     0, 0, 0, 0, 0, 0, 0, 0, 0, 0, 0, 0, 0, 0, 0, 0, 0, 0, 0, 0,
     0, 0, 5, 0]]) =
   map wbits [0x844ca1e3, 0x7630d9e1, 0x34194930, 0x2b64e861, 0x8f7678b2, 0x5f1cbb21, 0x18bb91d, 0x807e46d1]"
  unfolding sha_initial_def RibonSecuritySha256.select_convs by (simp only: sha_eval)

lemma example_digest_3: "digest_ok (record_of example_domain example_ledger_3)"
  unfolding digest_ok_def record_identity_def
  by (rule digest_nonzero [OF example_pad_3 example_state_3]) (simp_all add: example_bytes_3, code_simp)

end
