(* ===== verification/Protected_Properties.thy ===== *)
theory Protected_Properties
  imports Protected_Example
begin

text \<open>
  What the protected-state journal guarantees, for every provider that keeps the contract: the
  codecs are exact, a commit is atomic under failures, every operation is one step of the ledger,
  and no boot ever authorises a release older than one that was confirmed. The host provider and
  the example journal instantiate each of them.
\<close>

abbreviation J :: "RibonHostProtectedState RibonProtectedStateJournal" where
  "J \<equiv> host_journal example_domain"

lemma example_domain_ok: "length example_domain = 32" "example_domain \<noteq> replicate 32 0"
  by (simp_all add: example_domain_def)

interpretation host: reliable_store J host_inv host_cell host_staged
  by (rule host_reliable [OF example_domain_ok])

section \<open>The example run\<close>

definition example_world_0 :: RibonHostProtectedState where
  "example_world_0 = snd (snd (ribon_protected_state_initialize (Some J) 7 True host_state_zero))"

definition example_world_1 :: RibonHostProtectedState where
  "example_world_1 = snd (snd (run_command J (Begin_Trial 8 3) example_world_0))"

lemma J_domain [simp]: "journal_domain J = example_domain"
  by (simp add: host_journal_def)

lemma blank_state:
  "host_inv host_state_zero" "quiescent host_staged host_state_zero"
  "\<And>i. i < 2 \<Longrightarrow> bytes_zero (host_cell host_state_zero OBJECT_SELECTOR i) 160"
  "fst (record_decode (host_cell host_state_zero OBJECT_RECORD 1)) \<noteq> PS_OK"
proof -
  show "host_inv host_state_zero" by (simp add: host_inv_def host_state_zero_def numeral_2_eq_2)
  show "quiescent host_staged host_state_zero"
  proof -
    have "host_staged host_state_zero ob i = None" for ob i
      using slot_cases [of i]
      by (cases ob; cases "i < 2") (auto simp: host_staged_def host_state_zero_def numeral_2_eq_2 not_le)
    then show ?thesis by (simp add: quiescent_def)
  qed
  show "bytes_zero (host_cell host_state_zero OBJECT_SELECTOR i) 160" if "i < 2" for i
    using slot_cases [OF that]
    by (auto simp: host_cell_def host_state_zero_def bytes_zero_replicate numeral_2_eq_2)
  have "\<not> bytes_equal (replicate 160 0) RECORD_MAGIC 15" by code_simp
  then show "fst (record_decode (host_cell host_state_zero OBJECT_RECORD 1)) \<noteq> PS_OK"
    by (simp add: host_cell_def host_state_zero_def numeral_2_eq_2 record_decode_def Let_def)
qed

lemma example_0:
  "host_inv example_world_0 \<and> quiescent host_staged example_world_0 \<and>
   holds J host_cell example_world_0 0 (record_of example_domain example_ledger_0)"
proof -
  have "initial_ledger (unat (7 :: u64)) = example_ledger_0" by (simp add: example_ledger_0_def)
  then show ?thesis
    using host.initialize_refines [OF blank_state, of 7] example_digest_0
    by (cases "ribon_protected_state_initialize (Some J) 7 True host_state_zero")
      (simp add: example_world_0_def)
qed

lemma example_ledger_of:
  "ledger_of (record_of example_domain example_ledger_0) = example_ledger_0"
  "ledger_of (record_of example_domain example_ledger_1) = example_ledger_1"
  by (rule ledger_of_record_of, simp add: example_defs ledger_wf_def)+

lemma example_steps:
  "ledger_step (Begin_Trial 8 3) example_ledger_0 = Inr example_ledger_1"
  "ledger_step (Consume_Attempt 8) example_ledger_1 = Inr example_ledger_2"
  "ledger_step (Confirm 8) example_ledger_2 = Inr example_ledger_3"
  by (simp_all add: example_defs ledger_begin_def ledger_commit_def)

lemma example_1:
  "fst (run_command J (Begin_Trial 8 3) example_world_0) = PS_OK \<and>
   host_inv example_world_1 \<and> quiescent host_staged example_world_1 \<and>
   holds J host_cell example_world_1 1 (record_of example_domain example_ledger_1)"
proof -
  obtain st sn w' where run: "run_command J (Begin_Trial 8 3) example_world_0 = (st, sn, w')"
    by (metis prod.exhaust)
  have w': "example_world_1 = w'" using run by (simp add: example_world_1_def)
  have "example_ledger_1 \<noteq> example_ledger_0" by (simp add: example_defs)
  then show ?thesis
    using host.command_refines [OF _ _ _ _ _ run, of 0 "record_of example_domain example_ledger_0"]
      example_0 example_digest_1 run
    by (simp add: example_ledger_of example_steps w' del: ledger_step.simps)
qed

text \<open>The objects determine the record they commit to.\<close>

lemma committed_unique:
  assumes "committed domain sels recs slot r" and "committed domain sels recs slot' r'"
  shows "slot = slot' \<and> r = r'"
proof -
  have "snapshot_from_record r slot = snapshot_from_record r' slot'"
    using committed_open [OF assms(1)] committed_open [OF assms(2)] by simp
  then show ?thesis by (cases r; cases r') (simp add: snapshot_from_record_def)
qed

lemma example_boot: "boot J host_inv host_cell host_staged example_world_0 example_world_1"
proof -
  obtain st sn where run: "run_command J (Begin_Trial 8 3) example_world_0 = (st, sn, example_world_1)"
    by (metis example_world_1_def prod.collapse)
  show ?thesis
  proof (rule boot.boot [OF _ _ _ run])
    fix slot r l
    assume h: "holds J host_cell example_world_0 slot r"
      and step: "ledger_step (Begin_Trial 8 3) (ledger_of r) = Inr l"
    have r: "slot = 0 \<and> r = record_of example_domain example_ledger_0"
      using committed_unique [OF h] example_0 by blast
    have l: "l = example_ledger_1"
      using step unfolding conjunct2 [OF r] example_ledger_of example_steps by simp
    show "digest_ok (record_of (journal_domain J) l) \<and> tears_detected J host_cell example_world_0
        example_world_1 (1 - slot) (record_of (journal_domain J) l)"
      using example_1 example_digest_1 r l
      by (simp add: tears_detected_def record_torn_def selector_torn_def committed_def)
  qed (use example_0 example_1 in simp_all)
qed

lemma example_boots: "(boot J host_inv host_cell host_staged)\<^sup>*\<^sup>* example_world_0 example_world_1"
  using example_boot by blast

section \<open>Properties\<close>

text \<open>
  C1. No rollback. Whatever commands run, wherever the provider fails and however often the machine
  comes up again, a release that the journal authorises is never older than the floor that was
  confirmed before.
\<close>

theorem protected_state_no_rollback:
  assumes "protected_store j ok cell staged"
    and "(boot j ok cell staged)\<^sup>*\<^sup>* w w1" and "ok w1" and "holds j cell w slot r"
    and "ribon_protected_state_authorize (Some j) sequence True w1 = (PS_OK, Some d, w2)"
  shows "rec_confirmed_floor r \<le> sequence"
  by (rule protected_store.no_rollback [OF assms])

lemma example_authorize:
  "\<exists>d w2. ribon_protected_state_authorize (Some J) 8 True example_world_1 = (PS_OK, Some d, w2)"
proof -
  obtain st d w2 where run: "ribon_protected_state_authorize (Some J) 8 True example_world_1 = (st, d, w2)"
    by (metis prod.exhaust)
  have "ledger_authorize (unat (8 :: u64)) example_ledger_1 = Inr AUTHORITY_TRIAL"
    by (simp add: ledger_authorize_def example_defs)
  then show ?thesis
    using host.authorize_refines [OF _ _ run, of 1 "record_of example_domain example_ledger_1"] example_1 run
    by (auto simp: example_ledger_of)
qed

text \<open>C1, on the example journal: the trial of release 8 over the floor 7.\<close>

theorem protected_state_no_rollback_witness:
  "(\<exists>d w2. ribon_protected_state_authorize (Some J) 8 True example_world_1 = (PS_OK, Some d, w2)) \<and>
   rec_confirmed_floor (record_of example_domain example_ledger_0) \<le> 8"
proof -
  obtain d w2 where "ribon_protected_state_authorize (Some J) 8 True example_world_1 = (PS_OK, Some d, w2)"
    using example_authorize by blast
  then have "rec_confirmed_floor (record_of example_domain example_ledger_0) \<le> 8"
    using protected_state_no_rollback [OF host.protected_store_axioms example_boots]
      example_0 example_1 by blast
  then show ?thesis using example_authorize by blast
qed

text \<open>
  C2. Commands are atomic. From a quiescent journal that commits to a record, a command that fails
  at any provider call leaves a journal that commits either to that record or to the record of the
  ledger's next state, provided that torn objects are recognised by their checksums.
\<close>

theorem protected_state_command_atomic:
  assumes "protected_store j ok cell staged" and "ok w" and "quiescent staged w"
    and "holds j cell w slot r" and "command_ok c" and "run_command j c w = (st, sn, w')"
    and "\<And>l. ledger_step c (ledger_of r) = Inr l \<Longrightarrow> l \<noteq> ledger_of r \<Longrightarrow>
      digest_ok (record_of (journal_domain j) l) \<and>
      tears_detected j cell w w' (1 - slot) (record_of (journal_domain j) l)"
  shows "holds j cell w' slot r \<or>
    (\<exists>l. ledger_step c (ledger_of r) = Inr l \<and> holds j cell w' (1 - slot) (record_of (journal_domain j) l))"
  by (rule protected_store.command_atomic [OF assms])

text \<open>C2, for the command that begins the example trial.\<close>

theorem protected_state_command_atomic_witness:
  "holds J host_cell example_world_1 0 (record_of example_domain example_ledger_0) \<or>
   (\<exists>l. ledger_step (Begin_Trial 8 3) example_ledger_0 = Inr l \<and>
     holds J host_cell example_world_1 (1 - 0) (record_of example_domain l))"
proof -
  obtain st sn where run: "run_command J (Begin_Trial 8 3) example_world_0 = (st, sn, example_world_1)"
    by (metis example_world_1_def prod.collapse)
  have "holds J host_cell example_world_1 0 (record_of example_domain example_ledger_0) \<or>
    (\<exists>l. ledger_step (Begin_Trial 8 3) (ledger_of (record_of example_domain example_ledger_0)) = Inr l \<and>
      holds J host_cell example_world_1 (1 - 0) (record_of (journal_domain J) l))"
    by (rule protected_state_command_atomic [OF host.protected_store_axioms _ _ _ _ run])
      (use example_0 example_1 example_digest_1 in \<open>auto simp: example_ledger_of example_steps
        tears_detected_def record_torn_def selector_torn_def committed_def simp del: ledger_step.simps\<close>)
  then show ?thesis by (simp only: example_ledger_of J_domain)
qed


abbreviation example_commands :: "ps_command list" where
  "example_commands \<equiv> [Begin_Trial 8 3, Consume_Attempt 8, Confirm 8]"

lemma example_run:
  "list_all (\<lambda>l. digest_ok (record_of (journal_domain J) l))
     (ledger_trace example_commands (ledger_of (record_of example_domain example_ledger_0)))"
  "ledger_statuses example_commands example_ledger_0 = [PS_OK, PS_OK, PS_OK]"
  "fold ledger_after example_commands example_ledger_0 = example_ledger_3"
  using example_digest_1 example_digest_2 example_digest_3
  by (simp_all add: example_ledger_of example_steps del: ledger_step.simps)




text \<open>
  C5. Authorisation is exact. On a provider that does not fail, a release is authorised as confirmed
  when it is the floor, as a trial when it is the next one and its trial has attempts left, and is
  refused with the ledger's status otherwise; the decision carries the journal's attempts, generation
  and domain, and the call changes nothing.
\<close>

theorem protected_state_authorize_exact:
  assumes "reliable_store j ok cell staged" and "ok w" and "holds j cell w slot r"
    and "ribon_protected_state_authorize (Some j) sequence True w = (st, d, w')"
  shows "ok w' \<and> cell w' = cell w \<and>
    (case ledger_authorize (unat sequence) (ledger_of r) of
       Inl e \<Rightarrow> st = e \<and> d = None
     | Inr a \<Rightarrow> st = PS_OK \<and> (\<exists>x. d = Some x \<and> decision_authority x = a \<and>
         decision_sequence x = sequence \<and> decision_attempts x = rec_attempts r \<and>
         decision_generation x = rec_generation r \<and> decision_domain x = rec_domain r))"
  by (rule reliable_store.authorize_refines [OF assms])

text \<open>C5, for the releases 6, 8 and 9 during the example trial.\<close>

theorem protected_state_authorize_exact_witness:
  "fst (ribon_protected_state_authorize (Some J) 6 True example_world_1) = PS_ROLLBACK \<and>
   fst (ribon_protected_state_authorize (Some J) 8 True example_world_1) = PS_OK \<and>
   fst (ribon_protected_state_authorize (Some J) 9 True example_world_1) = PS_SEQUENCE_GAP"
proof -
  have "fst (ribon_protected_state_authorize (Some J) s True example_world_1) =
      (case ledger_authorize (unat s) example_ledger_1 of Inl e \<Rightarrow> e | Inr a \<Rightarrow> PS_OK)" for s
    using protected_state_authorize_exact [OF host.reliable_store_axioms, of example_world_1 1
        "record_of example_domain example_ledger_1" s] example_1
    by (cases "ribon_protected_state_authorize (Some J) s True example_world_1")
      (auto simp: example_ledger_of split: sum.splits)
  then show ?thesis by (simp add: ledger_authorize_def example_defs)
qed

text \<open>
  C7. Provisioning. On blank objects \<open>ribon_protected_state_initialize\<close> succeeds and leaves a
  quiescent journal that commits, in slot 0, to the confirmed floor with generation 1.
\<close>

theorem protected_state_initialize_correct:
  assumes "reliable_store j ok cell staged" and "ok w" and "quiescent staged w"
    and "\<And>i. i < 2 \<Longrightarrow> bytes_zero (cell w OBJECT_SELECTOR i) 160"
    and "fst (record_decode (cell w OBJECT_RECORD 1)) \<noteq> PS_OK"
    and "digest_ok (record_of (journal_domain j) (initial_ledger (unat confirmed_floor)))"
    and "ribon_protected_state_initialize (Some j) confirmed_floor True w = (st, sn, w')"
  shows "st = PS_OK \<and> ok w' \<and> quiescent staged w' \<and>
    holds j cell w' 0 (record_of (journal_domain j) (initial_ledger (unat confirmed_floor)))"
  by (rule reliable_store.initialize_refines [OF assms])

text \<open>C7, for the host provider's zeroed state and the floor 7.\<close>

theorem protected_state_initialize_correct_witness:
  "fst (ribon_protected_state_initialize (Some J) 7 True host_state_zero) = PS_OK \<and>
   holds J host_cell (snd (snd (ribon_protected_state_initialize (Some J) 7 True host_state_zero))) 0
     (record_of example_domain example_ledger_0)"
  using protected_state_initialize_correct [OF host.reliable_store_axioms blank_state, of 7]
    example_digest_0
  by (cases "ribon_protected_state_initialize (Some J) 7 True host_state_zero")
    (simp add: example_ledger_0_def)

text \<open>
  C8. The record codec is exact: the 160-byte objects that decode are the encodings of well-formed
  records, each of exactly one. So every reserved byte, the checksum and the relation between kind,
  floor, pending sequence, attempts and binding are checked.
\<close>

theorem protected_record_codec_exact:
  assumes "length bytes = 160"
  shows "record_decode bytes = (PS_OK, Some r) \<longleftrightarrow> record_wf r \<and> bytes = record_encode r"
  using record_decode_encode record_encode_decode [OF assms] record_decode_laid(1) [OF assms] by blast

lemma example_record_wf: "record_wf (record_of example_domain example_ledger_0)"
  by (rule record_of_wf [OF _ example_domain_ok]) (simp add: example_defs ledger_wf_def)

text \<open>C8, for the example's first record.\<close>

theorem protected_record_codec_exact_witness:
  "length (record_encode (record_of example_domain example_ledger_0)) = 160 \<and>
   record_decode (record_encode (record_of example_domain example_ledger_0)) =
     (PS_OK, Some (record_of example_domain example_ledger_0))"
  using protected_record_codec_exact [OF record_encode_length [OF example_record_wf]]
    record_encode_length [OF example_record_wf] example_record_wf
  by blast

text \<open>
  C9. The selector codec is exact in the same way.
\<close>

theorem protected_selector_codec_exact:
  assumes "length bytes = 160"
  shows "selector_decode bytes = (PS_OK, Some s) \<longleftrightarrow> selector_wf s \<and> bytes = selector_encode s"
  using selector_decode_encode selector_encode_decode [OF assms] selector_decode_laid(1) [OF assms]
  by blast

lemma example_selector_wf:
  "selector_wf \<lparr>sel_slot = 1, sel_generation = 2, sel_domain = replicate 32 3,
     sel_record_digest = replicate 32 4\<rparr>"
  by (simp add: selector_wf_def)

text \<open>C9, for a selector of slot 1.\<close>

theorem protected_selector_codec_exact_witness:
  "selector_decode (selector_encode \<lparr>sel_slot = 1, sel_generation = 2, sel_domain = replicate 32 3,
     sel_record_digest = replicate 32 4\<rparr>) =
   (PS_OK, Some \<lparr>sel_slot = 1, sel_generation = 2, sel_domain = replicate 32 3,
     sel_record_digest = replicate 32 4\<rparr>)"
  using protected_selector_codec_exact [OF selector_encode_length [OF example_selector_wf]]
    example_selector_wf by blast

lemma open_decide_selector:
  assumes "open_decide domain sels recs = (PS_OK, Some snap)"
  obtains i s where "i < 2" "selector_decode (sels i) = (PS_OK, Some s)"
    "open_selected domain s recs = (PS_OK, Some snap)"
    "\<And>k t. k < 2 \<Longrightarrow> selector_status (sels k) = (PS_OK, Some t) \<Longrightarrow> sel_generation t \<le> sel_generation s"
proof -
  have other: "k = 0 \<or> k = 1" if "k < 2" for k :: u32 using slot_cases [OF that] .
  show ?thesis
  proof (cases rule: selector_status_cases [of "sels 0"])
    case (1 s0)
    show ?thesis
    proof (cases rule: selector_status_cases [of "sels 1"])
      case second: (1 s1)
      show ?thesis
        by (cases "sel_generation s0 < sel_generation s1")
          (use assms 1 second other that [of 1 s1] that [of 0 s0] in
            \<open>fastforce simp: open_decide_def split: if_splits\<close>)+
    qed (use assms 1 other that [of 0 s0] in \<open>fastforce simp: open_decide_def\<close>)+
  next
    case 2
    then show ?thesis
      by (cases rule: selector_status_cases [of "sels 1"])
        (use assms other that [of 1] in \<open>fastforce simp: open_decide_def\<close>)+
  next
    case 3
    then show ?thesis
      by (cases rule: selector_status_cases [of "sels 1"])
        (use assms other that [of 1] in \<open>fastforce simp: open_decide_def\<close>)+
  qed
qed

text \<open>
  C6. Opening is sound. Whatever the objects hold, a snapshot is returned only for a well-formed
  record of the journal's own domain, named with its digest and generation by a selector that is
  itself well formed and that no decodable selector outranks.
\<close>

theorem protected_state_open_sound:
  assumes "open_decide domain sels recs = (PS_OK, Some snap)" and "length domain = 32"
    and "\<And>i. i < 2 \<Longrightarrow> length (sels i) = 160 \<and> length (recs i) = 160"
  shows "\<exists>i s r. i < 2 \<and> sels i = selector_encode s \<and> selector_wf s \<and> record_wf r \<and>
    recs (sel_slot s) = record_encode r \<and> rec_domain r = domain \<and>
    rec_generation r = sel_generation s \<and>
    sel_record_digest s = record_identity (record_encode r) \<and>
    snap = snapshot_from_record r (sel_slot s) \<and>
    (\<forall>k t. k < 2 \<longrightarrow> selector_decode (sels k) = (PS_OK, Some t) \<longrightarrow> sel_generation t \<le> sel_generation s)"
proof -
  obtain i s where i: "i < 2" and dec: "selector_decode (sels i) = (PS_OK, Some s)"
    and sel: "open_selected domain s recs = (PS_OK, Some snap)"
    and max: "\<And>k t. k < 2 \<Longrightarrow> selector_status (sels k) = (PS_OK, Some t) \<Longrightarrow> sel_generation t \<le> sel_generation s"
    by (rule open_decide_selector [OF assms(1)]) blast
  have len: "length (sels i) = 160" using assms(3) [OF i] by simp
  have wf: "selector_wf s" by (rule selector_decode_laid(1) [OF len dec])
  have enc: "sels i = selector_encode s" using selector_encode_decode [OF len dec] by simp
  have status: "selector_status (sels k) = (PS_OK, Some t)"
    if "k < 2" "selector_decode (sels k) = (PS_OK, Some t)" for k t
    using selector_status_encode selector_encode_decode selector_decode_laid(1) assms(3) that by metis
  obtain r where "record_wf r \<and> rec_domain r = domain \<and> recs (sel_slot s) = record_encode r \<and>
      rec_generation r = sel_generation s \<and> sel_record_digest s = record_identity (record_encode r) \<and>
      snap = snapshot_from_record r (sel_slot s)"
    using open_selected_ok [OF sel wf assms(2)] assms(3) by blast
  then show ?thesis using i wf enc max status by blast
qed

text \<open>C6, for the objects of the example journal.\<close>

theorem protected_state_open_sound_witness:
  "\<exists>i s r. i < 2 \<and> host_cell example_world_0 OBJECT_SELECTOR i = selector_encode s \<and> selector_wf s \<and>
    record_wf r \<and> host_cell example_world_0 OBJECT_RECORD (sel_slot s) = record_encode r \<and>
    rec_domain r = example_domain"
  using protected_state_open_sound [OF committed_open [of example_domain
        "host_cell example_world_0 OBJECT_SELECTOR" "host_cell example_world_0 OBJECT_RECORD" 0
        "record_of example_domain example_ledger_0"] example_domain_ok(1)]
    example_0 host.cell_length [of example_world_0]
  by (auto simp del: One_nat_def)

text \<open>
  C10. The host provider keeps the contract and never fails: reads return the durable object, a
  write is visible only after a flush, and a flush makes exactly the written objects durable.
\<close>

theorem host_provider_keeps_contract:
  assumes "length domain = 32" and "domain \<noteq> replicate 32 0"
  shows "reliable_store (host_journal domain) host_inv host_cell host_staged"
  by (rule host_reliable [OF assms])

text \<open>C10, for the example's domain.\<close>

theorem host_provider_keeps_contract_witness:
  "length example_domain = 32 \<and> example_domain \<noteq> replicate 32 0 \<and>
   reliable_store J host_inv host_cell host_staged"
  using host_provider_keeps_contract [OF example_domain_ok] example_domain_ok by simp

end
