(* ===== verification/Plugin.thy ===== *)
theory Plugin
  imports Arena
begin

text \<open>
  Capabilities, modes, resource limits and the descriptors that a product is generated from:
  \<open>core/capability.h\<close>, \<open>plugin/descriptor.h\<close>, \<open>plugin/manifest.h\<close>, \<open>src/core/plugin.c\<close> and the limit
  and mode checks of \<open>src/core/context.c\<close>. A C string is the list of its characters before the
  terminator. A function pointer is an address, and \<open>call\<close> is the code behind the addresses.
\<close>

section \<open>Capabilities, modes and limits\<close>

abbreviation (input) CAP_BOOT_SOURCE_READ :: u64 where "CAP_BOOT_SOURCE_READ \<equiv> 0x1"
abbreviation (input) CAP_INACTIVE_SLOT_WRITE :: u64 where "CAP_INACTIVE_SLOT_WRITE \<equiv> 0x2"
abbreviation (input) CAP_INACTIVE_SLOT_ERASE :: u64 where "CAP_INACTIVE_SLOT_ERASE \<equiv> 0x4"
abbreviation (input) CAP_STORAGE_FLUSH :: u64 where "CAP_STORAGE_FLUSH \<equiv> 0x8"
abbreviation (input) CAP_MONOTONIC_TIMER :: u64 where "CAP_MONOTONIC_TIMER \<equiv> 0x10"
abbreviation (input) CAP_WATCHDOG :: u64 where "CAP_WATCHDOG \<equiv> 0x20"
abbreviation (input) CAP_RESET :: u64 where "CAP_RESET \<equiv> 0x40"
abbreviation (input) CAP_PERSISTENT_METADATA :: u64 where "CAP_PERSISTENT_METADATA \<equiv> 0x80"
abbreviation (input) CAP_NETWORK_TRANSPORT :: u64 where "CAP_NETWORK_TRANSPORT \<equiv> 0x100"
abbreviation (input) CAP_RANDOM_NONCE :: u64 where "CAP_RANDOM_NONCE \<equiv> 0x200"
abbreviation (input) CAP_DIAGNOSTIC_SINK :: u64 where "CAP_DIAGNOSTIC_SINK \<equiv> 0x400"
abbreviation (input) CAP_ENVIRONMENT_QUIESCE :: u64 where "CAP_ENVIRONMENT_QUIESCE \<equiv> 0x800"
abbreviation (input) CAP_BOOT_MODULE_BUNDLE :: u64 where "CAP_BOOT_MODULE_BUNDLE \<equiv> 0x1000"
abbreviation (input) CAP_ARCHITECTURE :: u64 where "CAP_ARCHITECTURE \<equiv> 0x10000"
abbreviation (input) CAP_BOOT_PROTOCOL :: u64 where "CAP_BOOT_PROTOCOL \<equiv> 0x40000"
abbreviation (input) CAP_HANDOFF :: u64 where "CAP_HANDOFF \<equiv> 0x80000"
abbreviation (input) CAP_ENTRY_CONTRACT :: u64 where "CAP_ENTRY_CONTRACT \<equiv> 0x100000"
abbreviation (input) CAP_MACHINE_DESCRIPTION :: u64 where "CAP_MACHINE_DESCRIPTION \<equiv> 0x800000"
abbreviation (input) CAP_FIRMWARE_PERSONALITY :: u64 where "CAP_FIRMWARE_PERSONALITY \<equiv> 0x1000000"
abbreviation (input) CAP_FIRMWARE_SERVICE_DIRECTORY :: u64 where
  "CAP_FIRMWARE_SERVICE_DIRECTORY \<equiv> 0x2000000"
abbreviation (input) CAP_PAYLOAD_PLACEMENT :: u64 where "CAP_PAYLOAD_PLACEMENT \<equiv> 0x8000000"
abbreviation (input) CAP_TERMINAL_IMAGE_LAUNCH :: u64 where "CAP_TERMINAL_IMAGE_LAUNCH \<equiv> 0x20000000"
abbreviation (input) CAP_ALL :: u64 where "CAP_ALL \<equiv> 0x7fffffff"

abbreviation (input) ARCH_MASK_ALL :: u32 where "ARCH_MASK_ALL \<equiv> 7"
abbreviation (input) ENV_MASK_ALL :: u32 where "ENV_MASK_ALL \<equiv> 31"
abbreviation (input) PERSONALITY_MASK_ALL :: u32 where "PERSONALITY_MASK_ALL \<equiv> 3"
abbreviation (input) MODE_MASK_ALL :: u32 where "MODE_MASK_ALL \<equiv> 15"

abbreviation (input) MODE_NORMAL :: u32 where "MODE_NORMAL \<equiv> 0"
abbreviation (input) MODE_RECOVERY :: u32 where "MODE_RECOVERY \<equiv> 1"
abbreviation (input) MODE_PROVISIONING :: u32 where "MODE_PROVISIONING \<equiv> 2"
abbreviation (input) MODE_DIAGNOSTIC :: u32 where "MODE_DIAGNOSTIC \<equiv> 3"

abbreviation (input) PLUGIN_REGISTRY_LIMIT :: nat where "PLUGIN_REGISTRY_LIMIT \<equiv> 64"
abbreviation (input) SERVICE_DIRECTORY_LIMIT :: nat where "SERVICE_DIRECTORY_LIMIT \<equiv> 64"

definition MODE_MASK :: "u32 \<Rightarrow> u32" where
  "MODE_MASK mode = push_bit (unat mode) 1"

record RibonResourceLimits =
  max_memory_regions :: u32
  max_load_segments :: u32
  max_components :: u32
  max_retries :: u32
  max_input_bytes :: u64
  max_handoff_bytes :: u64
  arena_bytes :: u64
  operation_deadline_ms :: u64

record RibonModeDescriptor =
  mode_size :: u32
  mode_abi_version :: u32
  mode_mode :: u32
  mode_name :: "string option"
  mode_required_capabilities :: u64
  mode_forbidden_capabilities :: u64
  mode_limits :: RibonResourceLimits

definition core_streq :: "string option \<Rightarrow> string option \<Rightarrow> bool" where
  "core_streq lhs rhs = (lhs \<noteq> None \<and> rhs \<noteq> None \<and> lhs = rhs)"

definition ribon_mode_name :: "u32 \<Rightarrow> string" where
  "ribon_mode_name mode =
     (if mode = MODE_NORMAL then ''normal''
      else if mode = MODE_RECOVERY then ''recovery''
      else if mode = MODE_PROVISIONING then ''provisioning''
      else if mode = MODE_DIAGNOSTIC then ''diagnostic''
      else ''unknown'')"

definition ribon_resource_limits_are_valid :: "RibonResourceLimits \<Rightarrow> bool" where
  "ribon_resource_limits_are_valid limits =
     (max_memory_regions limits \<noteq> 0 \<and> max_load_segments limits \<noteq> 0 \<and>
      max_components limits \<noteq> 0 \<and> max_retries limits \<noteq> 0 \<and>
      max_input_bytes limits \<noteq> 0 \<and> max_handoff_bytes limits \<noteq> 0 \<and>
      arena_bytes limits \<noteq> 0 \<and> operation_deadline_ms limits \<noteq> 0 \<and>
      max_load_segments limits \<le> max_components limits \<and>
      max_handoff_bytes limits \<le> arena_bytes limits \<and>
      max_handoff_bytes limits \<le> max_input_bytes limits)"

definition ribon_mode_descriptor_is_valid :: "RibonModeDescriptor option \<Rightarrow> bool" where
  "ribon_mode_descriptor_is_valid mode =
     (case mode of
        None \<Rightarrow> False
      | Some m \<Rightarrow>
          \<not> (mode_size m \<noteq> 88 \<or> mode_abi_version m \<noteq> 7 \<or>
             mode_mode m < MODE_NORMAL \<or> MODE_DIAGNOSTIC < mode_mode m \<or>
             mode_name m = None \<or>
             \<not> core_streq (mode_name m) (Some (ribon_mode_name (mode_mode m))) \<or>
             mode_required_capabilities m AND NOT CAP_ALL \<noteq> 0 \<or>
             mode_forbidden_capabilities m AND NOT CAP_ALL \<noteq> 0 \<or>
             mode_required_capabilities m AND mode_forbidden_capabilities m \<noteq> 0) \<and>
          ribon_resource_limits_are_valid (mode_limits m))"

section \<open>Plugin and product descriptors\<close>

abbreviation (input) KIND_ARCHITECTURE :: u32 where "KIND_ARCHITECTURE \<equiv> 0"
abbreviation (input) KIND_ENVIRONMENT :: u32 where "KIND_ENVIRONMENT \<equiv> 1"
abbreviation (input) KIND_IMAGE_FORMAT :: u32 where "KIND_IMAGE_FORMAT \<equiv> 2"
abbreviation (input) KIND_BOOT_PROTOCOL :: u32 where "KIND_BOOT_PROTOCOL \<equiv> 3"
abbreviation (input) KIND_POLICY :: u32 where "KIND_POLICY \<equiv> 4"
abbreviation (input) KIND_FIRMWARE_PERSONALITY :: u32 where "KIND_FIRMWARE_PERSONALITY \<equiv> 5"
abbreviation (input) KIND_SERVICE :: u32 where "KIND_SERVICE \<equiv> 6"

abbreviation (input) PHASE_EARLY :: u32 where "PHASE_EARLY \<equiv> 0"
abbreviation (input) PHASE_QUIESCE :: u32 where "PHASE_QUIESCE \<equiv> 4"
abbreviation (input) PHASE_RUNTIME :: u32 where "PHASE_RUNTIME \<equiv> 5"

abbreviation (input) PRODUCT_INVALID :: u32 where "PRODUCT_INVALID \<equiv> 0"
abbreviation (input) PRODUCT_LIBRARY :: u32 where "PRODUCT_LIBRARY \<equiv> 1"
abbreviation (input) PRODUCT_BOOTLOADER :: u32 where "PRODUCT_BOOTLOADER \<equiv> 2"
abbreviation (input) PRODUCT_FIRMWARE :: u32 where "PRODUCT_FIRMWARE \<equiv> 3"

type_synonym address = nat

record 'o RibonPluginDescriptor =
  plugin_magic :: u32
  plugin_size :: u32
  plugin_abi_major :: "16 word"
  plugin_abi_minor :: "16 word"
  plugin_kind :: u32
  plugin_phase :: u32
  plugin_id :: "string option"
  plugin_provides :: u64
  plugin_requires :: u64
  plugin_architecture_mask :: u32
  plugin_environment_mask :: u32
  plugin_personality_mask :: u32
  plugin_mode_mask :: u32
  plugin_reserved :: u32
  plugin_arena_budget :: u64
  plugin_input_budget :: u64
  plugin_output_budget :: u64
  plugin_deadline_ms :: u64
  plugin_operations :: "'o option"
  plugin_operations_size :: u32
  plugin_operations_abi :: u32
  plugin_validate_operations :: "address option"

record RibonPluginSelection =
  selection_kind :: u32
  selection_id :: "string option"

record RibonServiceSelection =
  service_selection_kind :: u32
  service_selection_id :: "string option"

record RibonProductDescriptor =
  product_magic :: u32
  product_size :: u32
  product_abi_version :: u32
  product_id :: "string option"
  product_kind :: u32
  product_architecture_mask :: u32
  product_environment_mask :: u32
  product_personality_mask :: u32
  product_mode_mask :: u32
  product_max_plugins :: u32
  product_required_capabilities :: u64
  product_allowed_capabilities :: u64
  product_service_selections :: "RibonServiceSelection list option"
  product_service_selection_count :: u32
  product_plugin_selections :: "RibonPluginSelection list option"
  product_plugin_selection_count :: u32
  product_limits :: RibonResourceLimits

definition ribon_plugin_phase_name :: "u32 \<Rightarrow> string" where
  "ribon_plugin_phase_name phase =
     (if phase = 0 then ''early'' else if phase = 1 then ''foundation'' else if phase = 2 then ''driver''
      else if phase = 3 then ''boot'' else if phase = 4 then ''quiesce'' else if phase = 5 then ''runtime''
      else ''unknown'')"

definition ribon_plugin_kind_name :: "u32 \<Rightarrow> string" where
  "ribon_plugin_kind_name kind =
     (if kind = KIND_ARCHITECTURE then ''architecture''
      else if kind = KIND_ENVIRONMENT then ''environment''
      else if kind = KIND_IMAGE_FORMAT then ''image-format''
      else if kind = KIND_BOOT_PROTOCOL then ''boot-protocol''
      else if kind = KIND_POLICY then ''policy''
      else if kind = KIND_FIRMWARE_PERSONALITY then ''firmware-personality''
      else if kind = KIND_SERVICE then ''service''
      else ''unknown'')"

definition ribon_product_kind_name :: "u32 \<Rightarrow> string" where
  "ribon_product_kind_name kind =
     (if kind = PRODUCT_LIBRARY then ''library''
      else if kind = PRODUCT_BOOTLOADER then ''bootloader''
      else if kind = PRODUCT_FIRMWARE then ''firmware''
      else ''invalid'')"

definition plugin_one_bit :: "u32 \<Rightarrow> bool" where
  "plugin_one_bit v = (v \<noteq> 0 \<and> v AND (v - 1) = 0)"

definition ribon_plugin_descriptor_is_valid ::
  "(address \<Rightarrow> 'o RibonPluginDescriptor \<Rightarrow> bool) \<Rightarrow> 'o RibonPluginDescriptor option \<Rightarrow> bool"
where
  "ribon_plugin_descriptor_is_valid call descriptor =
     (case descriptor of
        None \<Rightarrow> False
      | Some d \<Rightarrow>
          if plugin_magic d \<noteq> 0x5242504c \<or> plugin_size d \<noteq> 128 \<or>
             plugin_abi_major d \<noteq> 6 \<or> 0 < plugin_abi_minor d \<or>
             plugin_kind d < KIND_ARCHITECTURE \<or> KIND_SERVICE < plugin_kind d \<or>
             plugin_phase d < PHASE_EARLY \<or> PHASE_RUNTIME < plugin_phase d \<or>
             plugin_id d = None \<or> plugin_id d = Some [] \<or>
             plugin_provides d = 0 \<or>
             plugin_provides d AND NOT CAP_ALL \<noteq> 0 \<or>
             plugin_requires d AND NOT CAP_ALL \<noteq> 0 \<or>
             plugin_architecture_mask d AND NOT ARCH_MASK_ALL \<noteq> 0 \<or>
             plugin_architecture_mask d = 0 \<or>
             plugin_environment_mask d AND NOT ENV_MASK_ALL \<noteq> 0 \<or>
             plugin_personality_mask d AND NOT PERSONALITY_MASK_ALL \<noteq> 0 \<or>
             (plugin_environment_mask d = 0 \<and> plugin_personality_mask d = 0) \<or>
             plugin_mode_mask d AND NOT MODE_MASK_ALL \<noteq> 0 \<or>
             plugin_mode_mask d = 0 \<or>
             plugin_reserved d \<noteq> 0 \<or>
             plugin_arena_budget d = 0 \<or> plugin_input_budget d = 0 \<or>
             plugin_output_budget d = 0 \<or> plugin_deadline_ms d = 0 \<or>
             plugin_operations d = None \<or> plugin_operations_size d = 0 \<or>
             plugin_operations_abi d = 0 \<or> plugin_validate_operations d = None
          then False
          else call (the (plugin_validate_operations d)) d)"

definition ribon_product_descriptor_is_valid :: "RibonProductDescriptor option \<Rightarrow> bool" where
  "ribon_product_descriptor_is_valid product =
     (case product of
        None \<Rightarrow> False
      | Some p \<Rightarrow>
          let frontend_is_valid =
            ((product_kind p = PRODUCT_LIBRARY \<or> product_kind p = PRODUCT_BOOTLOADER) \<and>
             plugin_one_bit (product_environment_mask p) \<and> product_personality_mask p = 0) \<or>
            (product_kind p = PRODUCT_FIRMWARE \<and> product_environment_mask p = 0 \<and>
             plugin_one_bit (product_personality_mask p))
          in if product_magic p \<noteq> 0x52425044 \<or> product_size p \<noteq> 144 \<or>
                product_abi_version p \<noteq> 7 \<or>
                product_id p = None \<or> product_id p = Some [] \<or>
                product_kind p \<le> PRODUCT_INVALID \<or> PRODUCT_FIRMWARE < product_kind p \<or>
                \<not> plugin_one_bit (product_architecture_mask p) \<or>
                product_architecture_mask p AND NOT ARCH_MASK_ALL \<noteq> 0 \<or>
                product_environment_mask p AND NOT ENV_MASK_ALL \<noteq> 0 \<or>
                product_personality_mask p AND NOT PERSONALITY_MASK_ALL \<noteq> 0 \<or>
                \<not> frontend_is_valid \<or>
                product_mode_mask p = 0 \<or>
                product_mode_mask p AND NOT MODE_MASK_ALL \<noteq> 0 \<or>
                product_max_plugins p = 0 \<or> 64 < product_max_plugins p \<or>
                product_required_capabilities p AND NOT CAP_ALL \<noteq> 0 \<or>
                product_allowed_capabilities p AND NOT CAP_ALL \<noteq> 0 \<or>
                product_required_capabilities p AND NOT (product_allowed_capabilities p) \<noteq> 0 \<or>
                64 < product_service_selection_count p \<or>
                (product_service_selection_count p \<noteq> 0 \<and> product_service_selections p = None) \<or>
                64 < product_plugin_selection_count p \<or>
                (product_plugin_selection_count p \<noteq> 0 \<and> product_plugin_selections p = None)
             then False
             else ribon_resource_limits_are_valid (product_limits p))"

end
