(* ===== verification/Registry.thy ===== *)
theory Registry
  imports Plugin
begin

text \<open>
  The plugin registry of a product (\<open>src/core/registry.c\<close>): lookup, selection of providers and the
  validation that accepts a registry exactly when every plugin fits the product, every requirement
  has an unambiguous provider of no later phase, and the dependencies have no cycle.
\<close>

section \<open>Lookup and selection\<close>

record 'o RibonPluginRegistry =
  registry_size :: u32
  registry_abi_version :: u32
  registry_plugins :: "'o RibonPluginDescriptor option list option"
  registry_plugin_count :: u32

fun registry_strcmp :: "string \<Rightarrow> string \<Rightarrow> int" where
  "registry_strcmp [] [] = 0"
| "registry_strcmp (a # as) [] = of_char a"
| "registry_strcmp [] (b # bs) = - of_char b"
| "registry_strcmp (a # as) (b # bs) =
     (if a = b then registry_strcmp as bs else of_char a - of_char b)"

definition registry_capability_is_authority :: "u64 \<Rightarrow> bool" where
  "registry_capability_is_authority capability =
     (capability = CAP_ARCHITECTURE \<or> capability = CAP_FIRMWARE_PERSONALITY \<or>
      capability = CAP_FIRMWARE_SERVICE_DIRECTORY)"

definition registry_capability_is_service :: "u64 \<Rightarrow> bool" where
  "registry_capability_is_service capability =
     (capability = CAP_BOOT_SOURCE_READ \<or> capability = CAP_INACTIVE_SLOT_WRITE \<or>
      capability = CAP_INACTIVE_SLOT_ERASE \<or> capability = CAP_STORAGE_FLUSH \<or>
      capability = CAP_MONOTONIC_TIMER \<or> capability = CAP_WATCHDOG \<or> capability = CAP_RESET \<or>
      capability = CAP_PERSISTENT_METADATA \<or> capability = CAP_NETWORK_TRANSPORT \<or>
      capability = CAP_RANDOM_NONCE \<or> capability = CAP_DIAGNOSTIC_SINK \<or>
      capability = CAP_ENVIRONMENT_QUIESCE \<or> capability = CAP_MACHINE_DESCRIPTION \<or>
      capability = CAP_PAYLOAD_PLACEMENT \<or> capability = CAP_BOOT_MODULE_BUNDLE \<or>
      capability = CAP_TERMINAL_IMAGE_LAUNCH)"

text \<open>The array of \<open>count\<close> elements behind a pointer; the pointer is null only when nothing is read.\<close>

definition elements :: "'a list option \<Rightarrow> u32 \<Rightarrow> 'a list" where
  "elements items n = (case items of None \<Rightarrow> [] | Some xs \<Rightarrow> take (unat n) xs)"

abbreviation plugin_selections :: "RibonProductDescriptor \<Rightarrow> RibonPluginSelection list" where
  "plugin_selections product \<equiv>
     elements (product_plugin_selections product) (product_plugin_selection_count product)"

abbreviation plugins_of :: "'o RibonPluginRegistry \<Rightarrow> 'o RibonPluginDescriptor option list" where
  "plugins_of registry \<equiv> elements (registry_plugins registry) (registry_plugin_count registry)"

definition registry_is_selected_provider ::
  "RibonProductDescriptor \<Rightarrow> 'o RibonPluginDescriptor \<Rightarrow> u64 \<Rightarrow> bool"
where
  "registry_is_selected_provider product plugin capability =
     list_ex (\<lambda>selection.
       selection_kind selection = plugin_kind plugin \<and> selection_id selection \<noteq> None \<and>
       registry_strcmp (the (selection_id selection)) (the (plugin_id plugin)) = 0 \<and>
       plugin_provides plugin AND capability \<noteq> 0) (plugin_selections product)"

definition ribon_plugin_registry_find ::
  "'o RibonPluginRegistry option \<Rightarrow> u32 \<Rightarrow> string option \<Rightarrow> 'o RibonPluginDescriptor option"
where
  "ribon_plugin_registry_find registry kind ident =
     (if registry = None \<or> ident = None \<or> registry_plugins (the registry) = None then None
      else
        case find (\<lambda>plugin. plugin \<noteq> None \<and> plugin_kind (the plugin) = kind \<and>
                    registry_strcmp (the (plugin_id (the plugin))) (the ident) = 0)
               (plugins_of (the registry)) of
          None \<Rightarrow> None
        | Some plugin \<Rightarrow> plugin)"

text \<open>The loop over the selections, which looks at the one before.\<close>

fun selections_ordered :: "(u32 \<Rightarrow> string option \<Rightarrow> bool) \<Rightarrow> u32 option \<Rightarrow> RibonPluginSelection list \<Rightarrow> bool" where
  "selections_ordered found previous [] = True"
| "selections_ordered found previous (selection # rest) =
     (if selection_kind selection < KIND_ARCHITECTURE \<or> KIND_SERVICE < selection_kind selection \<or>
         selection_id selection = None \<or> selection_id selection = Some [] \<or>
         (previous \<noteq> None \<and> selection_kind selection \<le> the previous) \<or>
         \<not> found (selection_kind selection) (selection_id selection)
      then False else selections_ordered found (Some (selection_kind selection)) rest)"

definition registry_plugin_selections_are_valid ::
  "'o RibonPluginRegistry \<Rightarrow> RibonProductDescriptor \<Rightarrow> bool"
where
  "registry_plugin_selections_are_valid registry product =
     selections_ordered (\<lambda>kind ident. ribon_plugin_registry_find (Some registry) kind ident \<noteq> None) None
       (plugin_selections product)"

fun unique_of_kind :: "u32 \<Rightarrow> 'o RibonPluginDescriptor option \<Rightarrow> 'o RibonPluginDescriptor list \<Rightarrow>
   'o RibonPluginDescriptor option" where
  "unique_of_kind kind found [] = found"
| "unique_of_kind kind found (candidate # rest) =
     (if plugin_kind candidate \<noteq> kind then unique_of_kind kind found rest
      else if found \<noteq> None then None else unique_of_kind kind (Some candidate) rest)"

definition ribon_plugin_registry_find_selected ::
  "'o RibonPluginRegistry option \<Rightarrow> RibonProductDescriptor option \<Rightarrow> u32 \<Rightarrow>
   'o RibonPluginDescriptor option"
where
  "ribon_plugin_registry_find_selected registry product kind =
     (if registry = None \<or> product = None then None
      else
        case find (\<lambda>selection. selection_kind selection = kind) (plugin_selections (the product)) of
          Some selection \<Rightarrow> ribon_plugin_registry_find registry kind (selection_id selection)
        | None \<Rightarrow> unique_of_kind kind None (map the (plugins_of (the registry))))"

section \<open>Providers\<close>

text \<open>The members \<open>found\<close>, \<open>selected\<close> and \<open>count\<close> of the provider search.\<close>

definition provider_step ::
  "'o RibonPluginDescriptor list \<Rightarrow> RibonProductDescriptor \<Rightarrow> u64 \<Rightarrow> nat \<Rightarrow> nat \<times> nat \<times> nat \<Rightarrow>
   RibonCoreStatus + nat \<times> nat \<times> nat"
where
  "provider_step plugins product capability index state =
     (case state of (found, selected, n) \<Rightarrow>
        let plugin = plugins ! index
        in if plugin_provides plugin AND capability = 0 then Inr state
           else
             let chosen = registry_is_selected_provider product plugin capability
             in if chosen \<and> selected \<noteq> PLUGIN_REGISTRY_LIMIT then Inl CORE_AMBIGUOUS_SELECTION
                else Inr (if found = PLUGIN_REGISTRY_LIMIT then index else found,
                          if chosen then index else selected, n + 1))"

definition registry_provider ::
  "'o RibonPluginDescriptor list \<Rightarrow> RibonProductDescriptor \<Rightarrow> u64 \<Rightarrow> RibonCoreStatus + nat"
where
  "registry_provider plugins product capability =
     (case fold_result (provider_step plugins product capability) [0..<length plugins]
             (PLUGIN_REGISTRY_LIMIT, PLUGIN_REGISTRY_LIMIT, 0) of
        Inl e \<Rightarrow> Inl e
      | Inr (found, selected, n) \<Rightarrow>
          if n = 0 then Inl CORE_MISSING_CAPABILITY
          else if registry_capability_is_authority capability
          then (if n \<noteq> 1 then Inl CORE_DUPLICATE_PROVIDER else Inr found)
          else if selected \<noteq> PLUGIN_REGISTRY_LIMIT then Inr selected
          else if n \<noteq> 1 then Inl CORE_AMBIGUOUS_SELECTION
          else Inr found)"

section \<open>Validation\<close>

text \<open>The totals that the first loop keeps.\<close>

record registry_totals =
  total_arena :: u64
  total_capabilities :: u64
  total_architectures :: nat
  total_environments :: nat
  total_personalities :: nat

definition registry_plugin_step ::
  "(address \<Rightarrow> 'o RibonPluginDescriptor \<Rightarrow> bool) \<Rightarrow> RibonProductDescriptor \<Rightarrow> u32 \<Rightarrow>
   'o RibonPluginDescriptor option list \<Rightarrow> nat \<Rightarrow> registry_totals \<Rightarrow> RibonCoreStatus + registry_totals"
where
  "registry_plugin_step call product mode plugins index t =
     (let plugin = plugins ! index;
          p = the plugin;
          limits = product_limits product;
          frontend_matches =
            (if product_kind product = PRODUCT_FIRMWARE
             then plugin \<noteq> None \<and> plugin_personality_mask p AND product_personality_mask product \<noteq> 0
             else plugin \<noteq> None \<and> plugin_environment_mask p AND product_environment_mask product \<noteq> 0)
      in if \<not> ribon_plugin_descriptor_is_valid call plugin \<or>
            plugin_architecture_mask p AND product_architecture_mask product = 0 \<or>
            \<not> frontend_matches \<or>
            plugin_mode_mask p AND MODE_MASK mode = 0 \<or>
            plugin_provides p AND NOT (product_allowed_capabilities product) \<noteq> 0 \<or>
            max_input_bytes limits < plugin_input_budget p \<or>
            max_handoff_bytes limits < plugin_output_budget p \<or>
            operation_deadline_ms limits < plugin_deadline_ms p \<or>
            (plugin_phase p = PHASE_RUNTIME \<and> product_kind product \<noteq> PRODUCT_FIRMWARE) \<or>
            (plugin_kind p = KIND_FIRMWARE_PERSONALITY \<and> product_kind product \<noteq> PRODUCT_FIRMWARE) \<or>
            (plugin_kind p = KIND_ENVIRONMENT \<and> product_kind product = PRODUCT_FIRMWARE) \<or>
            (index \<noteq> 0 \<and>
             0 \<le> registry_strcmp (the (plugin_id (the (plugins ! (index - 1))))) (the (plugin_id p)))
         then Inl CORE_INVALID_DESCRIPTOR
         else if UINT64_MAX - plugin_arena_budget p < total_arena t then Inl CORE_BAD_LIMIT
         else Inr \<lparr>total_arena = total_arena t + plugin_arena_budget p,
                   total_capabilities = total_capabilities t OR plugin_provides p,
                   total_architectures = total_architectures t + (if plugin_kind p = KIND_ARCHITECTURE then 1 else 0),
                   total_environments = total_environments t + (if plugin_kind p = KIND_ENVIRONMENT then 1 else 0),
                   total_personalities =
                     total_personalities t + (if plugin_kind p = KIND_FIRMWARE_PERSONALITY then 1 else 0)\<rparr>)"

definition capability_bit :: "nat \<Rightarrow> u64" where
  "capability_bit b = push_bit b 1"

definition authorities_unique :: "'o RibonPluginDescriptor list \<Rightarrow> bool" where
  "authorities_unique plugins =
     list_all (\<lambda>b. let capability = capability_bit b
                   in \<not> registry_capability_is_authority capability \<or>
                      length (filter (\<lambda>p. plugin_provides p AND capability \<noteq> 0) plugins) \<le> 1) [0..<64]"

definition requirements_met :: "RibonProductDescriptor \<Rightarrow> u64 \<Rightarrow> bool" where
  "requirements_met product aggregate =
     list_all (\<lambda>b. let capability = capability_bit b
                   in \<not> (product_required_capabilities product AND capability \<noteq> 0 \<and>
                         \<not> registry_capability_is_service capability \<and>
                         aggregate AND capability = 0)) [0..<64]"

text \<open>The dependency matrix, one word of consumers per provider, and the number of providers of each.\<close>

type_synonym dependency_graph = "u64 list \<times> u32 list"

definition dependency_step ::
  "'o RibonPluginDescriptor list \<Rightarrow> RibonProductDescriptor \<Rightarrow> u64 \<Rightarrow> nat \<times> nat \<Rightarrow> dependency_graph \<Rightarrow>
   RibonCoreStatus + dependency_graph"
where
  "dependency_step plugins product aggregate = (\<lambda>(consumer, b) (dependencies, indegree).
     let required = plugin_requires (plugins ! consumer);
         capability = capability_bit b
     in if required AND capability = 0 then Inr (dependencies, indegree)
        else if registry_capability_is_service capability \<and> aggregate AND capability = 0
        then (if product_required_capabilities product AND capability = 0
              then Inl CORE_MISSING_CAPABILITY else Inr (dependencies, indegree))
        else
          case registry_provider plugins product capability of
            Inl e \<Rightarrow> Inl e
          | Inr provider \<Rightarrow>
              if provider = consumer then Inl CORE_DEPENDENCY_CYCLE
              else if plugin_phase (plugins ! consumer) < plugin_phase (plugins ! provider)
              then Inl CORE_PHASE_INVERSION
              else if dependencies ! provider AND push_bit consumer 1 = 0
              then Inr (dependencies[provider := dependencies ! provider OR push_bit consumer 1],
                        indegree[consumer := indegree ! consumer + 1])
              else Inr (dependencies, indegree))"

text \<open>One turn of the inner loop over the consumers of a provider that is done.\<close>

definition release_consumer :: "u64 \<Rightarrow> nat \<Rightarrow> u32 list \<times> nat list \<Rightarrow> u32 list \<times> nat list" where
  "release_consumer consumers consumer = (\<lambda>(indegree, ready).
     if consumers AND push_bit consumer 1 = 0 then (indegree, ready)
     else
       let indegree = indegree[consumer := indegree ! consumer - 1]
       in (indegree, if indegree ! consumer = 0 then ready @ [consumer] else ready))"

text \<open>
  The loop that takes providers off the stack \<open>ready\<close>. The fuel bounds the turns; it runs out only
  if a plugin were taken twice.
\<close>

fun visit_loop :: "nat \<Rightarrow> nat \<Rightarrow> u64 list \<Rightarrow> u32 list \<Rightarrow> nat list \<Rightarrow> nat \<Rightarrow> nat option" where
  "visit_loop fuel n dependencies indegree ready visited =
     (if ready = [] then Some visited
      else
        case fuel of
          0 \<Rightarrow> None
        | Suc fuel' \<Rightarrow>
            (case fold (release_consumer (dependencies ! last ready)) [0..<n] (indegree, butlast ready) of
               (indegree', ready') \<Rightarrow> visit_loop fuel' n dependencies indegree' ready' (visited + 1)))"

definition dependencies_acyclic :: "nat \<Rightarrow> dependency_graph \<Rightarrow> RibonCoreStatus option" where
  "dependencies_acyclic n = (\<lambda>(dependencies, indegree).
     map_option (\<lambda>visited. if visited = n then CORE_OK else CORE_DEPENDENCY_CYCLE)
       (visit_loop n n dependencies indegree (filter (\<lambda>i. indegree ! i = 0) [0..<n]) 0))"

definition registry_arguments_valid ::
  "'o RibonPluginRegistry option \<Rightarrow> RibonProductDescriptor option \<Rightarrow> u32 \<Rightarrow> bool"
where
  "registry_arguments_valid registry product mode =
     (\<not> (registry = None \<or> registry_size (the registry) \<noteq> 24 \<or>
         registry_abi_version (the registry) \<noteq> 7 \<or> registry_plugins (the registry) = None \<or>
         registry_plugin_count (the registry) = 0 \<or>
         \<not> ribon_product_descriptor_is_valid product \<or>
         mode < MODE_NORMAL \<or> MODE_DIAGNOSTIC < mode \<or>
         product_max_plugins (the product) < registry_plugin_count (the registry)))"

definition registry_totals_valid :: "RibonProductDescriptor \<Rightarrow> registry_totals \<Rightarrow> bool" where
  "registry_totals_valid p t =
     (\<not> (arena_bytes (product_limits p) < total_arena t \<or>
         (product_kind p = PRODUCT_BOOTLOADER \<and>
          (total_architectures t \<noteq> 1 \<or> total_environments t \<noteq> 1 \<or> total_personalities t \<noteq> 0)) \<or>
         (product_kind p = PRODUCT_FIRMWARE \<and>
          (total_architectures t \<noteq> 1 \<or> total_personalities t \<noteq> 1 \<or> total_environments t \<noteq> 0))))"

definition ribon_plugin_registry_validate ::
  "(address \<Rightarrow> 'o RibonPluginDescriptor \<Rightarrow> bool) \<Rightarrow> 'o RibonPluginRegistry option \<Rightarrow>
   RibonProductDescriptor option \<Rightarrow> u32 \<Rightarrow> RibonCoreStatus option"
where
  "ribon_plugin_registry_validate call registry product mode =
     (if \<not> registry_arguments_valid registry product mode then Some CORE_INVALID_DESCRIPTOR
      else
        let r = the registry; p = the product;
            n = unat (registry_plugin_count r)
        in case fold_result (registry_plugin_step call p mode (plugins_of r)) [0..<n]
                  \<lparr>total_arena = 0, total_capabilities = 0, total_architectures = 0,
                   total_environments = 0, total_personalities = 0\<rparr> of
             Inl e \<Rightarrow> Some e
           | Inr t \<Rightarrow>
               let plugins = map the (plugins_of r)
               in if \<not> registry_plugin_selections_are_valid r p then Some CORE_INVALID_DESCRIPTOR
                  else if \<not> authorities_unique plugins then Some CORE_DUPLICATE_PROVIDER
                  else if \<not> registry_totals_valid p t then Some CORE_MISSING_CAPABILITY
                  else if \<not> requirements_met p (total_capabilities t) then Some CORE_MISSING_CAPABILITY
                  else
                    case fold_result (dependency_step plugins p (total_capabilities t))
                           (List.product [0..<n] [0..<64]) (replicate 64 0, replicate 64 0) of
                      Inl e \<Rightarrow> Some e
                    | Inr graph \<Rightarrow> dependencies_acyclic n graph)"

end
