(* ===== verification/Service_Directory.thy ===== *)
theory Service_Directory
  imports Registry
begin

text \<open>
  The typed service directory of a product (\<open>src/core/service_directory.c\<close>,
  \<open>include/Ribon/service/directory.h\<close>): descriptors of services, lookup, and the validation of a
  directory against the product. The type of the operation table that a descriptor points to is a
  type parameter; a validator of one kind of table is the instance at the type it casts to.
\<close>

section \<open>Descriptors\<close>

abbreviation (input) SERVICE_BOOT_SOURCE :: u32 where "SERVICE_BOOT_SOURCE \<equiv> 0"
abbreviation (input) SERVICE_INACTIVE_SLOT_STORAGE :: u32 where "SERVICE_INACTIVE_SLOT_STORAGE \<equiv> 1"
abbreviation (input) SERVICE_STORAGE_FLUSH :: u32 where "SERVICE_STORAGE_FLUSH \<equiv> 2"
abbreviation (input) SERVICE_MONOTONIC_TIMER :: u32 where "SERVICE_MONOTONIC_TIMER \<equiv> 3"
abbreviation (input) SERVICE_WATCHDOG :: u32 where "SERVICE_WATCHDOG \<equiv> 4"
abbreviation (input) SERVICE_RESET :: u32 where "SERVICE_RESET \<equiv> 5"
abbreviation (input) SERVICE_PERSISTENT_METADATA :: u32 where "SERVICE_PERSISTENT_METADATA \<equiv> 6"
abbreviation (input) SERVICE_NETWORK_TRANSPORT :: u32 where "SERVICE_NETWORK_TRANSPORT \<equiv> 7"
abbreviation (input) SERVICE_RANDOM_NONCE :: u32 where "SERVICE_RANDOM_NONCE \<equiv> 8"
abbreviation (input) SERVICE_DIAGNOSTIC_SINK :: u32 where "SERVICE_DIAGNOSTIC_SINK \<equiv> 9"
abbreviation (input) SERVICE_ENVIRONMENT_QUIESCE :: u32 where "SERVICE_ENVIRONMENT_QUIESCE \<equiv> 10"
abbreviation (input) SERVICE_MACHINE_DESCRIPTION :: u32 where "SERVICE_MACHINE_DESCRIPTION \<equiv> 11"
abbreviation (input) SERVICE_PAYLOAD_PLACEMENT :: u32 where "SERVICE_PAYLOAD_PLACEMENT \<equiv> 12"
abbreviation (input) SERVICE_BOOT_MODULE_BUNDLE :: u32 where "SERVICE_BOOT_MODULE_BUNDLE \<equiv> 13"
abbreviation (input) SERVICE_TERMINAL_IMAGE_LAUNCH :: u32 where "SERVICE_TERMINAL_IMAGE_LAUNCH \<equiv> 14"

abbreviation (input) CARDINALITY_AUTHORITY :: u32 where "CARDINALITY_AUTHORITY \<equiv> 0"
abbreviation (input) CARDINALITY_COLLECTION :: u32 where "CARDINALITY_COLLECTION \<equiv> 1"
abbreviation (input) LIFETIME_BOOT :: u32 where "LIFETIME_BOOT \<equiv> 0"
abbreviation (input) LIFETIME_PERSISTENT :: u32 where "LIFETIME_PERSISTENT \<equiv> 2"

abbreviation (input) SERVICE_ABI_VERSION :: u32 where "SERVICE_ABI_VERSION \<equiv> 4"
abbreviation (input) SERVICE_DIRECTORY_ABI_VERSION :: u32 where "SERVICE_DIRECTORY_ABI_VERSION \<equiv> 1"

record 'o RibonServiceDescriptor =
  service_magic :: u32
  service_size :: u32
  service_abi_version :: u32
  service_kind :: u32
  service_cardinality :: u32
  service_lifetime :: u32
  service_phase :: u32
  service_id :: "string option"
  service_provides :: u64
  service_architecture_mask :: u32
  service_environment_mask :: u32
  service_personality_mask :: u32
  service_mode_mask :: u32
  service_arena_budget :: u64
  service_input_budget :: u64
  service_output_budget :: u64
  service_deadline_ms :: u64
  service_operations :: "'o option"
  service_operations_size :: u32
  service_operations_abi :: u32
  service_validate_operations :: "address option"

record 'o RibonServiceDirectory =
  directory_size :: u32
  directory_abi_version :: u32
  directory_services :: "'o RibonServiceDescriptor option list option"
  directory_service_count :: u32

definition service_streq :: "string option \<Rightarrow> string option \<Rightarrow> bool" where
  "service_streq lhs rhs = (lhs \<noteq> None \<and> rhs \<noteq> None \<and> lhs = rhs)"

fun service_strcmp :: "string \<Rightarrow> string \<Rightarrow> int" where
  "service_strcmp [] [] = 0"
| "service_strcmp (a # as) [] = of_char a"
| "service_strcmp [] (b # bs) = - of_char b"
| "service_strcmp (a # as) (b # bs) =
     (if a = b then service_strcmp as bs else of_char a - of_char b)"

definition service_capabilities :: "u32 \<Rightarrow> u64" where
  "service_capabilities kind =
     (if kind = SERVICE_BOOT_SOURCE then CAP_BOOT_SOURCE_READ
      else if kind = SERVICE_INACTIVE_SLOT_STORAGE then CAP_INACTIVE_SLOT_WRITE OR CAP_INACTIVE_SLOT_ERASE
      else if kind = SERVICE_STORAGE_FLUSH then CAP_STORAGE_FLUSH
      else if kind = SERVICE_MONOTONIC_TIMER then CAP_MONOTONIC_TIMER
      else if kind = SERVICE_WATCHDOG then CAP_WATCHDOG
      else if kind = SERVICE_RESET then CAP_RESET
      else if kind = SERVICE_PERSISTENT_METADATA then CAP_PERSISTENT_METADATA
      else if kind = SERVICE_NETWORK_TRANSPORT then CAP_NETWORK_TRANSPORT
      else if kind = SERVICE_RANDOM_NONCE then CAP_RANDOM_NONCE
      else if kind = SERVICE_DIAGNOSTIC_SINK then CAP_DIAGNOSTIC_SINK
      else if kind = SERVICE_ENVIRONMENT_QUIESCE then CAP_ENVIRONMENT_QUIESCE
      else if kind = SERVICE_MACHINE_DESCRIPTION then CAP_MACHINE_DESCRIPTION
      else if kind = SERVICE_PAYLOAD_PLACEMENT then CAP_PAYLOAD_PLACEMENT
      else if kind = SERVICE_BOOT_MODULE_BUNDLE then CAP_BOOT_MODULE_BUNDLE
      else if kind = SERVICE_TERMINAL_IMAGE_LAUNCH then CAP_TERMINAL_IMAGE_LAUNCH
      else 0)"

definition ribon_service_kind_name :: "u32 \<Rightarrow> string" where
  "ribon_service_kind_name kind =
     (if kind = SERVICE_BOOT_SOURCE then ''boot-source''
      else if kind = SERVICE_INACTIVE_SLOT_STORAGE then ''inactive-slot-storage''
      else if kind = SERVICE_STORAGE_FLUSH then ''storage-flush''
      else if kind = SERVICE_MONOTONIC_TIMER then ''monotonic-timer''
      else if kind = SERVICE_WATCHDOG then ''watchdog''
      else if kind = SERVICE_RESET then ''reset''
      else if kind = SERVICE_PERSISTENT_METADATA then ''persistent-metadata''
      else if kind = SERVICE_NETWORK_TRANSPORT then ''network-transport''
      else if kind = SERVICE_RANDOM_NONCE then ''random-nonce''
      else if kind = SERVICE_DIAGNOSTIC_SINK then ''diagnostic-sink''
      else if kind = SERVICE_ENVIRONMENT_QUIESCE then ''environment-quiesce''
      else if kind = SERVICE_MACHINE_DESCRIPTION then ''machine-description''
      else if kind = SERVICE_PAYLOAD_PLACEMENT then ''payload-placement''
      else if kind = SERVICE_BOOT_MODULE_BUNDLE then ''boot-module-bundle''
      else if kind = SERVICE_TERMINAL_IMAGE_LAUNCH then ''terminal-image-launch''
      else ''unknown'')"

definition ribon_service_descriptor_is_valid ::
  "(address \<Rightarrow> 'o RibonServiceDescriptor \<Rightarrow> bool) \<Rightarrow> 'o RibonServiceDescriptor option \<Rightarrow> bool"
where
  "ribon_service_descriptor_is_valid call descriptor =
     (case descriptor of
        None \<Rightarrow> False
      | Some d \<Rightarrow>
          if service_magic d \<noteq> 0x52425356 \<or> service_size d \<noteq> 120 \<or>
             service_abi_version d \<noteq> SERVICE_ABI_VERSION \<or>
             service_capabilities (service_kind d) = 0 \<or>
             service_cardinality d < CARDINALITY_AUTHORITY \<or>
             CARDINALITY_COLLECTION < service_cardinality d \<or>
             service_lifetime d < LIFETIME_BOOT \<or> LIFETIME_PERSISTENT < service_lifetime d \<or>
             service_phase d < PHASE_EARLY \<or> PHASE_QUIESCE < service_phase d \<or>
             service_id d = None \<or> service_id d = Some [] \<or>
             service_provides d \<noteq> service_capabilities (service_kind d) \<or>
             service_architecture_mask d AND NOT ARCH_MASK_ALL \<noteq> 0 \<or>
             service_architecture_mask d = 0 \<or>
             service_environment_mask d AND NOT ENV_MASK_ALL \<noteq> 0 \<or>
             service_personality_mask d AND NOT PERSONALITY_MASK_ALL \<noteq> 0 \<or>
             (service_environment_mask d = 0 \<and> service_personality_mask d = 0) \<or>
             service_mode_mask d AND NOT MODE_MASK_ALL \<noteq> 0 \<or>
             service_mode_mask d = 0 \<or>
             service_arena_budget d = 0 \<or> service_input_budget d = 0 \<or>
             service_output_budget d = 0 \<or> service_deadline_ms d = 0 \<or>
             service_operations d = None \<or> service_operations_size d = 0 \<or>
             service_operations_abi d = 0 \<or> service_validate_operations d = None
          then False
          else call (the (service_validate_operations d)) d)"

section \<open>Lookup\<close>

abbreviation services_of :: "'o RibonServiceDirectory \<Rightarrow> 'o RibonServiceDescriptor option list" where
  "services_of directory \<equiv> elements (directory_services directory) (directory_service_count directory)"

abbreviation service_selections :: "RibonProductDescriptor \<Rightarrow> RibonServiceSelection list" where
  "service_selections product \<equiv>
     elements (product_service_selections product) (product_service_selection_count product)"

definition ribon_service_directory_find_exact ::
  "'o RibonServiceDirectory option \<Rightarrow> u32 \<Rightarrow> string option \<Rightarrow> 'o RibonServiceDescriptor option"
where
  "ribon_service_directory_find_exact directory kind ident =
     (if directory = None \<or> directory_services (the directory) = None \<or> ident = None then None
      else
        case find (\<lambda>service. service \<noteq> None \<and> service_kind (the service) = kind \<and>
                    service_streq (service_id (the service)) ident) (services_of (the directory)) of
          None \<Rightarrow> None
        | Some service \<Rightarrow> service)"

definition service_selection_is_valid :: "RibonServiceSelection \<Rightarrow> bool" where
  "service_selection_is_valid selection =
     (service_capabilities (service_selection_kind selection) \<noteq> 0 \<and>
      service_selection_id selection \<noteq> None \<and> service_selection_id selection \<noteq> Some [])"

definition ribon_service_directory_find_selected ::
  "'o RibonServiceDirectory option \<Rightarrow> RibonProductDescriptor option \<Rightarrow> u32 \<Rightarrow>
   'o RibonServiceDescriptor option"
where
  "ribon_service_directory_find_selected directory product kind =
     (if directory = None \<or> product = None then None
      else
        case find (\<lambda>selection. service_selection_kind selection = kind) (service_selections (the product)) of
          Some selection \<Rightarrow> ribon_service_directory_find_exact directory kind (service_selection_id selection)
        | None \<Rightarrow> None)"

section \<open>Validation\<close>

definition service_capability_mask :: u64 where
  "service_capability_mask =
     CAP_BOOT_SOURCE_READ OR CAP_INACTIVE_SLOT_WRITE OR CAP_INACTIVE_SLOT_ERASE OR CAP_STORAGE_FLUSH OR
     CAP_MONOTONIC_TIMER OR CAP_WATCHDOG OR CAP_RESET OR CAP_PERSISTENT_METADATA OR
     CAP_NETWORK_TRANSPORT OR CAP_RANDOM_NONCE OR CAP_DIAGNOSTIC_SINK OR CAP_ENVIRONMENT_QUIESCE OR
     CAP_MACHINE_DESCRIPTION OR CAP_PAYLOAD_PLACEMENT OR CAP_BOOT_MODULE_BUNDLE OR
     CAP_TERMINAL_IMAGE_LAUNCH"

text \<open>One turn of the loop over the services: the arena and the capabilities so far.\<close>

definition service_step ::
  "(address \<Rightarrow> 'o RibonServiceDescriptor \<Rightarrow> bool) \<Rightarrow> RibonProductDescriptor \<Rightarrow> u32 \<Rightarrow>
   'o RibonServiceDescriptor option list \<Rightarrow> nat \<Rightarrow> u64 \<times> u64 \<Rightarrow> RibonCoreStatus + u64 \<times> u64"
where
  "service_step call product mode services index = (\<lambda>(arena_budget, aggregate).
     let service = services ! index;
         s = the service;
         limits = product_limits product;
         frontend_matches =
           (if product_kind product = PRODUCT_FIRMWARE
            then service \<noteq> None \<and> service_personality_mask s AND product_personality_mask product \<noteq> 0
            else service \<noteq> None \<and> service_environment_mask s AND product_environment_mask product \<noteq> 0)
     in if \<not> ribon_service_descriptor_is_valid call service \<or>
           service_architecture_mask s AND product_architecture_mask product = 0 \<or>
           \<not> frontend_matches \<or>
           service_mode_mask s AND MODE_MASK mode = 0 \<or>
           service_provides s AND NOT (product_allowed_capabilities product) \<noteq> 0 \<or>
           max_input_bytes limits < service_input_budget s \<or>
           max_handoff_bytes limits < service_output_budget s \<or>
           operation_deadline_ms limits < service_deadline_ms s \<or>
           (index \<noteq> 0 \<and>
            0 \<le> service_strcmp (the (service_id (the (services ! (index - 1))))) (the (service_id s)))
        then Inl CORE_INVALID_DESCRIPTOR
        else if list_ex (\<lambda>previous.
               let other = the (services ! previous)
               in service_kind other = service_kind s \<and>
                  (service_cardinality other = CARDINALITY_AUTHORITY \<or>
                   service_cardinality s = CARDINALITY_AUTHORITY)) [0..<index]
        then Inl CORE_DUPLICATE_PROVIDER
        else if UINT64_MAX - service_arena_budget s < arena_budget then Inl CORE_BAD_LIMIT
        else Inr (arena_budget + service_arena_budget s, aggregate OR service_provides s))"

text \<open>The loop over the selections, which looks at the one before.\<close>

fun service_selections_check ::
  "'o RibonServiceDirectory option \<Rightarrow> u32 option \<Rightarrow> RibonServiceSelection list \<Rightarrow> RibonCoreStatus option"
where
  "service_selections_check directory previous [] = None"
| "service_selections_check directory previous (selection # rest) =
     (if \<not> service_selection_is_valid selection \<or>
         (previous \<noteq> None \<and> service_selection_kind selection \<le> the previous)
      then Some CORE_INVALID_DESCRIPTOR
      else
        case ribon_service_directory_find_exact directory (service_selection_kind selection)
               (service_selection_id selection) of
          None \<Rightarrow> Some CORE_MISSING_CAPABILITY
        | Some service \<Rightarrow>
            if service_cardinality service \<noteq> CARDINALITY_COLLECTION then Some CORE_AMBIGUOUS_SELECTION
            else service_selections_check directory (Some (service_selection_kind selection)) rest)"

text \<open>The last loop: a collection of several providers needs a selection.\<close>

definition service_is_ambiguous ::
  "'o RibonServiceDescriptor list \<Rightarrow> RibonServiceSelection list \<Rightarrow> 'o RibonServiceDescriptor \<Rightarrow> bool"
where
  "service_is_ambiguous services selections service =
     (service_cardinality service = CARDINALITY_COLLECTION \<and>
      1 < length (filter (\<lambda>other. service_kind other = service_kind service) services) \<and>
      \<not> list_ex (\<lambda>selection. service_selection_kind selection = service_kind service) selections)"

definition ribon_service_directory_validate ::
  "(address \<Rightarrow> 'o RibonServiceDescriptor \<Rightarrow> bool) \<Rightarrow> 'o RibonServiceDirectory option \<Rightarrow>
   RibonProductDescriptor option \<Rightarrow> u32 \<Rightarrow> RibonCoreStatus"
where
  "ribon_service_directory_validate call directory product mode =
     (if directory = None \<or> product = None \<or>
         directory_size (the directory) \<noteq> 24 \<or>
         directory_abi_version (the directory) \<noteq> SERVICE_DIRECTORY_ABI_VERSION \<or>
         64 < directory_service_count (the directory) \<or>
         (directory_service_count (the directory) \<noteq> 0 \<and> directory_services (the directory) = None) \<or>
         mode < MODE_NORMAL \<or> MODE_DIAGNOSTIC < mode
      then CORE_INVALID_DESCRIPTOR
      else
        let d = the directory; p = the product
        in case fold_result (service_step call p mode (services_of d))
                  [0..<unat (directory_service_count d)] (0, 0) of
             Inl e \<Rightarrow> e
           | Inr (arena_budget, aggregate) \<Rightarrow>
               if arena_bytes (product_limits p) < arena_budget \<or>
                  aggregate AND product_required_capabilities p AND service_capability_mask \<noteq>
                  product_required_capabilities p AND service_capability_mask
               then CORE_MISSING_CAPABILITY
               else
                 case service_selections_check directory None (service_selections p) of
                   Some e \<Rightarrow> e
                 | None \<Rightarrow>
                     if list_ex (service_is_ambiguous (map the (services_of d)) (service_selections p))
                          (map the (services_of d))
                     then CORE_AMBIGUOUS_SELECTION
                     else CORE_OK)"

section \<open>Typed operation tables\<close>

definition ribon_environment_plugin_operations_are_valid ::
  "(address \<Rightarrow> 'o RibonServiceDescriptor \<Rightarrow> bool) \<Rightarrow>
   'o RibonServiceDirectory RibonPluginDescriptor option \<Rightarrow> bool"
where
  "ribon_environment_plugin_operations_are_valid call descriptor =
     (case descriptor of
        None \<Rightarrow> False
      | Some p \<Rightarrow>
          if plugin_kind p \<noteq> KIND_ENVIRONMENT \<or> plugin_operations_size p \<noteq> 24 \<or>
             plugin_operations_abi p \<noteq> SERVICE_DIRECTORY_ABI_VERSION
          then False
          else
            case plugin_operations p of
              None \<Rightarrow> False
            | Some d \<Rightarrow>
                if directory_size d \<noteq> 24 \<or>
                   directory_abi_version d \<noteq> SERVICE_DIRECTORY_ABI_VERSION \<or>
                   directory_services d = None \<or> directory_service_count d = 0
                then False
                else
                  case fold_result
                         (\<lambda>service aggregate.
                            if \<not> ribon_service_descriptor_is_valid call service then Inl ()
                            else Inr (aggregate OR service_provides (the service)))
                         (services_of d) 0 of
                    Inl _ \<Rightarrow> False
                  | Inr aggregate \<Rightarrow> aggregate = plugin_provides p)"

record RibonDiagnosticSinkServiceOperations =
  diagnostic_size :: u32
  diagnostic_abi_version :: u32
  diagnostic_context :: "address option"
  diagnostic_initialize :: "address option"
  diagnostic_write :: "address option"

record RibonWatchdogServiceOperations =
  watchdog_size :: u32
  watchdog_abi_version :: u32
  watchdog_context :: "address option"
  watchdog_arm :: "address option"

record RibonMachineDescriptionServiceOperations =
  machine_size :: u32
  machine_abi_version :: u32
  machine_id :: "string option"
  native_input_capacity :: u64

record RibonPayloadPlacementServiceOperations =
  placement_size :: u32
  placement_abi_version :: u32
  physical_base :: u64
  physical_size :: u64

record RibonTerminalImageLaunchServiceOperations =
  terminal_size :: u32
  terminal_abi_version :: u32
  terminal_context :: "address option"
  terminal_launch :: "address option"

definition ribon_diagnostic_sink_service_operations_are_valid ::
  "RibonDiagnosticSinkServiceOperations RibonServiceDescriptor option \<Rightarrow> bool"
where
  "ribon_diagnostic_sink_service_operations_are_valid descriptor =
     (case descriptor of
        None \<Rightarrow> False
      | Some d \<Rightarrow>
          if service_kind d \<noteq> SERVICE_DIAGNOSTIC_SINK \<or> service_provides d \<noteq> CAP_DIAGNOSTIC_SINK \<or>
             service_operations_size d \<noteq> 32 \<or> service_operations_abi d \<noteq> SERVICE_ABI_VERSION
          then False
          else
            case service_operations d of
              None \<Rightarrow> False
            | Some operations \<Rightarrow>
                diagnostic_size operations = 32 \<and> diagnostic_abi_version operations = SERVICE_ABI_VERSION \<and>
                diagnostic_initialize operations \<noteq> None \<and> diagnostic_write operations \<noteq> None)"

definition ribon_watchdog_service_operations_are_valid ::
  "RibonWatchdogServiceOperations RibonServiceDescriptor option \<Rightarrow> bool"
where
  "ribon_watchdog_service_operations_are_valid descriptor =
     (case descriptor of
        None \<Rightarrow> False
      | Some d \<Rightarrow>
          if service_kind d \<noteq> SERVICE_WATCHDOG \<or> service_provides d \<noteq> CAP_WATCHDOG \<or>
             service_operations_size d \<noteq> 24 \<or> service_operations_abi d \<noteq> SERVICE_ABI_VERSION
          then False
          else
            case service_operations d of
              None \<Rightarrow> False
            | Some operations \<Rightarrow>
                watchdog_size operations = 24 \<and> watchdog_abi_version operations = SERVICE_ABI_VERSION \<and>
                watchdog_arm operations \<noteq> None)"

definition ribon_machine_description_service_operations_are_valid ::
  "RibonMachineDescriptionServiceOperations RibonServiceDescriptor option \<Rightarrow> bool"
where
  "ribon_machine_description_service_operations_are_valid descriptor =
     (case descriptor of
        None \<Rightarrow> False
      | Some d \<Rightarrow>
          if service_kind d \<noteq> SERVICE_MACHINE_DESCRIPTION \<or> service_provides d \<noteq> CAP_MACHINE_DESCRIPTION \<or>
             service_operations_size d \<noteq> 24 \<or> service_operations_abi d \<noteq> SERVICE_ABI_VERSION
          then False
          else
            case service_operations d of
              None \<Rightarrow> False
            | Some operations \<Rightarrow>
                machine_size operations = 24 \<and> machine_abi_version operations = SERVICE_ABI_VERSION \<and>
                machine_id operations \<noteq> None \<and> machine_id operations \<noteq> Some [] \<and>
                native_input_capacity operations \<noteq> 0)"

definition ribon_payload_placement_service_operations_are_valid ::
  "RibonPayloadPlacementServiceOperations RibonServiceDescriptor option \<Rightarrow> bool"
where
  "ribon_payload_placement_service_operations_are_valid descriptor =
     (case descriptor of
        None \<Rightarrow> False
      | Some d \<Rightarrow>
          if service_kind d \<noteq> SERVICE_PAYLOAD_PLACEMENT \<or> service_provides d \<noteq> CAP_PAYLOAD_PLACEMENT \<or>
             service_operations_size d \<noteq> 24 \<or> service_operations_abi d \<noteq> SERVICE_ABI_VERSION
          then False
          else
            case service_operations d of
              None \<Rightarrow> False
            | Some operations \<Rightarrow>
                placement_size operations = 24 \<and> placement_abi_version operations = SERVICE_ABI_VERSION \<and>
                physical_base operations \<noteq> 0 \<and> physical_size operations \<noteq> 0 \<and>
                physical_base operations \<le> UINT64_MAX - physical_size operations)"

definition ribon_terminal_image_launch_service_operations_are_valid ::
  "RibonTerminalImageLaunchServiceOperations RibonServiceDescriptor option \<Rightarrow> bool"
where
  "ribon_terminal_image_launch_service_operations_are_valid descriptor =
     (case descriptor of
        None \<Rightarrow> False
      | Some d \<Rightarrow>
          if service_kind d \<noteq> SERVICE_TERMINAL_IMAGE_LAUNCH \<or>
             service_provides d \<noteq> CAP_TERMINAL_IMAGE_LAUNCH \<or>
             service_operations_size d \<noteq> 24 \<or> service_operations_abi d \<noteq> SERVICE_ABI_VERSION
          then False
          else
            case service_operations d of
              None \<Rightarrow> False
            | Some operations \<Rightarrow>
                terminal_size operations = 24 \<and> terminal_abi_version operations = SERVICE_ABI_VERSION \<and>
                terminal_launch operations \<noteq> None)"

end
