(* ===== verification/Core_Context.thy ===== *)
theory Core_Context
  imports Service_Directory
begin

text \<open>
  The core context (\<open>src/core/context.c\<close>, \<open>include/Ribon/core/context.h\<close>) that ties product,
  registry, service directory, mode and arena together, and the four mode descriptors of
  \<open>src/modes\<close>.
\<close>

section \<open>Context\<close>

record ('o, 's) RibonCoreContext =
  context_size :: u32
  context_abi_version :: u32
  context_product :: "RibonProductDescriptor option"
  context_registry :: "'o RibonPluginRegistry option"
  context_services :: "'s RibonServiceDirectory option"
  context_mode :: "RibonModeDescriptor option"
  context_arena :: "RibonArena option"

definition ribon_version_string :: string where
  "ribon_version_string = ''0.4.0''"

text \<open>
  \<open>plugin_call\<close> and \<open>service_call\<close> are the validators behind the descriptors' function pointers.
  The result is \<open>None\<close> only if the registry's last loop ran out of turns.
\<close>

definition ribon_core_context_validate ::
  "(address \<Rightarrow> 'o RibonPluginDescriptor \<Rightarrow> bool) \<Rightarrow> (address \<Rightarrow> 's RibonServiceDescriptor \<Rightarrow> bool) \<Rightarrow>
   ('o, 's) RibonCoreContext option \<Rightarrow> RibonCoreStatus option"
where
  "ribon_core_context_validate plugin_call service_call ctx =
     (if ctx = None \<or> context_size (the ctx) \<noteq> 48 \<or> context_abi_version (the ctx) \<noteq> 7 \<or>
         context_product (the ctx) = None \<or> context_registry (the ctx) = None \<or>
         context_services (the ctx) = None \<or> context_mode (the ctx) = None \<or>
         context_arena (the ctx) = None
      then Some CORE_BAD_ARGUMENT
      else
        let c = the ctx; product = the (context_product c); mode = the (context_mode c);
            arena = the (context_arena c)
        in if \<not> ribon_mode_descriptor_is_valid (context_mode c) \<or>
              product_mode_mask product AND MODE_MASK (mode_mode mode) = 0
           then Some CORE_BAD_MODE
           else if base arena = 0 \<or> used arena \<noteq> 0 \<or> high_watermark arena \<noteq> 0 \<or>
                   capacity arena < arena_bytes (mode_limits mode) \<or>
                   capacity arena < arena_bytes (product_limits product)
           then Some CORE_BAD_LIMIT
           else
             case ribon_plugin_registry_validate plugin_call (context_registry c) (context_product c)
                    (mode_mode mode) of
               None \<Rightarrow> None
             | Some status \<Rightarrow>
                 if status \<noteq> CORE_OK then Some status
                 else Some (ribon_service_directory_validate service_call (context_services c)
                             (context_product c) (mode_mode mode)))"

definition context_zero :: "('o, 's) RibonCoreContext" where
  "context_zero = \<lparr>context_size = 0, context_abi_version = 0, context_product = None,
     context_registry = None, context_services = None, context_mode = None, context_arena = None\<rparr>"

text \<open>The status and the context stored through \<open>out\<close>.\<close>

definition ribon_context_initialize ::
  "(address \<Rightarrow> 'o RibonPluginDescriptor \<Rightarrow> bool) \<Rightarrow> (address \<Rightarrow> 's RibonServiceDescriptor \<Rightarrow> bool) \<Rightarrow>
   ('o, 's) RibonCoreContext option \<Rightarrow> RibonProductDescriptor option \<Rightarrow> 'o RibonPluginRegistry option \<Rightarrow>
   's RibonServiceDirectory option \<Rightarrow> RibonModeDescriptor option \<Rightarrow> RibonArena option \<Rightarrow>
   (RibonCoreStatus \<times> ('o, 's) RibonCoreContext option) option"
where
  "ribon_context_initialize plugin_call service_call out product registry services mode arena =
     (if out = None then Some (CORE_BAD_ARGUMENT, out)
      else
        let candidate = \<lparr>context_size = 48, context_abi_version = 7, context_product = product,
              context_registry = registry, context_services = services, context_mode = mode,
              context_arena = arena\<rparr>
        in map_option (\<lambda>status. if status \<noteq> CORE_OK then (status, Some context_zero)
                                else (CORE_OK, Some candidate))
             (ribon_core_context_validate plugin_call service_call (Some candidate)))"

section \<open>Modes\<close>

definition normal_mode :: RibonModeDescriptor where
  "normal_mode =
     \<lparr>mode_size = 88, mode_abi_version = 7, mode_mode = MODE_NORMAL, mode_name = Some ''normal'',
      mode_required_capabilities =
        CAP_BOOT_SOURCE_READ OR CAP_MONOTONIC_TIMER OR CAP_ARCHITECTURE OR CAP_BOOT_PROTOCOL OR
        CAP_HANDOFF OR CAP_ENTRY_CONTRACT,
      mode_forbidden_capabilities =
        CAP_INACTIVE_SLOT_WRITE OR CAP_INACTIVE_SLOT_ERASE OR CAP_NETWORK_TRANSPORT,
      mode_limits =
        \<lparr>max_memory_regions = 256, max_load_segments = 32, max_components = 32, max_retries = 2,
         max_input_bytes = 64 * 1024 * 1024, max_handoff_bytes = 64 * 1024, arena_bytes = 256 * 1024,
         operation_deadline_ms = 30000\<rparr>\<rparr>"

definition recovery_mode :: RibonModeDescriptor where
  "recovery_mode =
     \<lparr>mode_size = 88, mode_abi_version = 7, mode_mode = MODE_RECOVERY, mode_name = Some ''recovery'',
      mode_required_capabilities =
        CAP_BOOT_SOURCE_READ OR CAP_INACTIVE_SLOT_WRITE OR CAP_INACTIVE_SLOT_ERASE OR
        CAP_STORAGE_FLUSH OR CAP_MONOTONIC_TIMER OR CAP_PERSISTENT_METADATA OR CAP_RANDOM_NONCE OR
        CAP_ARCHITECTURE OR CAP_BOOT_PROTOCOL,
      mode_forbidden_capabilities = 0,
      mode_limits =
        \<lparr>max_memory_regions = 256, max_load_segments = 32, max_components = 32, max_retries = 4,
         max_input_bytes = 256 * 1024 * 1024, max_handoff_bytes = 64 * 1024, arena_bytes = 512 * 1024,
         operation_deadline_ms = 120000\<rparr>\<rparr>"

definition provisioning_mode :: RibonModeDescriptor where
  "provisioning_mode =
     \<lparr>mode_size = 88, mode_abi_version = 7, mode_mode = MODE_PROVISIONING, mode_name = Some ''provisioning'',
      mode_required_capabilities =
        CAP_INACTIVE_SLOT_WRITE OR CAP_STORAGE_FLUSH OR CAP_MONOTONIC_TIMER OR
        CAP_PERSISTENT_METADATA OR CAP_RANDOM_NONCE OR CAP_ARCHITECTURE,
      mode_forbidden_capabilities = 0,
      mode_limits =
        \<lparr>max_memory_regions = 256, max_load_segments = 32, max_components = 32, max_retries = 3,
         max_input_bytes = 256 * 1024 * 1024, max_handoff_bytes = 64 * 1024, arena_bytes = 512 * 1024,
         operation_deadline_ms = 120000\<rparr>\<rparr>"

definition diagnostic_mode :: RibonModeDescriptor where
  "diagnostic_mode =
     \<lparr>mode_size = 88, mode_abi_version = 7, mode_mode = MODE_DIAGNOSTIC, mode_name = Some ''diagnostic'',
      mode_required_capabilities = CAP_MONOTONIC_TIMER OR CAP_DIAGNOSTIC_SINK OR CAP_ARCHITECTURE,
      mode_forbidden_capabilities =
        CAP_INACTIVE_SLOT_WRITE OR CAP_INACTIVE_SLOT_ERASE OR CAP_PERSISTENT_METADATA,
      mode_limits =
        \<lparr>max_memory_regions = 512, max_load_segments = 64, max_components = 64, max_retries = 2,
         max_input_bytes = 64 * 1024 * 1024, max_handoff_bytes = 64 * 1024, arena_bytes = 1024 * 1024,
         operation_deadline_ms = 60000\<rparr>\<rparr>"

lemma modes_valid:
  "list_all (\<lambda>m. ribon_mode_descriptor_is_valid (Some m))
     [normal_mode, recovery_mode, provisioning_mode, diagnostic_mode]"
  by (simp add: ribon_mode_descriptor_is_valid_def core_streq_def ribon_mode_name_def
      ribon_resource_limits_are_valid_def normal_mode_def recovery_mode_def provisioning_mode_def
      diagnostic_mode_def)

end
