(* ===== verification/Registry_Graph.thy ===== *)
theory Registry_Graph
  imports Registry
begin

text \<open>
  The last loop of the registry's validation decides whether the dependency graph has a cycle: it
  always ends, each plugin is taken at most once, and all are taken exactly if the graph is acyclic.
\<close>

section \<open>Releasing the consumers of one provider\<close>

definition edge :: "u64 list \<Rightarrow> nat \<Rightarrow> nat \<Rightarrow> bool" where
  "edge dependencies p c \<longleftrightarrow> bit (dependencies ! p) c"

lemma and_push_bit_eq_0: "w AND push_bit c 1 = 0 \<longleftrightarrow> \<not> bit w c" for w :: "'a::len word"
proof
  assume "w AND push_bit c 1 = 0"
  then have "\<not> bit (w AND push_bit c 1) c" by simp
  then show "\<not> bit w c" using bit_imp_le_length [of w c] by (auto simp: bit_simps)
next
  assume "\<not> bit w c"
  then show "w AND push_bit c 1 = 0"
    by (intro bit_word_eqI) (auto simp: bit_simps)
qed

lemma and_power_eq_0: "w AND 2 ^ c = 0 \<longleftrightarrow> \<not> bit w c" for w :: "'a::len word"
  using and_push_bit_eq_0 [of w c] by (simp add: push_bit_eq_mult)

lemma release_consumers:
  assumes "n \<le> length indegree"
  shows "fold (release_consumer m) [0..<n] (indegree, ready) =
    (map (\<lambda>i. if i < n \<and> bit m i then indegree ! i - 1 else indegree ! i) [0..<length indegree],
     ready @ filter (\<lambda>i. bit m i \<and> indegree ! i = 1) [0..<n])"
  using assms
proof (induction n)
  case 0
  then show ?case by (simp add: map_nth)
next
  case (Suc n)
  have upd: "(map f [0..<k])[n := x] = map (f(n := x)) [0..<k]" if "n < k" for f :: "nat \<Rightarrow> u32" and k x
    using that by (intro nth_equalityI) (auto simp: nth_list_update)
  show ?case
    using Suc
    by (auto simp: release_consumer_def and_power_eq_0 upd less_Suc_eq intro!: map_cong)
qed

section \<open>The loop\<close>

definition blockers :: "nat \<Rightarrow> u64 list \<Rightarrow> nat set \<Rightarrow> nat \<Rightarrow> nat set" where
  "blockers n dependencies V c = {p. p < n \<and> p \<notin> V \<and> edge dependencies p c}"

text \<open>
  \<open>V\<close> are the plugins taken so far: the counters count the providers not yet taken, the stack holds
  exactly the untaken plugins without such providers, and the taken ones are ranked along the edges.
\<close>

definition visit_inv :: "nat \<Rightarrow> u64 list \<Rightarrow> u32 list \<Rightarrow> nat list \<Rightarrow> nat set \<Rightarrow> bool" where
  "visit_inv n dependencies indegree ready V \<longleftrightarrow>
     V \<subseteq> {..<n} \<and> distinct ready \<and> set ready \<subseteq> {..<n} \<and> set ready \<inter> V = {} \<and>
     n \<le> length indegree \<and>
     (\<forall>c<n. indegree ! c = of_nat (card (blockers n dependencies V c))) \<and>
     (\<forall>c<n. c \<in> V \<union> set ready \<longleftrightarrow> blockers n dependencies V c = {}) \<and>
     (\<exists>f :: nat \<Rightarrow> nat. (\<forall>a\<in>V. f a < card V) \<and>
       (\<forall>a\<in>V. \<forall>b\<in>V. edge dependencies a b \<longrightarrow> f a < f b))"

lemma finite_blockers [simp]: "finite (blockers n dependencies V c)"
  by (simp add: blockers_def)

lemma card_blockers: "card (blockers n dependencies V c) \<le> n"
proof -
  have "blockers n dependencies V c \<subseteq> {..<n}" by (auto simp: blockers_def)
  then show ?thesis using card_mono [of "{..<n}"] by simp
qed

lemma of_nat_small_eq: "a \<le> 64 \<Longrightarrow> b \<le> 64 \<Longrightarrow> (of_nat a :: u32) = of_nat b \<longleftrightarrow> a = b"
  by (simp add: word_unat_eq_iff unsigned_of_nat take_bit_nat_eq_self)

lemma blockers_insert:
  "p < n \<Longrightarrow> blockers n dependencies (insert p V) c = blockers n dependencies V c - {p}"
  by (auto simp: blockers_def)

lemma visit_inv_step:
  assumes J: "visit_inv n dependencies indegree ready V" and n: "n \<le> 64" and ready: "ready \<noteq> []"
    and step: "fold (release_consumer (dependencies ! last ready)) [0..<n] (indegree, butlast ready) =
      (indegree', ready')"
  shows "visit_inv n dependencies indegree' ready' (insert (last ready) V)"
    and "last ready \<notin> V" and "last ready < n"
proof -
  let ?p = "last ready" and ?B = "blockers n dependencies"
  have split: "ready = butlast ready @ [?p]" using ready by simp
  have "distinct (butlast ready @ [?p])" using J unfolding visit_inv_def by (metis split)
  then have p: "?p < n" "?p \<notin> V" "?p \<notin> set (butlast ready)" and dist: "distinct (butlast ready)"
    using J last_in_set [OF ready] by (auto simp: visit_inv_def)
  then show "last ready \<notin> V" "last ready < n" by simp_all
  have sets: "set ready = insert ?p (set (butlast ready))"
    by (subst split) simp
  have J': "V \<subseteq> {..<n}" "set ready \<subseteq> {..<n}" "set ready \<inter> V = {}" "n \<le> length indegree"
    using J by (simp_all add: visit_inv_def)
  have deg: "indegree ! c = of_nat (card (?B V c))" and free: "c \<in> V \<union> set ready \<longleftrightarrow> ?B V c = {}"
    if "c < n" for c using J that by (simp_all add: visit_inv_def)
  have blocked: "c \<notin> V \<union> set ready \<and> ?p \<in> ?B V c" if "edge dependencies ?p c" "c < n" for c
    using free [OF that(2)] that p by (auto simp: blockers_def)
  have unchanged: "?B (insert ?p V) c = ?B V c" if "\<not> edge dependencies ?p c" for c
    using that by (auto simp: blockers_def)
  have one: "indegree ! c = 1 \<longleftrightarrow> ?B (insert ?p V) c = {}" if "edge dependencies ?p c" "c < n" for c
  proof -
    have "indegree ! c = 1 \<longleftrightarrow> card (?B V c) = 1"
      using deg [OF that(2)] of_nat_small_eq [of "card (?B V c)" 1] card_blockers [of n dependencies V c] n
      by simp
    also have "\<dots> \<longleftrightarrow> ?B V c = {?p}"
      using blocked [OF that] by (auto simp: card_1_singleton_iff)
    also have "\<dots> \<longleftrightarrow> ?B (insert ?p V) c = {}"
      using blocked [OF that] p by (auto simp: blockers_insert)
    finally show ?thesis .
  qed
  have new: "indegree' = map (\<lambda>i. if i < n \<and> edge dependencies ?p i then indegree ! i - 1 else indegree ! i)
      [0..<length indegree]"
    "ready' = butlast ready @ filter (\<lambda>i. edge dependencies ?p i \<and> indegree ! i = 1) [0..<n]"
    using step release_consumers [OF J'(4), of "dependencies ! ?p" "butlast ready"] by (simp_all add: edge_def)
  have deg': "indegree' ! c = of_nat (card (?B (insert ?p V) c))" if "c < n" for c
  proof (cases "edge dependencies ?p c")
    case True
    then have "card (?B V c) = Suc (card (?B (insert ?p V) c))"
      using card.remove [OF finite_blockers conjunct2 [OF blocked [OF True that]]] p
      by (simp add: blockers_insert)
    then show ?thesis using True that J'(4) deg [OF that] by (simp add: new)
  next
    case False
    then show ?thesis using that J'(4) deg [OF that] by (simp add: new unchanged)
  qed
  have free': "c \<in> insert ?p V \<union> set ready' \<longleftrightarrow> ?B (insert ?p V) c = {}" if "c < n" for c
  proof (cases "edge dependencies ?p c")
    case True
    then show ?thesis using blocked [OF True that] one [OF True that] that sets by (auto simp: new)
  next
    case False
    then show ?thesis using free [OF that] sets by (auto simp: new unchanged)
  qed
  obtain f :: "nat \<Rightarrow> nat" where f: "\<forall>a\<in>V. f a < card V" "\<forall>a\<in>V. \<forall>b\<in>V. edge dependencies a b \<longrightarrow> f a < f b"
    using J by (auto simp: visit_inv_def)
  have self: "\<not> edge dependencies ?p ?p" using blocked [of ?p] p(1) sets by auto
  have "finite V" using J'(1) finite_subset by blast
  then have rank: "\<exists>f :: nat \<Rightarrow> nat. (\<forall>a\<in>insert ?p V. f a < card (insert ?p V)) \<and>
      (\<forall>a\<in>insert ?p V. \<forall>b\<in>insert ?p V. edge dependencies a b \<longrightarrow> f a < f b)"
    using f p J'(1,2) blocked self by (intro exI [of _ "f(?p := card V)"]) (auto simp: less_Suc_eq)
  show "visit_inv n dependencies indegree' ready' (insert (last ready) V)"
    unfolding visit_inv_def
    using rank deg' free' J' p dist blocked sets by (auto simp: new)
qed

lemma visit_loop_result:
  assumes "visit_inv n dependencies indegree ready V" and "n \<le> 64" and "fuel + card V = n"
  shows "\<exists>indegree' V'. visit_loop fuel n dependencies indegree ready (card V) = Some (card V') \<and>
    visit_inv n dependencies indegree' [] V'"
  using assms
proof (induction fuel arbitrary: indegree ready V)
  case 0
  have "V = {..<n}"
    using 0 by (intro card_subset_eq) (simp_all add: visit_inv_def)
  then have "ready = []"
    using 0(1) by (cases ready) (auto simp: visit_inv_def)
  then show ?case using 0(1) by auto
next
  case (Suc fuel)
  show ?case
  proof (cases "ready = []")
    case True
    then show ?thesis using Suc.prems(1) by auto
  next
    case False
    obtain indegree' ready' where step: "fold (release_consumer (dependencies ! last ready)) [0..<n]
        (indegree, butlast ready) = (indegree', ready')" by fastforce
    note J = visit_inv_step [OF Suc.prems(1,2) False step]
    have "finite V" using Suc.prems(1) finite_subset by (auto simp: visit_inv_def)
    then have card: "card (insert (last ready) V) = card V + 1" using J(2) by simp
    show ?thesis
      using Suc.IH [OF J(1) Suc.prems(2)] Suc.prems(3) card False step by simp
  qed
qed

section \<open>The graph\<close>

definition graph_edges :: "nat \<Rightarrow> u64 list \<Rightarrow> (nat \<times> nat) set" where
  "graph_edges n dependencies = {(p, c). p < n \<and> c < n \<and> edge dependencies p c}"

definition graph_ok :: "nat \<Rightarrow> dependency_graph \<Rightarrow> bool" where
  "graph_ok n = (\<lambda>(dependencies, indegree).
     n \<le> 64 \<and> length dependencies = 64 \<and> length indegree = 64 \<and>
     (\<forall>c<n. indegree ! c = of_nat (card {p. p < n \<and> edge dependencies p c})))"

lemma finite_graph_edges [simp]: "finite (graph_edges n dependencies)"
  by (rule finite_subset [of _ "{..<n} \<times> {..<n}"]) (auto simp: graph_edges_def)

lemma visit_inv_start:
  assumes "graph_ok n (dependencies, indegree)"
  shows "visit_inv n dependencies indegree (filter (\<lambda>i. indegree ! i = 0) [0..<n]) {}"
proof -
  have B: "blockers n dependencies {} c = {p. p < n \<and> edge dependencies p c}" for c
    by (simp add: blockers_def)
  have "indegree ! c = 0 \<longleftrightarrow> blockers n dependencies {} c = {}" if "c < n" for c
    using assms that of_nat_small_eq [of "card (blockers n dependencies {} c)" 0]
      card_blockers [of n dependencies "{}" c]
    by (simp add: graph_ok_def B [symmetric])
  then show ?thesis
    using assms by (auto simp: visit_inv_def graph_ok_def B)
qed

text \<open>When the loop ends, everything was taken exactly if there is no cycle.\<close>

lemma visit_end:
  assumes J: "visit_inv n dependencies indegree [] V"
  shows "card V = n \<longleftrightarrow> acyclic (graph_edges n dependencies)"
proof
  assume "card V = n"
  then have V: "V = {..<n}" using J by (intro card_subset_eq) (simp_all add: visit_inv_def)
  obtain f :: "nat \<Rightarrow> nat" where "\<forall>a\<in>V. \<forall>b\<in>V. edge dependencies a b \<longrightarrow> f a < f b"
    using J by (auto simp: visit_inv_def)
  then have "graph_edges n dependencies \<subseteq> measure f" using V by (auto simp: graph_edges_def)
  then show "acyclic (graph_edges n dependencies)"
    using wf_acyclic [OF wf_subset [OF wf_measure]] by blast
next
  assume "acyclic (graph_edges n dependencies)"
  then have wf: "wf (graph_edges n dependencies)" by (intro finite_acyclic_wf) simp_all
  have "{..<n} \<subseteq> V"
  proof (rule ccontr)
    assume "\<not> {..<n} \<subseteq> V"
    then obtain c where c: "c \<in> {..<n} - V" "\<And>p. (p, c) \<in> graph_edges n dependencies \<Longrightarrow> p \<notin> {..<n} - V"
      using wfE_min [OF wf, of _ "{..<n} - V"] by (metis Diff_eq_empty_iff equals0I)
    then have "blockers n dependencies V c = {}" by (auto simp: blockers_def graph_edges_def)
    then show False using J c by (auto simp: visit_inv_def)
  qed
  then have "V = {..<n}" using J by (auto simp: visit_inv_def)
  then show "card V = n" by simp
qed

lemma dependencies_acyclic_correct:
  assumes "graph_ok n (dependencies, indegree)"
  shows "dependencies_acyclic n (dependencies, indegree) =
    Some (if acyclic (graph_edges n dependencies) then CORE_OK else CORE_DEPENDENCY_CYCLE)"
proof -
  have "n \<le> 64" using assms by (simp add: graph_ok_def)
  then obtain indegree' V' where "visit_loop n n dependencies indegree
        (filter (\<lambda>i. indegree ! i = 0) [0..<n]) 0 = Some (card V')" "visit_inv n dependencies indegree' [] V'"
    using visit_loop_result [OF visit_inv_start [OF assms], of n] by auto
  then show ?thesis
    using visit_end by (simp add: dependencies_acyclic_def del: visit_loop.simps)
qed

end
