(* ===== verification/Registry_Properties.thy ===== *)
theory Registry_Properties
  imports Registry_Graph
begin

text \<open>
  What an accepted registry guarantees. The provider search is characterised first, then the matrix
  that the second loop builds from it, and with the result on the last loop the verdict of
  \<open>ribon_plugin_registry_validate\<close>.
\<close>

section \<open>The provider search\<close>

abbreviation provides_at :: "'o RibonPluginDescriptor list \<Rightarrow> u64 \<Rightarrow> nat \<Rightarrow> bool" where
  "provides_at plugins capability i \<equiv> plugin_provides (plugins ! i) AND capability \<noteq> 0"

abbreviation chosen_at ::
  "'o RibonPluginDescriptor list \<Rightarrow> RibonProductDescriptor \<Rightarrow> u64 \<Rightarrow> nat \<Rightarrow> bool"
where
  "chosen_at plugins product capability i \<equiv>
     registry_is_selected_provider product (plugins ! i) capability"

lemma upt_prefix: "prefix (ys @ [x]) [0..<n] \<Longrightarrow> ys = [0..<x] \<and> x < n"
proof -
  assume p: "prefix (ys @ [x]) [0..<n]"
  then have len: "length ys < n" using prefix_length_le by fastforce
  have "ys @ [x] = take (length ys + 1) [0..<n]" using p by (metis prefix_def append_eq_conv_conj length_append_singleton Suc_eq_plus1)
  also have "\<dots> = [0..<length ys] @ [length ys]" using len by (simp add: take_upt)
  finally show ?thesis using len by simp
qed

text \<open>After the plugins before \<open>k\<close>: the first provider, the chosen one and the number of providers.\<close>

definition provider_seen ::
  "'o RibonPluginDescriptor list \<Rightarrow> RibonProductDescriptor \<Rightarrow> u64 \<Rightarrow> nat \<Rightarrow> nat \<times> nat \<times> nat \<Rightarrow> bool"
where
  "provider_seen plugins product capability k = (\<lambda>(found, selected, n).
     n = card {i. i < k \<and> provides_at plugins capability i} \<and>
     (if n = 0 then found = 64 else found < k \<and> provides_at plugins capability found) \<and>
     (selected = 64 \<or> selected < k \<and> provides_at plugins capability selected \<and>
        chosen_at plugins product capability selected) \<and>
     (\<forall>i<k. provides_at plugins capability i \<longrightarrow> chosen_at plugins product capability i \<longrightarrow> i = selected))"

lemma provider_seen_step:
  assumes "provider_seen plugins product capability k s" and "k < 64"
    and "provider_step plugins product capability k s = Inr s'"
  shows "provider_seen plugins product capability (Suc k) s'"
proof -
  obtain found selected n where s: "s = (found, selected, n)" by (cases s)
  let ?P = "provides_at plugins capability" and ?C = "chosen_at plugins product capability"
  have all: "(\<forall>i<Suc k. Q i) \<longleftrightarrow> (\<forall>i<k. Q i) \<and> Q k" for Q by (auto simp: less_Suc_eq)
  show ?thesis
  proof (cases "?P k")
    case False
    then have "s' = s" using assms(3) by (simp add: provider_step_def s)
    moreover have "{i. i < Suc k \<and> ?P i} = {i. i < k \<and> ?P i}"
      using False by (auto simp: less_Suc_eq)
    ultimately show ?thesis
      using assms(1) False unfolding provider_seen_def s prod.case all by (auto simp: less_SucI)
  next
    case True
    have "{i. i < Suc k \<and> ?P i} = insert k {i. i < k \<and> ?P i}" using True by (auto simp: less_Suc_eq)
    then have card: "card {i. i < Suc k \<and> ?P i} = Suc (card {i. i < k \<and> ?P i})" by simp
    have s': "s' = (if found = 64 then k else found, if ?C k then k else selected, n + 1)"
      and one: "?C k \<Longrightarrow> selected = 64"
      using assms(3) True by (auto simp: provider_step_def s Let_def split: if_splits)
    have first: "found = 64 \<longleftrightarrow> n = 0" and inv: "n = card {i. i < k \<and> ?P i}"
      "n \<noteq> 0 \<longrightarrow> found < k \<and> ?P found"
      "selected = 64 \<or> selected < k \<and> ?P selected \<and> ?C selected"
      "\<forall>i<k. ?P i \<longrightarrow> ?C i \<longrightarrow> i = selected"
      using assms(1,2) by (auto simp: provider_seen_def s split: if_splits)
    have none: "\<forall>i<k. ?P i \<longrightarrow> \<not> ?C i" if "selected = 64"
      using inv(4) that assms(2) by auto
    have "(if found = 64 then k else found) < Suc k \<and> ?P (if found = 64 then k else found)"
      using first inv(2) True by (cases "n = 0") (simp_all add: less_SucI)
    moreover have "(if ?C k then k else selected) = 64 \<or>
        (if ?C k then k else selected) < Suc k \<and> ?P (if ?C k then k else selected) \<and>
        ?C (if ?C k then k else selected)"
      using inv(3) True less_SucI [of selected k] by (cases "?C k") auto
    moreover have "\<forall>i<k. ?P i \<longrightarrow> ?C i \<longrightarrow> i = (if ?C k then k else selected)"
    proof (cases "?C k")
      case True
      then show ?thesis using none [OF one] by blast
    next
      case False
      then show ?thesis unfolding if_not_P [OF False] using inv(4) by blast
    qed
    ultimately show ?thesis
      unfolding provider_seen_def s' prod.case all card inv(1) by simp
  qed
qed

lemma registry_provider_ok:
  assumes "registry_provider plugins product capability = Inr p" and "length plugins \<le> 64"
  shows "p < length plugins" and "provides_at plugins capability p"
    and "(\<forall>i<length plugins. provides_at plugins capability i \<longrightarrow> i = p) \<or>
      \<not> registry_capability_is_authority capability \<and> chosen_at plugins product capability p \<and>
      (\<forall>i<length plugins. provides_at plugins capability i \<longrightarrow> chosen_at plugins product capability i \<longrightarrow> i = p)"
proof -
  obtain s where "fold_result (provider_step plugins product capability) [0..<length plugins] (64, 64, 0) = Inr s"
    using assms(1) unfolding registry_provider_def
    by (cases "fold_result (provider_step plugins product capability) [0..<length plugins] (64, 64, 0)")
      simp_all
  then obtain found selected n where fold: "fold_result (provider_step plugins product capability)
      [0..<length plugins] (64, 64, 0) = Inr (found, selected, n)"
    by (cases s) simp
  have "provider_seen plugins product capability (length [0..<length plugins]) (found, selected, n)"
  proof (rule fold_result_invariant [OF fold, where P = "\<lambda>ys. provider_seen plugins product capability (length ys)"])
    fix ys x t t'
    assume pre: "prefix (ys @ [x]) [0..<length plugins]"
      and seen: "provider_seen plugins product capability (length ys) t"
      and step: "provider_step plugins product capability x t = Inr t'"
    have x: "length ys = x" "x < 64" using upt_prefix [OF pre] assms(2) by auto
    show "provider_seen plugins product capability (length (ys @ [x])) t'"
      using provider_seen_step [OF seen [unfolded x(1)] x(2) step] x(1) by simp
  qed (simp add: provider_seen_def)
  then have seen: "provider_seen plugins product capability (length plugins) (found, selected, n)" by simp
  note conj = seen [unfolded provider_seen_def prod.case]
  have inv: "n \<noteq> 0 \<longrightarrow> found < length plugins \<and> provides_at plugins capability found"
    "selected = 64 \<or> selected < length plugins \<and> provides_at plugins capability selected \<and>
      chosen_at plugins product capability selected"
    "\<forall>i<length plugins. provides_at plugins capability i \<longrightarrow> chosen_at plugins product capability i \<longrightarrow>
      i = selected"
    using conj by argo+
  have single: "i = found" if "n = 1" "i < length plugins" "provides_at plugins capability i" for i
  proof -
    have "card {i. i < length plugins \<and> provides_at plugins capability i} = 1"
      by (rule trans [OF conjunct1 [OF conj, symmetric] that(1)])
    then obtain x where x: "{i. i < length plugins \<and> provides_at plugins capability i} = {x}"
      by (rule card_1_singletonE)
    have "found \<in> {i. i < length plugins \<and> provides_at plugins capability i}"
      "i \<in> {i. i < length plugins \<and> provides_at plugins capability i}"
      using inv(1) that by simp_all
    then show ?thesis unfolding x by simp
  qed
  have "n = 1 \<and> p = found \<or>
      \<not> registry_capability_is_authority capability \<and> selected \<noteq> 64 \<and> p = selected"
    using assms(1) by (auto simp: registry_provider_def fold split: if_splits)
  then have "(n = 1 \<and> p = found \<and> p < length plugins \<and> provides_at plugins capability p) \<or>
      (\<not> registry_capability_is_authority capability \<and> p = selected \<and> p < length plugins \<and>
       provides_at plugins capability p \<and> chosen_at plugins product capability p)"
    using inv by auto
  then show "p < length plugins" "provides_at plugins capability p"
    and "(\<forall>i<length plugins. provides_at plugins capability i \<longrightarrow> i = p) \<or>
      \<not> registry_capability_is_authority capability \<and> chosen_at plugins product capability p \<and>
      (\<forall>i<length plugins. provides_at plugins capability i \<longrightarrow> chosen_at plugins product capability i \<longrightarrow> i = p)"
    using single inv(3) by blast+
qed

section \<open>The dependency matrix\<close>

lemma and_capability_bit: "w AND capability_bit b = 0 \<longleftrightarrow> \<not> bit w b"
  unfolding capability_bit_def by (rule and_push_bit_eq_0)

text \<open>A requirement that is not left to the service directory.\<close>

definition needs :: "'o RibonPluginDescriptor list \<Rightarrow> u64 \<Rightarrow> nat \<Rightarrow> nat \<Rightarrow> bool" where
  "needs plugins aggregate c b \<longleftrightarrow>
     bit (plugin_requires (plugins ! c)) b \<and>
     \<not> (registry_capability_is_service (capability_bit b) \<and> \<not> bit aggregate b)"

definition served ::
  "'o RibonPluginDescriptor list \<Rightarrow> RibonProductDescriptor \<Rightarrow> u64 \<Rightarrow> nat \<Rightarrow> nat \<Rightarrow> bool"
where
  "served plugins product aggregate c b \<longleftrightarrow>
     bit (plugin_requires (plugins ! c)) b \<longrightarrow>
     (if registry_capability_is_service (capability_bit b) \<and> \<not> bit aggregate b
      then bit (product_required_capabilities product) b
      else \<exists>p. registry_provider plugins product (capability_bit b) = Inr p \<and> p \<noteq> c \<and>
        plugin_phase (plugins ! p) \<le> plugin_phase (plugins ! c))"

text \<open>The dependency relation of a registry: provider before consumer.\<close>

definition provider_relation ::
  "'o RibonPluginDescriptor list \<Rightarrow> RibonProductDescriptor \<Rightarrow> u64 \<Rightarrow> (nat \<times> nat) set"
where
  "provider_relation plugins product aggregate =
     {(p, c). c < length plugins \<and> (\<exists>b<64. needs plugins aggregate c b \<and>
        registry_provider plugins product (capability_bit b) = Inr p)}"

definition matrix_of ::
  "'o RibonPluginDescriptor list \<Rightarrow> RibonProductDescriptor \<Rightarrow> u64 \<Rightarrow> (nat \<times> nat) list \<Rightarrow>
   dependency_graph \<Rightarrow> bool"
where
  "matrix_of plugins product aggregate ys = (\<lambda>(dependencies, indegree).
     length dependencies = 64 \<and> length indegree = 64 \<and>
     (\<forall>p<64. \<forall>c. edge dependencies p c \<longleftrightarrow> (\<exists>b. (c, b) \<in> set ys \<and> needs plugins aggregate c b \<and>
        registry_provider plugins product (capability_bit b) = Inr p)) \<and>
     (\<forall>c<64. indegree ! c = of_nat (card {p. p < 64 \<and> edge dependencies p c})) \<and>
     (\<forall>(c, b)\<in>set ys. served plugins product aggregate c b))"

lemma edge_update:
  assumes "p < length dependencies" and "c < 64"
  shows "edge (dependencies[p := dependencies ! p OR push_bit c 1]) q d \<longleftrightarrow>
    edge dependencies q d \<or> q = p \<and> d = c"
  using assms by (cases "q = p") (auto simp: edge_def bit_simps nth_list_update)

lemma indegree_update:
  assumes new: "\<And>q d. edge dependencies' q d \<longleftrightarrow> edge dependencies q d \<or> q = p \<and> d = c"
    and "\<not> edge dependencies p c" and "p < 64"
  shows "card {q. q < 64 \<and> edge dependencies' q d} =
    card {q. q < 64 \<and> edge dependencies q d} + (if d = c then 1 else 0)"
proof (cases "d = c")
  case True
  have "{q. q < 64 \<and> edge dependencies' q c} = insert p {q. q < 64 \<and> edge dependencies q c}"
    using assms by auto
  then show ?thesis using True assms(2) by simp
qed (simp add: new)

lemma matrix_step:
  assumes M: "matrix_of plugins product aggregate ys s" and len: "length plugins \<le> 64"
    and c: "c < length plugins"
    and step: "dependency_step plugins product aggregate (c, b) s = Inr s'"
  shows "matrix_of plugins product aggregate (ys @ [(c, b)]) s'"
proof -
  obtain dependencies indegree where s: "s = (dependencies, indegree)" by (cases s)
  note st = step [unfolded dependency_step_def s Let_def prod.case and_capability_bit]
  show ?thesis
  proof (cases "needs plugins aggregate c b")
    case False
    have "s' = s \<and> served plugins product aggregate c b"
      using st False by (auto simp: needs_def served_def s split: if_splits)
    then show ?thesis using M False unfolding matrix_of_def s by auto
  next
    case True
    obtain p where p: "registry_provider plugins product (capability_bit b) = Inr p"
      using st True by (auto simp: needs_def split: sum.splits)
    have "p < 64" using registry_provider_ok(1) [OF p len] len by simp
    have served: "served plugins product aggregate c b"
      using st True p by (auto simp: needs_def served_def split: if_splits)
    show ?thesis
    proof (cases "edge dependencies p c")
      case old: True
      have "s' = s" using st True p old
        by (auto simp: needs_def s edge_def and_push_bit_eq_0 simp del: push_bit_of_1 split: if_splits)
      then show ?thesis using M served old p True \<open>p < 64\<close> unfolding matrix_of_def s by auto
    next
      case new: False
      have s': "s' = (dependencies[p := dependencies ! p OR push_bit c 1], indegree[c := indegree ! c + 1])"
        using st True p new
        by (auto simp: needs_def edge_def and_push_bit_eq_0 simp del: push_bit_of_1 split: if_splits)
      have lens: "length dependencies = 64" "length indegree = 64" using M by (simp_all add: matrix_of_def s)
      have e: "edge (dependencies[p := dependencies ! p OR push_bit c 1]) q d \<longleftrightarrow>
          edge dependencies q d \<or> q = p \<and> d = c" for q d
        using edge_update [of p dependencies c q d] lens \<open>p < 64\<close> c len by simp
      note card = indegree_update [OF e new \<open>p < 64\<close>, unfolded e]
      show ?thesis
        using M served lens new True p \<open>p < 64\<close> c len
        unfolding matrix_of_def s s' prod.case e card
        by (auto simp: nth_list_update)
    qed
  qed
qed

lemma pairs_prefix: "prefix (ys @ [(c, b)]) (List.product [0..<n] [0..<64]) \<Longrightarrow> c < n"
proof -
  assume "prefix (ys @ [(c, b)]) (List.product [0..<n] [0..<64])"
  then have "(c, b) \<in> set (List.product [0..<n] [0..<64])"
    using set_mono_prefix by fastforce
  then show ?thesis by simp
qed

lemma matrix_result:
  assumes len: "length plugins \<le> 64"
    and fold: "fold_result (dependency_step plugins product aggregate)
      (List.product [0..<length plugins] [0..<64]) (replicate 64 0, replicate 64 0) = Inr graph"
  shows "matrix_of plugins product aggregate (List.product [0..<length plugins] [0..<64]) graph"
proof (rule fold_result_invariant [OF fold, where P = "matrix_of plugins product aggregate"])
  have empty: "{p. p < 64 \<and> edge (replicate 64 0) p c} = {}" for c by (auto simp: edge_def)
  show "matrix_of plugins product aggregate [] (replicate 64 0, replicate 64 0)"
    unfolding matrix_of_def prod.case empty by (simp add: edge_def)
next
  fix ys x t t'
  assume "prefix (ys @ [x]) (List.product [0..<length plugins] [0..<64])"
    and "matrix_of plugins product aggregate ys t" and "dependency_step plugins product aggregate x t = Inr t'"
  then show "matrix_of plugins product aggregate (ys @ [x]) t'"
    using pairs_prefix matrix_step [OF _ len] by (cases x) blast
qed

lemma matrix_graph:
  assumes M: "matrix_of plugins product aggregate (List.product [0..<length plugins] [0..<64])
      (dependencies, indegree)"
    and len: "length plugins \<le> 64"
  shows "graph_ok (length plugins) (dependencies, indegree)"
    and "graph_edges (length plugins) dependencies = provider_relation plugins product aggregate"
    and "\<And>c b. c < length plugins \<Longrightarrow> b < 64 \<Longrightarrow> served plugins product aggregate c b"
proof -
  let ?n = "length plugins"
  have e: "edge dependencies p c \<longleftrightarrow> c < ?n \<and> (\<exists>b<64. needs plugins aggregate c b \<and>
      registry_provider plugins product (capability_bit b) = Inr p)" if "p < 64" for p c
    using M that by (auto simp: matrix_of_def)
  have bound: "p < ?n" if "edge dependencies p c" "p < 64" for p c
    using e [OF that(2)] that(1) registry_provider_ok(1) len by blast
  then have "{p. p < ?n \<and> edge dependencies p c} = {p. p < 64 \<and> edge dependencies p c}" for c
    using len by auto
  then show "graph_ok ?n (dependencies, indegree)"
    using M len by (simp add: graph_ok_def matrix_of_def)
  show "graph_edges ?n dependencies = provider_relation plugins product aggregate"
    using e len registry_provider_ok(1) [OF _ len, of product]
    by (fastforce simp: graph_edges_def provider_relation_def)
  show "served plugins product aggregate c b" if "c < ?n" "b < 64" for c b
    using M that by (auto simp: matrix_of_def)
qed

section \<open>The first loop\<close>

definition aggregate_of :: "'o RibonPluginDescriptor list \<Rightarrow> u64" where
  "aggregate_of ds = fold (\<lambda>d a. a OR plugin_provides d) ds 0"

definition plugin_fits ::
  "(address \<Rightarrow> 'o RibonPluginDescriptor \<Rightarrow> bool) \<Rightarrow> RibonProductDescriptor \<Rightarrow> 'o RibonPluginDescriptor \<Rightarrow> bool"
where
  "plugin_fits call product d \<longleftrightarrow>
     ribon_plugin_descriptor_is_valid call (Some d) \<and>
     plugin_architecture_mask d AND product_architecture_mask product \<noteq> 0 \<and>
     plugin_provides d AND NOT (product_allowed_capabilities product) = 0 \<and>
     plugin_input_budget d \<le> max_input_bytes (product_limits product) \<and>
     plugin_output_budget d \<le> max_handoff_bytes (product_limits product) \<and>
     plugin_deadline_ms d \<le> operation_deadline_ms (product_limits product)"

text \<open>After the first \<open>k\<close> plugins they all fit, and the totals are theirs.\<close>

definition totals_of ::
  "(address \<Rightarrow> 'o RibonPluginDescriptor \<Rightarrow> bool) \<Rightarrow> RibonProductDescriptor \<Rightarrow>
   'o RibonPluginDescriptor option list \<Rightarrow> nat \<Rightarrow> registry_totals \<Rightarrow> bool"
where
  "totals_of call product plugins k t \<longleftrightarrow>
     (\<exists>ds. take k plugins = map Some ds \<and> list_all (plugin_fits call product) ds \<and>
        total_capabilities t = aggregate_of ds \<and>
        unat (total_arena t) = (\<Sum>d\<leftarrow>ds. unat (plugin_arena_budget d)))"

lemma totals_step:
  assumes T: "totals_of call product plugins k t" and k: "k < length plugins"
    and step: "registry_plugin_step call product mode plugins k t = Inr t'"
  shows "totals_of call product plugins (Suc k) t'"
proof -
  obtain ds where ds: "take k plugins = map Some ds" "list_all (plugin_fits call product) ds"
    "total_capabilities t = aggregate_of ds"
    "unat (total_arena t) = (\<Sum>d\<leftarrow>ds. unat (plugin_arena_budget d))"
    using T by (auto simp: totals_of_def)
  have valid: "ribon_plugin_descriptor_is_valid call (plugins ! k)"
    using step by (auto simp: registry_plugin_step_def Let_def split: if_splits)
  then obtain d where d: "plugins ! k = Some d"
    by (cases "plugins ! k") (simp_all add: ribon_plugin_descriptor_is_valid_def)
  note st = step [unfolded registry_plugin_step_def Let_def d option.sel]
  have fits: "plugin_fits call product d"
    using st valid d by (simp add: plugin_fits_def not_less split: if_splits)
  have t': "total_capabilities t' = total_capabilities t OR plugin_provides d"
    "total_arena t' = total_arena t + plugin_arena_budget d"
    "\<not> UINT64_MAX - plugin_arena_budget d < total_arena t"
    using st by (auto split: if_splits)
  have "unat (total_arena t') = unat (total_arena t) + unat (plugin_arena_budget d)"
    unfolding t'(2) using t'(3) by (intro unat_add_guarded) simp
  moreover have "take (Suc k) plugins = map Some (ds @ [d])"
    using ds(1) d k by (simp add: take_Suc_conv_app_nth)
  ultimately show ?thesis
    using ds fits t'(1) unfolding totals_of_def
    by (intro exI [of _ "ds @ [d]"]) (simp add: aggregate_of_def)
qed

lemma totals_result:
  assumes "fold_result (registry_plugin_step call product mode plugins) [0..<length plugins]
      \<lparr>total_arena = 0, total_capabilities = 0, total_architectures = 0, total_environments = 0,
       total_personalities = 0\<rparr> = Inr t"
  shows "totals_of call product plugins (length plugins) t"
proof -
  have "totals_of call product plugins (length [0..<length plugins]) t"
  proof (rule fold_result_invariant [OF assms, where P = "\<lambda>ys. totals_of call product plugins (length ys)"])
    fix ys x u u'
    assume pre: "prefix (ys @ [x]) [0..<length plugins]"
      and T: "totals_of call product plugins (length ys) u"
      and step: "registry_plugin_step call product mode plugins x u = Inr u'"
    have x: "length ys = x" "x < length plugins" using upt_prefix [OF pre] by auto
    show "totals_of call product plugins (length (ys @ [x])) u'"
      using totals_step [OF T [unfolded x(1)] x(2) step] x(1) by simp
  qed (simp add: totals_of_def aggregate_of_def)
  then show ?thesis by simp
qed

section \<open>The verdict\<close>

text \<open>The descriptors of a registry whose array has as many elements as it declares.\<close>

abbreviation descriptors :: "'o RibonPluginRegistry \<Rightarrow> 'o RibonPluginDescriptor list" where
  "descriptors r \<equiv> map the (plugins_of r)"

definition registry_complete :: "'o RibonPluginRegistry \<Rightarrow> bool" where
  "registry_complete r \<longleftrightarrow>
     (case registry_plugins r of None \<Rightarrow> True | Some ds \<Rightarrow> unat (registry_plugin_count r) \<le> length ds)"

lemma product_max_plugins:
  assumes "ribon_product_descriptor_is_valid (Some p)"
  shows "unat (product_max_plugins p) \<le> 64"
proof (rule ccontr)
  assume "\<not> unat (product_max_plugins p) \<le> 64"
  then have "64 < product_max_plugins p" by (simp add: word_less_nat_alt)
  then show False using assms by (simp add: ribon_product_descriptor_is_valid_def Let_def)
qed

text \<open>A registry is refused before the dependencies are looked at, or its verdict is theirs.\<close>

lemma registry_validate_cases:
  assumes "registry_complete r"
  obtains (refused) e where "ribon_plugin_registry_validate call (Some r) (Some p) mode = Some e"
      "e \<noteq> CORE_OK" "e \<noteq> CORE_DEPENDENCY_CYCLE"
  | (decided) t where
      "ribon_plugin_registry_validate call (Some r) (Some p) mode =
        (case fold_result (dependency_step (descriptors r) p (total_capabilities t))
           (List.product [0..<length (descriptors r)] [0..<64]) (replicate 64 0, replicate 64 0) of
           Inl e \<Rightarrow> Some e | Inr graph \<Rightarrow> dependencies_acyclic (length (descriptors r)) graph)"
      "totals_of call p (plugins_of r) (length (plugins_of r)) t"
      "total_arena t \<le> arena_bytes (product_limits p)" "length (descriptors r) \<le> 64"
proof -
  let ?n = "unat (registry_plugin_count r)"
  let ?fold = "fold_result (registry_plugin_step call p mode (plugins_of r)) [0..<?n]
      \<lparr>total_arena = 0, total_capabilities = 0, total_architectures = 0, total_environments = 0,
       total_personalities = 0\<rparr>"
  have step_errors: "e = CORE_INVALID_DESCRIPTOR \<or> e = CORE_BAD_LIMIT"
    if "registry_plugin_step call p mode ps x s = Inl e" for ps x s e
    using that by (auto simp: registry_plugin_step_def Let_def split: if_splits)
  show ?thesis
  proof (cases "registry_arguments_valid (Some r) (Some p) mode")
    case False
    then show ?thesis using refused by (simp add: ribon_plugin_registry_validate_def)
  next
    case True
    have fold: "registry_plugins r \<noteq> None" "ribon_product_descriptor_is_valid (Some p)"
      "registry_plugin_count r \<le> product_max_plugins p"
      using True by (auto simp: registry_arguments_valid_def)
    note run = ribon_plugin_registry_validate_def [of call "Some r" "Some p" mode,
        unfolded Let_def option.sel, simplified True]
    have n: "length (plugins_of r) = ?n"
      using assms fold(1) by (auto simp: registry_complete_def elements_def)
    have "?n \<le> unat (product_max_plugins p)" using fold(3) by (simp add: word_le_nat_alt)
    then have small: "length (descriptors r) \<le> 64" using product_max_plugins [OF fold(2)] n by simp
    show ?thesis
    proof (cases ?fold)
      case (Inl e)
      then obtain x s where "registry_plugin_step call p mode (plugins_of r) x s = Inl e"
        using fold_result_error by metis
      then have "e \<noteq> CORE_OK \<and> e \<noteq> CORE_DEPENDENCY_CYCLE" using step_errors by blast
      then show ?thesis using refused run Inl by simp
    next
      case (Inr t)
      then have T: "totals_of call p (plugins_of r) (length (plugins_of r)) t"
        using totals_result [of call p mode "plugins_of r" t] n by simp
      show ?thesis
      proof (cases "registry_plugin_selections_are_valid r p \<and> authorities_unique (descriptors r) \<and>
          registry_totals_valid p t \<and> requirements_met p (total_capabilities t)")
        case False
        then show ?thesis using refused run Inr by (auto split: if_splits)
      next
        case ok: True
        have "total_arena t \<le> arena_bytes (product_limits p)"
          using ok by (simp add: registry_totals_valid_def not_less)
        moreover have "length (descriptors r) = ?n" using n by simp
        ultimately show ?thesis using decided [OF _ T _ small] run Inr ok by (simp cong: sum.case_cong)
      qed
    qed
  qed
qed

lemma registry_provider_errors:
  assumes "registry_provider plugins product capability = Inl e"
  shows "e \<noteq> CORE_OK \<and> e \<noteq> CORE_DEPENDENCY_CYCLE"
proof (cases "fold_result (provider_step plugins product capability) [0..<length plugins] (64, 64, 0)")
  case (Inl e')
  then obtain x s where "provider_step plugins product capability x s = Inl e'"
    using fold_result_error by metis
  then have "e' = CORE_AMBIGUOUS_SELECTION"
    by (auto simp: provider_step_def Let_def split: if_splits prod.splits)
  then show ?thesis using assms Inl by (simp add: registry_provider_def)
next
  case (Inr s)
  then show ?thesis using assms by (cases s) (auto simp: registry_provider_def split: if_splits)
qed

text \<open>The second loop reports a cycle only for a plugin that provides its own requirement.\<close>

lemma dependency_fold_error:
  assumes "fold_result (dependency_step plugins product aggregate)
      (List.product [0..<length plugins] [0..<64]) s = Inl e"
  shows "e \<noteq> CORE_OK \<and> (e = CORE_DEPENDENCY_CYCLE \<longrightarrow>
    (\<exists>c. (c, c) \<in> provider_relation plugins product aggregate))"
proof -
  obtain ys c b zs t where split: "List.product [0..<length plugins] [0..<64] = ys @ (c, b) # zs"
    and step: "dependency_step plugins product aggregate (c, b) t = Inl e"
    using fold_result_error [OF assms] by (metis prod.exhaust)
  have "(c, b) \<in> set (List.product [0..<length plugins] [0..<64])" unfolding split by simp
  then have cb: "c < length plugins" "b < 64" by simp_all
  obtain dependencies indegree where t: "t = (dependencies, indegree)" by (cases t)
  show ?thesis
    using step cb registry_provider_errors [of plugins product "capability_bit b"]
    by (auto simp: t dependency_step_def Let_def and_capability_bit needs_def provider_relation_def
        split: if_splits sum.splits)
qed

lemma registry_verdict:
  assumes complete: "registry_complete r"
  shows "\<exists>st. ribon_plugin_registry_validate call (Some r) (Some p) mode = Some st \<and>
    (st = CORE_OK \<longrightarrow> list_all (plugin_fits call p) (descriptors r) \<and>
       (\<Sum>d\<leftarrow>descriptors r. unat (plugin_arena_budget d)) \<le> unat (arena_bytes (product_limits p)) \<and>
       acyclic (provider_relation (descriptors r) p (aggregate_of (descriptors r))) \<and>
       (\<forall>c<length (descriptors r). \<forall>b<64. served (descriptors r) p (aggregate_of (descriptors r)) c b)) \<and>
    (st = CORE_DEPENDENCY_CYCLE \<longrightarrow>
       \<not> acyclic (provider_relation (descriptors r) p (aggregate_of (descriptors r))))"
  using complete
proof (cases rule: registry_validate_cases [where call = call and p = p and mode = mode])
  case (refused e)
  then show ?thesis by simp
next
  case (decided t)
  obtain ds where ds: "plugins_of r = map Some ds" "list_all (plugin_fits call p) ds"
    "total_capabilities t = aggregate_of ds" "unat (total_arena t) = (\<Sum>d\<leftarrow>ds. unat (plugin_arena_budget d))"
    using decided(2) by (auto simp: totals_of_def)
  have d: "descriptors r = ds" using ds(1) by (simp add: comp_def)
  have arena: "unat (total_arena t) \<le> unat (arena_bytes (product_limits p))"
    using decided(3) by (simp add: word_le_nat_alt)
  have len: "length ds \<le> 64" using decided(4) d by simp
  let ?fold = "fold_result (dependency_step ds p (aggregate_of ds))
      (List.product [0..<length ds] [0..<64]) (replicate 64 0, replicate 64 0)"
  note run = decided(1) [unfolded d ds(3)]
  show ?thesis
  proof (cases ?fold)
    case (Inl e)
    then show ?thesis using run dependency_fold_error [OF Inl] unfolding d by (auto simp: acyclic_def)
  next
    case (Inr graph)
    obtain dependencies indegree where g: "graph = (dependencies, indegree)" by (cases graph)
    note M = matrix_graph [OF matrix_result [OF len Inr, unfolded g] len]
    show ?thesis
      using run dependencies_acyclic_correct [OF M(1)] ds(2,4) arena M(2,3) Inr unfolding d g by simp
  qed
qed

section \<open>The sort ends\<close>

lemma visit_loop_more_fuel:
  "visit_loop fuel n dependencies indegree ready visited = Some v \<Longrightarrow> fuel \<le> fuel' \<Longrightarrow>
   visit_loop fuel' n dependencies indegree ready visited = Some v"
proof (induction fuel arbitrary: fuel' indegree ready visited)
  case (Suc fuel)
  then obtain g where g: "fuel' = Suc g" "fuel \<le> g" by (cases fuel') auto
  note unfold = visit_loop.simps [of "Suc fuel"] visit_loop.simps [of "Suc g"]
  show ?case
    using Suc.prems(1) Suc.IH g(2) unfolding g(1) unfold
    by (auto split: if_splits prod.splits simp del: visit_loop.simps)
qed (auto split: if_splits)

section \<open>Properties\<close>


definition sample_plugin :: "u32 \<Rightarrow> u32 \<Rightarrow> string \<Rightarrow> u64 \<Rightarrow> u64 \<Rightarrow> unit RibonPluginDescriptor" where
  "sample_plugin kind phase ident provides needed =
     \<lparr>plugin_magic = 0x5242504c, plugin_size = 128, plugin_abi_major = 6, plugin_abi_minor = 0,
      plugin_kind = kind, plugin_phase = phase, plugin_id = Some ident, plugin_provides = provides,
      plugin_requires = needed, plugin_architecture_mask = 1, plugin_environment_mask = 1,
      plugin_personality_mask = 0, plugin_mode_mask = 15, plugin_reserved = 0,
      plugin_arena_budget = 16, plugin_input_budget = 16, plugin_output_budget = 16,
      plugin_deadline_ms = 1, plugin_operations = Some (), plugin_operations_size = 1,
      plugin_operations_abi = 1, plugin_validate_operations = Some 1\<rparr>"

definition sample_product :: RibonProductDescriptor where
  "sample_product =
     \<lparr>product_magic = 0x52425044, product_size = 144, product_abi_version = 7,
      product_id = Some ''sample'', product_kind = PRODUCT_BOOTLOADER, product_architecture_mask = 1,
      product_environment_mask = 1, product_personality_mask = 0, product_mode_mask = 15,
      product_max_plugins = 8, product_required_capabilities = CAP_ARCHITECTURE OR CAP_BOOT_PROTOCOL,
      product_allowed_capabilities = CAP_ALL, product_service_selections = None,
      product_service_selection_count = 0, product_plugin_selections = None,
      product_plugin_selection_count = 0,
      product_limits = \<lparr>max_memory_regions = 4, max_load_segments = 4, max_components = 4,
        max_retries = 1, max_input_bytes = 64, max_handoff_bytes = 64, arena_bytes = 64,
        operation_deadline_ms = 8\<rparr>\<rparr>"

definition sample_registry :: "u64 \<Rightarrow> unit RibonPluginRegistry" where
  "sample_registry needed =
     \<lparr>registry_size = 24, registry_abi_version = 7,
      registry_plugins = Some
        [Some (sample_plugin KIND_ARCHITECTURE 0 ''arch'' CAP_ARCHITECTURE needed),
         Some (sample_plugin KIND_ENVIRONMENT 0 ''host'' CAP_BOOT_SOURCE_READ 0),
         Some (sample_plugin KIND_BOOT_PROTOCOL 0 ''proto'' CAP_BOOT_PROTOCOL
           (CAP_ARCHITECTURE OR CAP_BOOT_SOURCE_READ))],
      registry_plugin_count = 3\<rparr>"

lemmas sample_defs = sample_registry_def sample_plugin_def sample_product_def

lemma sample_arguments:
  "registry_arguments_valid (Some (sample_registry needed)) (Some sample_product) 0"
  by (simp add: sample_defs registry_arguments_valid_def ribon_product_descriptor_is_valid_def
      ribon_resource_limits_are_valid_def plugin_one_bit_def)

lemma sample_plugins:
  "plugins_of (sample_registry needed) =
     [Some (sample_plugin KIND_ARCHITECTURE 0 ''arch'' CAP_ARCHITECTURE needed),
      Some (sample_plugin KIND_ENVIRONMENT 0 ''host'' CAP_BOOT_SOURCE_READ 0),
      Some (sample_plugin KIND_BOOT_PROTOCOL 0 ''proto'' CAP_BOOT_PROTOCOL
           (CAP_ARCHITECTURE OR CAP_BOOT_SOURCE_READ))]"
  by (simp add: sample_registry_def elements_def)

lemma sample_upt: "[0..<3] = [0, 1, 2 :: nat]"
  by (simp add: upt_conv_Cons)

lemma sample_totals:
  assumes "needed AND NOT CAP_ALL = 0"
  shows "fold_result (registry_plugin_step (\<lambda>a d. True) sample_product 0
       (plugins_of (sample_registry needed))) [0..<3]
     \<lparr>total_arena = 0, total_capabilities = 0, total_architectures = 0,
      total_environments = 0, total_personalities = 0\<rparr> =
     Inr \<lparr>total_arena = 48, total_capabilities = CAP_ARCHITECTURE OR CAP_BOOT_SOURCE_READ OR CAP_BOOT_PROTOCOL,
      total_architectures = 1, total_environments = 1, total_personalities = 0\<rparr>"
  using assms unfolding sample_upt sample_plugins
  by (simp add: registry_plugin_step_def ribon_plugin_descriptor_is_valid_def sample_plugin_def
      sample_product_def MODE_MASK_def)

lemma sample_bits:
  "bit CAP_ARCHITECTURE b \<longleftrightarrow> b = 16" "bit CAP_BOOT_SOURCE_READ b \<longleftrightarrow> b = 0"
  "bit CAP_BOOT_PROTOCOL b \<longleftrightarrow> b = 18"
proof -
  have "bit (2 ^ 16 :: u64) b \<longleftrightarrow> b = 16" "bit (2 ^ 18 :: u64) b \<longleftrightarrow> b = 18"
    unfolding bit_exp_iff by auto
  then show "bit CAP_ARCHITECTURE b \<longleftrightarrow> b = 16" "bit CAP_BOOT_PROTOCOL b \<longleftrightarrow> b = 18" by simp_all
qed (auto simp: bit_1_iff)

lemma sample_authorities: "authorities_unique (descriptors (sample_registry needed))"
proof -
  have "length (filter (\<lambda>p. bit (plugin_provides p) b) (descriptors (sample_registry needed))) \<le> 1" for b
    using sample_bits [of b] unfolding sample_plugins by (auto simp: sample_plugin_def)
  then show ?thesis by (simp add: authorities_unique_def Let_def list_all_iff and_capability_bit)
qed

lemma sample_requirements:
  "requirements_met sample_product (CAP_ARCHITECTURE OR CAP_BOOT_SOURCE_READ OR CAP_BOOT_PROTOCOL)"
proof -
  have "product_required_capabilities sample_product = CAP_ARCHITECTURE OR CAP_BOOT_PROTOCOL"
    by (simp add: sample_product_def)
  then show ?thesis
    unfolding requirements_met_def Let_def list_all_iff and_capability_bit by (simp only: bit_or_iff) blast
qed

lemma fold_result_skip:
  "(\<And>x s. x \<in> set xs \<Longrightarrow> \<not> P x \<Longrightarrow> f x s = Inr s) \<Longrightarrow> fold_result f xs s = fold_result f (filter P xs) s"
  by (induction xs arbitrary: s) (auto split: sum.splits)

lemma sample_edges:
  "filter (\<lambda>(c, b). bit (plugin_requires (descriptors (sample_registry 0) ! c)) b)
     (List.product [0..<3] [0..<64]) = [(2, 0), (2, 16)]"
  "filter (\<lambda>(c, b). bit (plugin_requires (descriptors (sample_registry CAP_BOOT_PROTOCOL) ! c)) b)
     (List.product [0..<3] [0..<64]) = [(0, 18), (2, 0), (2, 16)]"
  unfolding sample_plugins by code_simp+

lemma sample_graph:
  "fold_result (dependency_step (descriptors (sample_registry needed)) sample_product aggregate)
     (List.product [0..<3] [0..<64]) s =
   fold_result (dependency_step (descriptors (sample_registry needed)) sample_product aggregate)
     (filter (\<lambda>(c, b). bit (plugin_requires (descriptors (sample_registry needed) ! c)) b)
        (List.product [0..<3] [0..<64])) s"
  by (rule fold_result_skip) (auto simp: dependency_step_def Let_def and_capability_bit)

lemma sample_graphs:
  "fold_result (dependency_step (descriptors (sample_registry 0)) sample_product 0x50001)
     [(2, 0), (2, 16)] (replicate 64 0, replicate 64 0) =
   Inr ((replicate 64 0)[1 := 4, 0 := 4], (replicate 64 0)[2 := 2])"
  "fold_result (dependency_step (descriptors (sample_registry CAP_BOOT_PROTOCOL)) sample_product 0x50001)
     [(0, 18), (2, 0), (2, 16)] (replicate 64 0, replicate 64 0) =
   Inr ((replicate 64 0)[2 := 1, 1 := 4, 0 := 4], (replicate 64 0)[0 := 1, 2 := 2])"
  unfolding sample_plugins by code_simp+

lemma sample_verdicts:
  "ribon_plugin_registry_validate (\<lambda>a d. True) (Some (sample_registry 0)) (Some sample_product) 0 =
     Some CORE_OK"
  "ribon_plugin_registry_validate (\<lambda>a d. True) (Some (sample_registry CAP_BOOT_PROTOCOL))
     (Some sample_product) 0 = Some CORE_DEPENDENCY_CYCLE"
proof -
  have count: "unat (registry_plugin_count (sample_registry needed)) = 3" for needed
    by (simp add: sample_registry_def)
  have selections: "registry_plugin_selections_are_valid (sample_registry needed) sample_product" for needed
    by (simp add: registry_plugin_selections_are_valid_def sample_product_def elements_def)
  have totals: "registry_totals_valid sample_product
      \<lparr>total_arena = 48, total_capabilities = c, total_architectures = 1, total_environments = 1,
       total_personalities = 0\<rparr>" for c
    by (simp add: registry_totals_valid_def sample_product_def)
  have aggregate: "CAP_ARCHITECTURE OR CAP_BOOT_SOURCE_READ OR CAP_BOOT_PROTOCOL = 0x50001" by simp
  note run = ribon_plugin_registry_validate_def Let_def option.sel count sample_arguments
    sample_totals sum.case selections sample_authorities totals registry_totals.simps
    sample_requirements [unfolded aggregate] aggregate sample_graph sample_edges sample_graphs
    not_True_eq_False if_False
  show "ribon_plugin_registry_validate (\<lambda>a d. True) (Some (sample_registry 0)) (Some sample_product) 0 =
     Some CORE_OK"
    by (simp only: run and_zero_eq zero_and_eq) code_simp
  show "ribon_plugin_registry_validate (\<lambda>a d. True) (Some (sample_registry CAP_BOOT_PROTOCOL))
     (Some sample_product) 0 = Some CORE_DEPENDENCY_CYCLE"
    by (simp only: run sample_totals [of CAP_BOOT_PROTOCOL, simplified]) code_simp
qed


text \<open>
  C34. The topological sort ends: on a dependency graph whose counters count the incoming edges, the
  stack is empty after at most as many turns as there are plugins, whatever the edges are, so a loop
  that is allowed more turns gives the same count, and that count is at most the number of plugins.
\<close>

theorem registry_sort_terminates:
  assumes "graph_ok n (dependencies, indegree)"
  shows "\<exists>visited\<le>n. \<forall>fuel\<ge>n.
    visit_loop fuel n dependencies indegree (filter (\<lambda>i. indegree ! i = 0) [0..<n]) 0 = Some visited"
proof -
  have "n \<le> 64" using assms by (simp add: graph_ok_def)
  then obtain indegree' V where V: "visit_loop n n dependencies indegree
        (filter (\<lambda>i. indegree ! i = 0) [0..<n]) 0 = Some (card V)" "visit_inv n dependencies indegree' [] V"
    using visit_loop_result [OF visit_inv_start [OF assms], of n] by auto
  have "card V \<le> n" using V(2) card_mono [of "{..<n}" V] by (simp add: visit_inv_def)
  then show ?thesis using visit_loop_more_fuel [OF V(1)] by blast
qed

theorem registry_sort_terminates_witness:
  "\<exists>visited\<le>2. \<forall>fuel\<ge>2. visit_loop fuel 2 (2 # replicate 63 0) (0 # 1 # replicate 62 0)
     (filter (\<lambda>i. (0 # 1 # replicate 62 0 :: u32 list) ! i = 0) [0..<2]) 0 = Some visited"
proof (rule registry_sort_terminates)
  have "{p. p < 2 \<and> bit ((2 # replicate 63 0 :: u64 list) ! p) c} = (if c = 1 then {0} else {})" if "c < 2" for c
    using that by (auto simp: less_2_cases_iff nth_Cons' bit_simps split: if_splits)
  then show "graph_ok 2 (2 # replicate 63 0, 0 # 1 # replicate 62 0)"
    by (simp add: graph_ok_def edge_def less_2_cases_iff)
qed

end
