(* ===== verification/Service_Properties.thy ===== *)
theory Service_Properties
  imports Service_Directory Registry_Properties
begin

text \<open>
  What an accepted service directory guarantees: its loops are characterised by the list of services,
  and every role that it offers has one unambiguous owner.
\<close>

section \<open>Stable identifiers\<close>

lemma service_strcmp_refl [simp]: "service_strcmp a a = 0"
  by (induction a) simp_all

lemma of_char_nonneg [simp]: "\<not> of_char a < (0 :: int)"
  by (metis of_nat_of_char of_nat_0_le_iff not_less)

lemma service_strcmp_less_trans: "service_strcmp a b < 0 \<Longrightarrow> service_strcmp b c < 0 \<Longrightarrow> service_strcmp a c < 0"
proof (induction a b arbitrary: c rule: service_strcmp.induct)
  case (3 b bs)
  then show ?case by (cases c) (auto split: if_splits)
next
  case (4 a as b bs)
  then show ?case by (cases c) (auto split: if_splits)
qed simp_all

abbreviation id_of :: "'o RibonServiceDescriptor \<Rightarrow> string" where
  "id_of s \<equiv> the (service_id s)"

definition ids_ascending :: "'o RibonServiceDescriptor list \<Rightarrow> bool" where
  "ids_ascending ss \<longleftrightarrow> sorted_wrt (\<lambda>s t. service_strcmp (id_of s) (id_of t) < 0) ss"

lemma ids_ascending_adjacent:
  "ids_ascending ss \<longleftrightarrow>
     (\<forall>i<length ss. i \<noteq> 0 \<longrightarrow> \<not> 0 \<le> service_strcmp (id_of (ss ! (i - 1))) (id_of (ss ! i)))"
proof -
  have "transp (\<lambda>s t. service_strcmp (id_of s) (id_of t) < 0)"
    by (rule transpI) (rule service_strcmp_less_trans)
  then have "ids_ascending ss \<longleftrightarrow>
      (\<forall>i. Suc i < length ss \<longrightarrow> service_strcmp (id_of (ss ! i)) (id_of (ss ! Suc i)) < 0)"
    unfolding ids_ascending_def by (rule sorted_wrt_iff_nth_Suc_transp)
  also have "\<dots> \<longleftrightarrow> (\<forall>i<length ss. i \<noteq> 0 \<longrightarrow>
      \<not> 0 \<le> service_strcmp (id_of (ss ! (i - 1))) (id_of (ss ! i)))"
    by (metis Suc_pred diff_Suc_1 nat.distinct(1) not_gr_zero not_le)
  finally show ?thesis .
qed

lemma ids_distinct: "ids_ascending ss \<Longrightarrow> distinct (map id_of ss)"
  unfolding ids_ascending_def by (induction ss) (force split: if_splits)+

section \<open>The loop over the services\<close>

text \<open>The descriptor is valid and within the product's masks and limits.\<close>

definition service_fits ::
  "(address \<Rightarrow> 'o RibonServiceDescriptor \<Rightarrow> bool) \<Rightarrow> RibonProductDescriptor \<Rightarrow> u32 \<Rightarrow>
   'o RibonServiceDescriptor \<Rightarrow> bool"
where
  "service_fits call product mode s \<longleftrightarrow>
     ribon_service_descriptor_is_valid call (Some s) \<and>
     service_architecture_mask s AND product_architecture_mask product \<noteq> 0 \<and>
     (if product_kind product = PRODUCT_FIRMWARE
      then service_personality_mask s AND product_personality_mask product \<noteq> 0
      else service_environment_mask s AND product_environment_mask product \<noteq> 0) \<and>
     service_mode_mask s AND MODE_MASK mode \<noteq> 0 \<and>
     service_provides s AND NOT (product_allowed_capabilities product) = 0 \<and>
     service_input_budget s \<le> max_input_bytes (product_limits product) \<and>
     service_output_budget s \<le> max_handoff_bytes (product_limits product) \<and>
     service_deadline_ms s \<le> operation_deadline_ms (product_limits product)"

definition authority_clash :: "'o RibonServiceDescriptor \<Rightarrow> 'o RibonServiceDescriptor \<Rightarrow> bool" where
  "authority_clash s t \<longleftrightarrow> service_kind s = service_kind t \<and>
     (service_cardinality s = CARDINALITY_AUTHORITY \<or> service_cardinality t = CARDINALITY_AUTHORITY)"

definition service_admitted ::
  "(address \<Rightarrow> 'o RibonServiceDescriptor \<Rightarrow> bool) \<Rightarrow> RibonProductDescriptor \<Rightarrow> u32 \<Rightarrow>
   'o RibonServiceDescriptor option list \<Rightarrow> nat \<Rightarrow> bool"
where
  "service_admitted call product mode services i \<longleftrightarrow>
     services ! i \<noteq> None \<and> service_fits call product mode (the (services ! i)) \<and>
     (i \<noteq> 0 \<longrightarrow> \<not> 0 \<le> service_strcmp (id_of (the (services ! (i - 1)))) (id_of (the (services ! i)))) \<and>
     (\<forall>j<i. \<not> authority_clash (the (services ! j)) (the (services ! i)))"

definition provided_by :: "'o RibonServiceDescriptor list \<Rightarrow> u64" where
  "provided_by ss = fold (\<lambda>s a. a OR service_provides s) ss 0"

lemma service_step_ok:
  "service_step call product mode services i (a, g) = Inr s' \<longleftrightarrow>
     service_admitted call product mode services i \<and>
     a \<le> UINT64_MAX - service_arena_budget (the (services ! i)) \<and>
     s' = (a + service_arena_budget (the (services ! i)), g OR service_provides (the (services ! i)))"
proof -
  have valid: "ribon_service_descriptor_is_valid call (services ! i) \<longleftrightarrow>
      services ! i \<noteq> None \<and> ribon_service_descriptor_is_valid call (Some (the (services ! i)))"
    by (cases "services ! i") (simp_all add: ribon_service_descriptor_is_valid_def)
  have clash: "list_ex (\<lambda>j. service_kind (the (services ! j)) = service_kind s \<and>
        (service_cardinality (the (services ! j)) = CARDINALITY_AUTHORITY \<or>
         service_cardinality s = CARDINALITY_AUTHORITY)) [0..<i] \<longleftrightarrow>
      \<not> (\<forall>j<i. \<not> authority_clash (the (services ! j)) s)" for s
    by (auto simp: list_ex_iff authority_clash_def)
  show ?thesis
    unfolding service_step_def service_admitted_def service_fits_def Let_def clash valid
    by (auto simp: not_less [where 'a = u64])
qed

lemma unat_sum_iff:
  fixes a b c :: "'a::len word"
  shows "unat a = unat b + unat c \<longleftrightarrow> b \<le> - 1 - c \<and> a = b + c"
proof
  assume s: "unat a = unat b + unat c"
  then have "unat b + unat c < 2 ^ LENGTH('a)" using unat_bound [of a] by simp
  then show "b \<le> - 1 - c \<and> a = b + c"
    using s by (simp add: guard_simps word_unat_eq_iff unat_add_no_overflow)
qed (simp add: unat_add_guarded)

lemma word_of_value: "n < 2 ^ LENGTH('a) \<Longrightarrow> \<exists>a :: 'a::len word. unat a = n"
  by (rule exI [of _ "of_nat n"]) (simp add: unsigned_of_nat take_bit_nat_eq_self)

lemma service_fold_ok:
  "fold_result (service_step call product mode services) [0..<n] (0, 0) = Inr (a, g) \<longleftrightarrow>
     (\<forall>i<n. service_admitted call product mode services i) \<and>
     unat a = (\<Sum>i<n. unat (service_arena_budget (the (services ! i)))) \<and>
     g = fold (\<lambda>i g. g OR service_provides (the (services ! i))) [0..<n] 0"
proof (induction n arbitrary: a g)
  case 0
  then show ?case by (auto simp: unat_eq_0)
next
  case (Suc n)
  let ?w = "service_arena_budget (the (services ! n))"
  let ?S = "\<Sum>i<n. unat (service_arena_budget (the (services ! i)))"
  let ?f = "fold_result (service_step call product mode services) [0..<n] (0, 0)"
  have "fold_result (service_step call product mode services) [0..<Suc n] (0, 0) = Inr (a, g) \<longleftrightarrow>
     (\<exists>a' g'. ?f = Inr (a', g') \<and> service_step call product mode services n (a', g') = Inr (a, g))"
    by (auto simp: fold_result_append split: sum.splits)
  also have "\<dots> \<longleftrightarrow> (\<forall>i<Suc n. service_admitted call product mode services i) \<and>
      (\<exists>a' :: u64. unat a' = ?S \<and> unat a = unat a' + unat ?w) \<and>
      g = fold (\<lambda>i g. g OR service_provides (the (services ! i))) [0..<Suc n] 0"
    unfolding Suc.IH service_step_ok unat_sum_iff by (auto simp: less_Suc_eq)
  also have "(\<exists>a' :: u64. unat a' = ?S \<and> unat a = unat a' + unat ?w) \<longleftrightarrow> unat a = ?S + unat ?w"
  proof
    assume "unat a = ?S + unat ?w"
    moreover then have "\<exists>a' :: u64. unat a' = ?S"
      using unat_bound [of a] by (intro word_of_value) simp
    ultimately show "\<exists>a' :: u64. unat a' = ?S \<and> unat a = unat a' + unat ?w"
by metis
  qed auto
  finally show ?case by simp
qed

text \<open>The same in terms of the list of services.\<close>

lemma service_fold_list:
  assumes "services = map Some ss"
  shows "fold_result (service_step call product mode services) [0..<length ss] (0, 0) = Inr (a, g) \<longleftrightarrow>
     list_all (service_fits call product mode) ss \<and> ids_ascending ss \<and>
     sorted_wrt (\<lambda>s t. \<not> authority_clash s t) ss \<and>
     unat a = (\<Sum>s\<leftarrow>ss. unat (service_arena_budget s)) \<and> g = provided_by ss"
proof -
  have all: "(\<forall>i<length ss. service_admitted call product mode services i) \<longleftrightarrow>
      list_all (service_fits call product mode) ss \<and> ids_ascending ss \<and>
      sorted_wrt (\<lambda>s t. \<not> authority_clash s t) ss"
    unfolding ids_ascending_adjacent sorted_wrt_iff_nth_less list_all_length
    by (fastforce simp: service_admitted_def assms)
  have sum: "(\<Sum>i<length ss. unat (service_arena_budget (the (services ! i)))) =
      (\<Sum>s\<leftarrow>ss. unat (service_arena_budget s))"
    by (simp add: sum_list_sum_nth assms atLeast0LessThan)
  have "fold (\<lambda>i g. g OR service_provides (the (services ! i))) [0..<n] 0 = provided_by (take n ss)"
    if "n \<le> length ss" for n
    using that by (induction n) (simp_all add: provided_by_def assms take_Suc_conv_app_nth)
  from this [of "length ss"]
  have prov: "fold (\<lambda>i g. g OR service_provides (the (services ! i))) [0..<length ss] 0 = provided_by ss"
    by simp
  show ?thesis unfolding service_fold_ok all sum prov by blast
qed

lemma bit_provided_by: "bit (provided_by ss) b \<longleftrightarrow> (\<exists>s\<in>set ss. bit (service_provides s) b)"
proof -
  have "bit (fold (\<lambda>s a. a OR service_provides s) ss g) b \<longleftrightarrow>
      bit g b \<or> (\<exists>s\<in>set ss. bit (service_provides s) b)" for g
    by (induction ss arbitrary: g) (auto simp: bit_or_iff)
  from this [of 0] show ?thesis by (simp add: provided_by_def)
qed

section \<open>Lookup and selection\<close>

text \<open>The descriptors of a directory whose array has as many elements as it declares.\<close>

abbreviation service_list :: "'o RibonServiceDirectory \<Rightarrow> 'o RibonServiceDescriptor list" where
  "service_list d \<equiv> map the (services_of d)"

definition directory_complete :: "'o RibonServiceDirectory \<Rightarrow> bool" where
  "directory_complete d \<longleftrightarrow>
     (case directory_services d of None \<Rightarrow> True | Some ss \<Rightarrow> unat (directory_service_count d) \<le> length ss)"

lemma directory_length:
  assumes "directory_complete d" "directory_service_count d = 0 \<or> directory_services d \<noteq> None"
  shows "length (services_of d) = unat (directory_service_count d)"
  using assms by (auto simp: directory_complete_def elements_def split: option.splits)

lemma find_exact_iff:
  assumes ss: "services_of d = map Some ss" and ids: "ids_ascending ss"
  shows "ribon_service_directory_find_exact (Some d) kind (Some ident) = Some s \<longleftrightarrow>
     s \<in> set ss \<and> service_kind s = kind \<and> service_id s = Some ident"
proof -
  let ?P = "\<lambda>s. service_kind s = kind \<and> service_id s = Some ident"
  have "find (\<lambda>s. s \<noteq> None \<and> service_kind (the s) = kind \<and> service_streq (service_id (the s)) (Some ident))
      (map Some ss) = map_option Some (find ?P ss)"
    by (induction ss) (auto simp: service_streq_def)
  then have "ribon_service_directory_find_exact (Some d) kind (Some ident) =
      (if directory_services d = None then None else find ?P ss)"
    using ss by (auto simp: ribon_service_directory_find_exact_def split: option.splits)
  also have "\<dots> = find ?P ss" using ss by (auto simp: elements_def split: option.splits)
  also have "find ?P ss = Some s \<longleftrightarrow> s \<in> set ss \<and> ?P s"
  proof
    assume "find ?P ss = Some s"
    then show "s \<in> set ss \<and> ?P s" by (auto simp: find_Some_iff)
  next
    assume s: "s \<in> set ss \<and> ?P s"
    then obtain t where t: "find ?P ss = Some t" by (cases "find ?P ss") (auto simp: find_None_iff)
    then have "t \<in> set ss" "?P t" by (auto simp: find_Some_iff)
    moreover have "inj_on id_of (set ss)" using ids_distinct [OF ids] by (simp add: distinct_map)
    ultimately have "t = s" using s by (metis inj_onD)
    then show "find ?P ss = Some s" using t by simp
  qed
  finally show ?thesis .
qed

definition selection_resolved :: "'o RibonServiceDirectory \<Rightarrow> RibonServiceSelection \<Rightarrow> bool" where
  "selection_resolved d selection \<longleftrightarrow>
     service_selection_is_valid selection \<and>
     (\<exists>s. ribon_service_directory_find_exact (Some d) (service_selection_kind selection)
            (service_selection_id selection) = Some s \<and> service_cardinality s = CARDINALITY_COLLECTION)"

lemma selections_check_ok:
  "service_selections_check (Some d) previous sels = None \<longleftrightarrow>
     list_all (selection_resolved d) sels \<and> sorted_wrt (<) (map service_selection_kind sels) \<and>
     (\<forall>k. previous = Some k \<longrightarrow> list_all (\<lambda>s. k < service_selection_kind s) sels)"
proof (induction sels arbitrary: previous)
  case (Cons sel sels)
  let ?k = "service_selection_kind sel"
  have "service_selections_check (Some d) previous (sel # sels) = None \<longleftrightarrow>
      selection_resolved d sel \<and> (\<forall>k. previous = Some k \<longrightarrow> k < ?k) \<and>
      service_selections_check (Some d) (Some ?k) sels = None"
    by (auto simp: selection_resolved_def not_le split: option.splits)
  also have "\<dots> \<longleftrightarrow> selection_resolved d sel \<and> (\<forall>k. previous = Some k \<longrightarrow> k < ?k) \<and>
      list_all (selection_resolved d) sels \<and> sorted_wrt (<) (map service_selection_kind sels) \<and>
      list_all (\<lambda>s. ?k < service_selection_kind s) sels"
    by (simp add: Cons.IH)
  finally show ?case by (auto simp: list_all_iff intro: less_trans)
qed simp

lemma selections_check_error: "service_selections_check d previous sels \<noteq> Some CORE_OK"
  by (induction sels arbitrary: previous) (auto split: option.splits)

lemma fits_fields:
  assumes "service_fits call product mode s"
  shows "service_id s \<noteq> None" "service_provides s = service_capabilities (service_kind s)"
    "service_cardinality s = CARDINALITY_AUTHORITY \<or> service_cardinality s = CARDINALITY_COLLECTION"
proof -
  have v: "ribon_service_descriptor_is_valid call (Some s)" using assms by (simp add: service_fits_def)
  then show "service_id s \<noteq> None" "service_provides s = service_capabilities (service_kind s)"
    by (auto simp: ribon_service_descriptor_is_valid_def split: if_splits)
  have "\<not> CARDINALITY_COLLECTION < service_cardinality s"
    using v by (simp add: ribon_service_descriptor_is_valid_def split: if_splits)
  then show "service_cardinality s = CARDINALITY_AUTHORITY \<or> service_cardinality s = CARDINALITY_COLLECTION"
    by (auto simp: word_less_nat_alt word_unat_eq_iff)
qed

section \<open>The verdict\<close>

definition directory_header :: "'o RibonServiceDirectory \<Rightarrow> u32 \<Rightarrow> bool" where
  "directory_header d mode \<longleftrightarrow>
     directory_size d = 24 \<and> directory_abi_version d = SERVICE_DIRECTORY_ABI_VERSION \<and>
     unat (directory_service_count d) \<le> SERVICE_DIRECTORY_LIMIT \<and>
     (directory_service_count d = 0 \<or> directory_services d \<noteq> None) \<and> mode \<le> MODE_DIAGNOSTIC"

definition role_resolved ::
  "'o RibonServiceDescriptor list \<Rightarrow> RibonServiceSelection list \<Rightarrow> 'o RibonServiceDescriptor \<Rightarrow> bool"
where
  "role_resolved ss sels s \<longleftrightarrow>
     filter (\<lambda>t. service_kind t = service_kind s) ss = [s] \<or>
     service_cardinality s = CARDINALITY_COLLECTION \<and> service_kind s \<in> service_selection_kind ` set sels"

definition directory_accepts ::
  "(address \<Rightarrow> 'o RibonServiceDescriptor \<Rightarrow> bool) \<Rightarrow> RibonProductDescriptor \<Rightarrow> u32 \<Rightarrow>
   'o RibonServiceDirectory \<Rightarrow> 'o RibonServiceDescriptor list \<Rightarrow> bool"
where
  "directory_accepts call p mode d ss \<longleftrightarrow>
     services_of d = map Some ss \<and>
     list_all (service_fits call p mode) ss \<and> ids_ascending ss \<and>
     (\<Sum>s\<leftarrow>ss. unat (service_arena_budget s)) \<le> unat (arena_bytes (product_limits p)) \<and>
     (\<forall>b. bit (product_required_capabilities p AND service_capability_mask) b \<longrightarrow>
        (\<exists>s\<in>set ss. bit (service_provides s) b)) \<and>
     list_all (selection_resolved d) (service_selections p) \<and>
     sorted_wrt (<) (map service_selection_kind (service_selections p)) \<and>
     list_all (role_resolved ss (service_selections p)) ss"

lemma filter_two:
  "1 < length (filter P xs) \<longleftrightarrow> (\<exists>i j. i < j \<and> j < length xs \<and> P (xs ! i) \<and> P (xs ! j))"
proof
  let ?A = "{i. i < length xs \<and> P (xs ! i)}"
  assume "1 < length (filter P xs)"
  then have "\<not> card ?A \<le> Suc 0" by (simp add: length_filter_conv_card)
  then obtain i j where "i \<in> ?A" "j \<in> ?A" "i \<noteq> j" by (auto simp: card_le_Suc0_iff_eq)
  then show "\<exists>i j. i < j \<and> j < length xs \<and> P (xs ! i) \<and> P (xs ! j)"
    by (cases i j rule: linorder_cases) auto
next
  assume "\<exists>i j. i < j \<and> j < length xs \<and> P (xs ! i) \<and> P (xs ! j)"
  then obtain i j where ij: "i < j" "j < length xs" "P (xs ! i)" "P (xs ! j)" by blast
  then have "card {i, j} \<le> card {i. i < length xs \<and> P (xs ! i)}" by (intro card_mono) auto
  then show "1 < length (filter P xs)" using ij(1) by (simp add: length_filter_conv_card)
qed

lemma filter_one:
  assumes "s \<in> set xs" "P s"
  shows "filter P xs = [s] \<longleftrightarrow> \<not> 1 < length (filter P xs)"
proof
  assume "\<not> 1 < length (filter P xs)"
  moreover have "s \<in> set (filter P xs)" using assms by simp
  ultimately show "filter P xs = [s]" by (cases "filter P xs") auto
qed simp

text \<open>A role has a single provider, or only collection members and a selection.\<close>

lemma resolved_no_clash:
  assumes "list_all (role_resolved ss sels) ss"
  shows "sorted_wrt (\<lambda>s t. \<not> authority_clash s t) ss"
  unfolding sorted_wrt_iff_nth_less
proof (intro allI impI notI)
  fix i j assume ij: "i < j" "j < length ss" and clash: "authority_clash (ss ! i) (ss ! j)"
  then have kind: "service_kind (ss ! i) = service_kind (ss ! j)" by (simp add: authority_clash_def)
  then have "1 < length (filter (\<lambda>t. service_kind t = service_kind (ss ! j)) ss)"
    unfolding filter_two using ij by blast
  then have "\<not> filter (\<lambda>t. service_kind t = service_kind (ss ! k)) ss = [x]" if "k = i \<or> k = j" for k x
    using that kind by (auto dest!: arg_cong [of _ _ length])
  moreover have "role_resolved ss sels (ss ! k)" if "k = i \<or> k = j" for k
    using assms ij that by (auto simp: list_all_length)
  ultimately have "service_cardinality (ss ! k) = CARDINALITY_COLLECTION" if "k = i \<or> k = j" for k
    using that unfolding role_resolved_def by blast
  then show False using clash by (simp add: authority_clash_def)
qed

lemma unambiguous_iff:
  assumes clash: "sorted_wrt (\<lambda>s t. \<not> authority_clash s t) ss"
    and fits: "list_all (service_fits call p mode) ss"
  shows "\<not> list_ex (service_is_ambiguous ss sels) ss \<longleftrightarrow> list_all (role_resolved ss sels) ss"
proof -
  have "\<not> service_is_ambiguous ss sels s \<longleftrightarrow> role_resolved ss sels s" if s: "s \<in> set ss" for s
  proof (cases "1 < length (filter (\<lambda>t. service_kind t = service_kind s) ss)")
    case False
    then show ?thesis using filter_one [OF s] by (simp add: service_is_ambiguous_def role_resolved_def)
  next
    case True
    then obtain i j where ij: "i < j" "j < length ss" "service_kind (ss ! i) = service_kind s"
      "service_kind (ss ! j) = service_kind s" unfolding filter_two by blast
    obtain k where k: "k < length ss" "ss ! k = s" using s by (auto simp: in_set_conv_nth)
    define l where "l = (if i = k then j else i)"
    have l: "l \<noteq> k" "l < length ss" "service_kind (ss ! l) = service_kind s"
      using ij by (auto simp: l_def)
    then have "\<not> authority_clash (ss ! min k l) (ss ! max k l)"
      using clash k unfolding sorted_wrt_iff_nth_less by (simp add: min_def max_def)
    then have "service_cardinality s \<noteq> CARDINALITY_AUTHORITY"
      using l k by (auto simp: authority_clash_def min_def max_def split: if_splits)
    then have "service_cardinality s = CARDINALITY_COLLECTION"
      using fits_fields(3) [of call p mode s] fits s by (auto simp: list_all_iff)
    moreover have "filter (\<lambda>t. service_kind t = service_kind s) ss \<noteq> [s]" using True by auto
    ultimately show ?thesis
      using True unfolding service_is_ambiguous_def role_resolved_def list_ex_iff image_iff by metis
  qed
  then show ?thesis by (auto simp: list_ex_iff list_all_iff)
qed

lemma masked_subset:
  fixes g r m :: u64
  shows "g AND r AND m = r AND m \<longleftrightarrow> (\<forall>b. bit (r AND m) b \<longrightarrow> bit g b)"
proof
  assume "g AND r AND m = r AND m"
  then show "\<forall>b. bit (r AND m) b \<longrightarrow> bit g b" by (metis bit_and_iff)
qed (auto simp: bit_eq_iff bit_and_iff)

lemma directory_fold_some:
  assumes "fold_result (service_step call p mode services) [0..<length services] (0, 0) = Inr (a, g)"
  shows "services = map Some (map the services)"
proof -
  have "services ! i \<noteq> None" if "i < length services" for i
    using assms that unfolding service_fold_ok by (simp add: service_admitted_def)
  then show ?thesis by (intro nth_equalityI) auto
qed

definition directory_body ::
  "(address \<Rightarrow> 'o RibonServiceDescriptor \<Rightarrow> bool) \<Rightarrow> RibonProductDescriptor \<Rightarrow> u32 \<Rightarrow>
   'o RibonServiceDirectory \<Rightarrow> RibonCoreStatus"
where
  "directory_body call p mode d =
     (case fold_result (service_step call p mode (services_of d)) [0..<unat (directory_service_count d)] (0, 0) of
        Inl e \<Rightarrow> e
      | Inr (arena_budget, aggregate) \<Rightarrow>
          if arena_bytes (product_limits p) < arena_budget \<or>
             aggregate AND product_required_capabilities p AND service_capability_mask \<noteq>
             product_required_capabilities p AND service_capability_mask
          then CORE_MISSING_CAPABILITY
          else case service_selections_check (Some d) None (service_selections p) of
              Some e \<Rightarrow> e
            | None \<Rightarrow> if list_ex (service_is_ambiguous (service_list d) (service_selections p)) (service_list d)
                      then CORE_AMBIGUOUS_SELECTION else CORE_OK)"

lemma directory_run:
  "ribon_service_directory_validate call (Some d) (Some p) mode =
     (if \<not> directory_header d mode then CORE_INVALID_DESCRIPTOR else directory_body call p mode d)"
proof -
  have "(Some d = None \<or> Some p = None \<or> directory_size d \<noteq> 24 \<or>
      directory_abi_version d \<noteq> SERVICE_DIRECTORY_ABI_VERSION \<or> 64 < directory_service_count d \<or>
      (directory_service_count d \<noteq> 0 \<and> directory_services d = None) \<or>
      mode < MODE_NORMAL \<or> MODE_DIAGNOSTIC < mode) \<longleftrightarrow> \<not> directory_header d mode"
    by (auto simp: directory_header_def word_less_nat_alt word_le_nat_alt)
  then show ?thesis
    unfolding ribon_service_directory_validate_def directory_body_def Let_def option.sel by (simp only:)
qed

lemma if_eqE: "(if c then a else b) = r \<Longrightarrow> (a = r \<Longrightarrow> P) \<Longrightarrow> (b = r \<Longrightarrow> P) \<Longrightarrow> P"
  by (cases c) simp_all

lemma service_step_error: "service_step call p mode services i t = Inl e \<Longrightarrow> e \<noteq> CORE_OK"
  by (cases t, hypsubst, unfold service_step_def Let_def prod.case, elim if_eqE) auto

lemma service_fold_error:
  "fold_result (service_step call p mode services) xs t = Inl e \<Longrightarrow> e \<noteq> CORE_OK"
  using service_step_error by (metis fold_result_error)

lemma accepts_fold:
  assumes "directory_accepts call p mode d ss"
  obtains a where "fold_result (service_step call p mode (services_of d)) [0..<length ss] (0, 0) =
    Inr (a, provided_by ss)"
proof -
  let ?sum = "\<Sum>s\<leftarrow>ss. unat (service_arena_budget s)"
  have "?sum < 2 ^ 64"
    using assms unat_bound [of "arena_bytes (product_limits p)"] by (simp add: directory_accepts_def)
  then obtain a :: u64 where "unat a = ?sum" using word_of_value [where 'a = 64] by auto
  moreover have ss: "services_of d = map Some ss" "sorted_wrt (\<lambda>s t. \<not> authority_clash s t) ss"
    using assms resolved_no_clash by (auto simp: directory_accepts_def)
  ultimately have "fold_result (service_step call p mode (services_of d)) [0..<length ss] (0, 0) =
      Inr (a, provided_by ss)"
    unfolding service_fold_list [OF ss(1)] using assms by (simp add: directory_accepts_def)
  then show thesis by (rule that)
qed

lemma directory_body_ok:
  assumes n: "unat (directory_service_count d) = length (services_of d)"
  shows "directory_body call p mode d = CORE_OK \<longleftrightarrow> directory_accepts call p mode d (service_list d)"
proof (cases "fold_result (service_step call p mode (services_of d)) [0..<length (services_of d)] (0, 0)")
  case (Inl e)
  then have "directory_body call p mode d \<noteq> CORE_OK"
    using service_fold_error [OF Inl] by (simp add: directory_body_def n)
  moreover have "\<not> directory_accepts call p mode d (service_list d)"
  proof
    assume "directory_accepts call p mode d (service_list d)"
    then show False by (rule accepts_fold) (simp add: Inl)
  qed
  ultimately show ?thesis by simp
next
  case (Inr r)
  obtain a g where r: "r = (a, g)" by (cases r)
  let ?ss = "service_list d" and ?sels = "service_selections p"
  have ss: "services_of d = map Some ?ss" by (rule directory_fold_some [OF Inr [unfolded r]])
  note fold = service_fold_list [OF ss, of call p mode a g, unfolded length_map, THEN iffD1, OF Inr [unfolded r]]
  have "directory_body call p mode d = CORE_OK \<longleftrightarrow>
      a \<le> arena_bytes (product_limits p) \<and>
      g AND product_required_capabilities p AND service_capability_mask =
        product_required_capabilities p AND service_capability_mask \<and>
      service_selections_check (Some d) None ?sels = None \<and> \<not> list_ex (service_is_ambiguous ?ss ?sels) ?ss"
    unfolding directory_body_def n Inr r sum.case prod.case
    using selections_check_error [of "Some d" None ?sels]
    by (cases "service_selections_check (Some d) None ?sels") (simp_all add: not_less [symmetric])
  also have "\<dots> \<longleftrightarrow> directory_accepts call p mode d ?ss"
  proof -
    have resolved: "\<not> list_ex (service_is_ambiguous ?ss ?sels) ?ss \<longleftrightarrow> list_all (role_resolved ?ss ?sels) ?ss"
      by (rule unambiguous_iff [OF fold [THEN conjunct2, THEN conjunct2, THEN conjunct1] fold [THEN conjunct1]])
    have provided: "bit g b \<longleftrightarrow> (\<exists>s\<in>set ?ss. bit (service_provides s) b)" for b
      unfolding fold [THEN conjunct2, THEN conjunct2, THEN conjunct2, THEN conjunct2] by (rule bit_provided_by)
    show ?thesis
      using fold [THEN conjunct1] fold [THEN conjunct2, THEN conjunct1]
      unfolding directory_accepts_def selections_check_ok masked_subset word_le_nat_alt resolved provided
        ss [THEN eqTrueI] fold [THEN conjunct2, THEN conjunct2, THEN conjunct2, THEN conjunct1]
      by blast
  qed
  finally show ?thesis .
qed

lemma directory_verdict:
  assumes "directory_complete d"
  shows "ribon_service_directory_validate call (Some d) (Some p) mode = CORE_OK \<longleftrightarrow>
    directory_header d mode \<and> directory_accepts call p mode d (service_list d)"
proof (cases "directory_header d mode")
  case True
  then have "unat (directory_service_count d) = length (services_of d)"
    using directory_length [OF assms] by (simp add: directory_header_def)
  then show ?thesis using True directory_body_ok [of d call p mode] by (simp add: directory_run)
qed (simp add: directory_run)

section \<open>Properties\<close>

text \<open>
  C20. A directory is accepted exactly when its header and the mode are valid, every service is a
  valid descriptor within the product's masks and limits, the identifiers ascend strictly, the arena
  budgets sum up, without wrapping, to at most the product's arena, every service capability that the
  product requires is provided, the product's selections ascend and name collection members, and
  every role has a single provider or is a collection with a selection.
\<close>

theorem service_directory_validate_exact:
  assumes "directory_complete d"
  shows "ribon_service_directory_validate call (Some d) (Some p) mode = CORE_OK \<longleftrightarrow>
    directory_header d mode \<and> directory_accepts call p mode d (service_list d)"
  by (rule directory_verdict [OF assms])

definition sample_service :: "u32 \<Rightarrow> u32 \<Rightarrow> string \<Rightarrow> unit RibonServiceDescriptor" where
  "sample_service kind cardinality ident =
     \<lparr>service_magic = 0x52425356, service_size = 120, service_abi_version = 4, service_kind = kind,
      service_cardinality = cardinality, service_lifetime = 0, service_phase = 0,
      service_id = Some ident, service_provides = service_capabilities kind,
      service_architecture_mask = 1, service_environment_mask = 1, service_personality_mask = 0,
      service_mode_mask = 15, service_arena_budget = 16, service_input_budget = 16,
      service_output_budget = 16, service_deadline_ms = 1, service_operations = Some (),
      service_operations_size = 1, service_operations_abi = 1, service_validate_operations = Some 1\<rparr>"

definition sample_directory :: "unit RibonServiceDescriptor list \<Rightarrow> unit RibonServiceDirectory" where
  "sample_directory ss = \<lparr>directory_size = 24, directory_abi_version = 1,
     directory_services = Some (map Some ss), directory_service_count = of_nat (length ss)\<rparr>"

definition sample_selecting :: RibonProductDescriptor where
  "sample_selecting = sample_product
     \<lparr>product_service_selections := Some [\<lparr>service_selection_kind = SERVICE_WATCHDOG,
        service_selection_id = Some ''wd-b''\<rparr>], product_service_selection_count := 1\<rparr>"

abbreviation sample_watchdogs :: "unit RibonServiceDirectory" where
  "sample_watchdogs \<equiv> sample_directory
     [sample_service SERVICE_NETWORK_TRANSPORT CARDINALITY_AUTHORITY ''net'',
      sample_service SERVICE_WATCHDOG CARDINALITY_COLLECTION ''wd-a'',
      sample_service SERVICE_WATCHDOG CARDINALITY_COLLECTION ''wd-b'']"

lemma sample_directory_verdicts:
  "ribon_service_directory_validate (\<lambda>a s. True) (Some sample_watchdogs) (Some sample_selecting) 0 = CORE_OK"
  "ribon_service_directory_validate (\<lambda>a s. True) (Some sample_watchdogs) (Some sample_product) 0 =
     CORE_AMBIGUOUS_SELECTION"
  by code_simp+

lemma sample_directory_complete: "directory_complete sample_watchdogs"
  by (simp add: directory_complete_def sample_directory_def)

theorem service_directory_validate_exact_witness:
  "directory_accepts (\<lambda>a s. True) sample_selecting 0 sample_watchdogs (service_list sample_watchdogs) \<and>
   \<not> (directory_header sample_watchdogs 0 \<and>
      directory_accepts (\<lambda>a s. True) sample_product 0 sample_watchdogs (service_list sample_watchdogs))"
  using service_directory_validate_exact [OF sample_directory_complete, of "\<lambda>a s. True" sample_selecting 0]
    service_directory_validate_exact [OF sample_directory_complete, of "\<lambda>a s. True" sample_product 0]
  unfolding sample_directory_verdicts by simp

lemma accepted_owner:
  assumes acc: "directory_accepts call p mode d ss" and s: "s \<in> set ss"
  shows "ribon_service_directory_find_exact (Some d) (service_kind s) (service_id s) = Some s"
    and "filter (\<lambda>t. service_kind t = service_kind s) ss = [s] \<or>
      (\<exists>t\<in>set ss. ribon_service_directory_find_selected (Some d) (Some p) (service_kind s) = Some t \<and>
        service_kind t = service_kind s \<and> service_cardinality t = CARDINALITY_COLLECTION)"
proof -
  have ss: "services_of d = map Some ss" and ids: "ids_ascending ss"
    and fits: "service_fits call p mode s" and role: "role_resolved ss (service_selections p) s"
    and sels: "list_all (selection_resolved d) (service_selections p)"
    using acc s by (auto simp: directory_accepts_def list_all_iff)
  obtain ident where ident: "service_id s = Some ident" using fits_fields(1) [OF fits] by blast
  show "ribon_service_directory_find_exact (Some d) (service_kind s) (service_id s) = Some s"
    unfolding ident find_exact_iff [OF ss ids] using s ident by simp
  show "filter (\<lambda>t. service_kind t = service_kind s) ss = [s] \<or>
      (\<exists>t\<in>set ss. ribon_service_directory_find_selected (Some d) (Some p) (service_kind s) = Some t \<and>
        service_kind t = service_kind s \<and> service_cardinality t = CARDINALITY_COLLECTION)"
  proof (cases "service_kind s \<in> service_selection_kind ` set (service_selections p)")
    case True
    let ?find = "find (\<lambda>x. service_selection_kind x = service_kind s) (service_selections p)"
    obtain sel where f: "?find = Some sel" using True by (cases ?find) (auto simp: find_None_iff)
    have sel: "sel \<in> set (service_selections p)" "service_selection_kind sel = service_kind s"
      using f by (auto simp: find_Some_iff)
    then have "selection_resolved d sel" using sels by (simp add: list_all_iff)
    then obtain t n where t: "ribon_service_directory_find_exact (Some d) (service_kind s) (Some n) = Some t"
      "service_cardinality t = CARDINALITY_COLLECTION" "service_selection_id sel = Some n"
      by (auto simp: selection_resolved_def service_selection_is_valid_def sel(2))
    have "ribon_service_directory_find_selected (Some d) (Some p) (service_kind s) = Some t"
      using f t(1,3) by (simp add: ribon_service_directory_find_selected_def)
    then show ?thesis using t(1,2) unfolding find_exact_iff [OF ss ids] by blast
  qed (use role in \<open>auto simp: role_resolved_def\<close>)
qed

text \<open>
  C21. In an accepted directory every service is found by its role and identifier, and its role has a
  single provider or the product selects one of its collection members, which the directory returns.
\<close>

theorem service_directory_owner:
  assumes "directory_complete d"
    and "ribon_service_directory_validate call (Some d) (Some p) mode = CORE_OK"
    and "s \<in> set (service_list d)"
  shows "ribon_service_directory_find_exact (Some d) (service_kind s) (service_id s) = Some s \<and>
    (filter (\<lambda>t. service_kind t = service_kind s) (service_list d) = [s] \<or>
      (\<exists>t\<in>set (service_list d).
        ribon_service_directory_find_selected (Some d) (Some p) (service_kind s) = Some t \<and>
        service_kind t = service_kind s \<and> service_cardinality t = CARDINALITY_COLLECTION))"
  using accepted_owner [of call p mode d "service_list d" s] directory_verdict [OF assms(1)] assms(2,3)
  by simp

theorem service_directory_owner_witness:
  "\<exists>t\<in>set (service_list sample_watchdogs).
     ribon_service_directory_find_selected (Some sample_watchdogs) (Some sample_selecting) SERVICE_WATCHDOG = Some t \<and>
     service_kind t = SERVICE_WATCHDOG \<and> service_cardinality t = CARDINALITY_COLLECTION"
proof -
  let ?s = "sample_service SERVICE_WATCHDOG CARDINALITY_COLLECTION ''wd-a''"
  have s: "?s \<in> set (service_list sample_watchdogs)" "service_kind ?s = SERVICE_WATCHDOG"
    and two: "filter (\<lambda>t. service_kind t = SERVICE_WATCHDOG) (service_list sample_watchdogs) \<noteq> [?s]"
    by (simp_all add: sample_directory_def elements_def sample_service_def)
  show ?thesis
    using service_directory_owner [OF sample_directory_complete sample_directory_verdicts(1) s(1)] two
    unfolding s(2) by blast
qed

end
