(* ===== verification/Context_Properties.thy ===== *)
theory Context_Properties
  imports Core_Context Service_Properties
begin

text \<open>
  What an accepted core context guarantees: the verdicts of registry and service directory compose,
  so that every requirement of every plugin has a provider.
\<close>

section \<open>Composition\<close>

lemma service_capability_masked:
  assumes "registry_capability_is_service (capability_bit b)"
  shows "bit service_capability_mask b"
proof -
  have "service_capability_mask AND c \<noteq> 0" if "registry_capability_is_service c" for c
    using that unfolding registry_capability_is_service_def
    by (elim disjE) (simp_all add: service_capability_mask_def)
  then show ?thesis using assms and_capability_bit by blast
qed

lemma if_eqD: "(if c then a else b) = r \<Longrightarrow> a \<noteq> r \<Longrightarrow> \<not> c \<and> b = r"
  by (cases c) simp_all

text \<open>What the checks of the context itself establish.\<close>

lemma context_accepted:
  assumes ok: "ribon_core_context_validate pc sc (Some c) = Some CORE_OK"
  obtains p r d m a where "context_product c = Some p" "context_registry c = Some r"
    "context_services c = Some d" "context_mode c = Some m" "context_arena c = Some a"
    "ribon_mode_descriptor_is_valid (Some m)" "used a = 0" "high_watermark a = 0"
    "arena_bytes (product_limits p) \<le> capacity a" "arena_bytes (mode_limits m) \<le> capacity a"
    "ribon_plugin_registry_validate pc (Some r) (Some p) (mode_mode m) = Some CORE_OK"
    "ribon_service_directory_validate sc (Some d) (Some p) (mode_mode m) = CORE_OK"
proof -
  note args = if_eqD [OF ok [unfolded ribon_core_context_validate_def]]
  obtain p r d m a where f: "context_product c = Some p" "context_registry c = Some r"
    "context_services c = Some d" "context_mode c = Some m" "context_arena c = Some a"
    using args by auto
  note body = args [THEN conjunct2, unfolded Let_def option.sel f]
  note mode = if_eqD [OF body]
  note limit = if_eqD [OF mode [THEN conjunct2]]
  have verdicts: "ribon_plugin_registry_validate pc (Some r) (Some p) (mode_mode m) = Some CORE_OK"
    "ribon_service_directory_validate sc (Some d) (Some p) (mode_mode m) = CORE_OK"
    using limit [THEN conjunct2] by (auto split: option.splits if_splits)
  show thesis
    by (rule that [OF f]) (use mode limit verdicts in \<open>simp_all add: not_less\<close>)
qed

lemma context_verdict:
  assumes "\<And>r. context_registry c = Some r \<Longrightarrow> registry_complete r"
  shows "\<exists>status. ribon_core_context_validate pc sc (Some c) = Some status"
proof (cases "context_registry c = None \<or> context_product c = None")
  case True
  then show ?thesis by (auto simp: ribon_core_context_validate_def)
next
  case False
  then obtain r p where rp: "context_registry c = Some r" "context_product c = Some p" by auto
  obtain st where "ribon_plugin_registry_validate pc (Some r) (Some p) (mode_mode (the (context_mode c))) = Some st"
    using registry_verdict [OF assms [OF rp(1)], of pc p] by blast
  then show ?thesis using rp by (simp add: ribon_core_context_validate_def Let_def)
qed

section \<open>A sample context\<close>

abbreviation sample_network :: "unit RibonServiceDirectory" where
  "sample_network \<equiv> sample_directory [sample_service SERVICE_NETWORK_TRANSPORT CARDINALITY_AUTHORITY ''net'']"

definition sample_arena :: RibonArena where
  "sample_arena = \<lparr>base = 4096, capacity = 0x40000, used = 0, high_watermark = 0\<rparr>"

definition sample_context :: "(unit, unit) RibonCoreContext" where
  "sample_context = \<lparr>context_size = 48, context_abi_version = 7, context_product = Some sample_product,
     context_registry = Some (sample_registry 0), context_services = Some sample_network,
     context_mode = Some normal_mode, context_arena = Some sample_arena\<rparr>"

lemma sample_registry_complete: "registry_complete (sample_registry needed)"
  by (simp add: registry_complete_def sample_registry_def)

lemma sample_network_verdict:
  "ribon_service_directory_validate (\<lambda>a s. True) (Some sample_network) (Some sample_product) 0 = CORE_OK"
  by code_simp

lemma sample_context_verdict:
  "ribon_core_context_validate (\<lambda>a d. True) (\<lambda>a s. True) (Some sample_context) = Some CORE_OK"
proof -
  have "ribon_mode_descriptor_is_valid (Some normal_mode)" using modes_valid by simp
  moreover have "mode_mode normal_mode = 0" "arena_bytes (mode_limits normal_mode) = 0x40000"
    by (simp_all add: normal_mode_def)
  moreover have "product_mode_mask sample_product = 15" "arena_bytes (product_limits sample_product) = 64"
    by (simp_all add: sample_product_def)
  ultimately show ?thesis
    using sample_verdicts(1) sample_network_verdict
    by (simp add: ribon_core_context_validate_def sample_context_def sample_arena_def MODE_MASK_def)
qed

section \<open>Properties\<close>





text \<open>
  C23. The verdict does not depend on the capabilities that the mode requires or forbids: two valid
  descriptors of the same mode with the same limits give the same verdict.
\<close>

theorem context_ignores_mode_capabilities:
  assumes "ribon_mode_descriptor_is_valid (Some m)" "ribon_mode_descriptor_is_valid (Some m')"
    and "mode_mode m' = mode_mode m" "mode_limits m' = mode_limits m"
  shows "ribon_core_context_validate pc sc (Some (c\<lparr>context_mode := Some m'\<rparr>)) =
    ribon_core_context_validate pc sc (Some (c\<lparr>context_mode := Some m\<rparr>))"
  by (cases "ribon_plugin_registry_validate pc (context_registry c) (context_product c) (mode_mode m)")
    (simp_all add: ribon_core_context_validate_def Let_def assms)

theorem context_ignores_mode_capabilities_witness:
  "ribon_core_context_validate (\<lambda>a d. True) (\<lambda>a s. True) (Some (sample_context\<lparr>context_mode :=
     Some (normal_mode\<lparr>mode_forbidden_capabilities := 0\<rparr>)\<rparr>)) = Some CORE_OK \<and>
   ribon_core_context_validate (\<lambda>a d. True) (\<lambda>a s. True) (Some sample_context) = Some CORE_OK \<and>
   mode_forbidden_capabilities normal_mode AND CAP_NETWORK_TRANSPORT \<noteq> 0 \<and>
   provided_by (service_list sample_network) = CAP_NETWORK_TRANSPORT"
proof -
  have valid: "ribon_mode_descriptor_is_valid (Some normal_mode)"
    "ribon_mode_descriptor_is_valid (Some (normal_mode\<lparr>mode_forbidden_capabilities := 0\<rparr>))"
    by (simp_all add: ribon_mode_descriptor_is_valid_def core_streq_def ribon_mode_name_def
        ribon_resource_limits_are_valid_def normal_mode_def)
  have same: "sample_context\<lparr>context_mode := Some normal_mode\<rparr> = sample_context"
    by (simp add: sample_context_def)
  have "provided_by (service_list sample_network) = CAP_NETWORK_TRANSPORT"
    by (simp add: provided_by_def sample_directory_def elements_def sample_service_def service_capabilities_def)
  then show ?thesis
    using context_ignores_mode_capabilities [OF valid, of "\<lambda>a d. True" "\<lambda>a s. True" sample_context]
      sample_context_verdict
    by (simp add: same) (simp add: normal_mode_def)
qed

end
