(* ===== verification/Checked_Read.thy ===== *)
theory Checked_Read
  imports Wire "HOL-Library.Monad_Syntax"
begin

text \<open>
  Memory accesses of the byte-wise parsers. A pointer into a buffer is an index into the list of its
  bytes, and every access that leaves the buffer is the value \<open>None\<close>, so that a parser that never
  returns \<open>None\<close> stays inside the memory it was given.
\<close>

section \<open>Accesses\<close>

definition byte_at :: "u8 list \<Rightarrow> nat \<Rightarrow> u8 option" where
  "byte_at m i = (if i < length m then Some (m ! i) else None)"

primrec read_bytes :: "u8 list \<Rightarrow> nat \<Rightarrow> nat \<Rightarrow> u8 list option" where
  "read_bytes m i 0 = Some []"
| "read_bytes m i (Suc n) = do {
     b \<leftarrow> byte_at m i;
     bs \<leftarrow> read_bytes m (Suc i) n;
     Some (b # bs)
   }"

definition array_put :: "'a list \<Rightarrow> nat \<Rightarrow> 'a \<Rightarrow> 'a list option" where
  "array_put xs i x = (if i < length xs then Some (xs[i := x]) else None)"

definition read_le16 :: "u8 list \<Rightarrow> nat \<Rightarrow> 16 word option" where
  "read_le16 m i = do {
     b0 \<leftarrow> byte_at m i;
     b1 \<leftarrow> byte_at m (i + 1);
     Some (ucast b0 OR push_bit 8 (ucast b1))
   }"

definition read_le32 :: "u8 list \<Rightarrow> nat \<Rightarrow> u32 option" where
  "read_le32 m i = do {
     bs \<leftarrow> read_bytes m i 4;
     Some (ucast (bs ! 0) OR push_bit 8 (ucast (bs ! 1)) OR push_bit 16 (ucast (bs ! 2)) OR
       push_bit 24 (ucast (bs ! 3)))
   }"

definition read_le64 :: "u8 list \<Rightarrow> nat \<Rightarrow> u64 option" where
  "read_le64 m i = do {
     bs \<leftarrow> read_bytes m i 8;
     Some (fold (\<lambda>k v. v OR push_bit (k * 8) (ucast (bs ! k))) [0..<8] 0)
   }"

section \<open>Accesses inside the buffer\<close>

lemma byte_at_ok [simp]: "i < length m \<Longrightarrow> byte_at m i = Some (m ! i)"
  by (simp add: byte_at_def)

lemma read_bytes_ok [simp]: "i + n \<le> length m \<Longrightarrow> read_bytes m i n = Some (slice i n m)"
proof (induction n arbitrary: i)
  case (Suc n)
  then have "i < length m" by simp
  then have "slice i (Suc n) m = m ! i # slice (Suc i) n m"
    by (simp add: slice_def Cons_nth_drop_Suc [symmetric])
  then show ?case using Suc by simp
qed (simp add: slice_def)

lemma read_bytes_length: "read_bytes m i n = Some bs \<Longrightarrow> length bs = n"
  by (induction n arbitrary: i bs) (auto split: bind_splits)

lemma read_le_ok:
  "i + 2 \<le> length m \<Longrightarrow> \<exists>v. read_le16 m i = Some v"
  "i + 4 \<le> length m \<Longrightarrow> \<exists>v. read_le32 m i = Some v"
  "i + 8 \<le> length m \<Longrightarrow> \<exists>v. read_le64 m i = Some v"
  by (simp_all add: read_le16_def read_le32_def read_le64_def)

lemma array_put_ok [simp]: "i < length xs \<Longrightarrow> array_put xs i x = Some (xs[i := x])"
  by (simp add: array_put_def)

lemma unat_ucast_u64 [simp]: "unat (ucast (a :: u32) :: u64) = unat a"
  using unat_bound [of a] by (simp add: unsigned_ucast_eq take_bit_nat_eq_self)

section \<open>A calculus for parsers\<close>

text \<open>
  \<open>ensures x P\<close>: the computation \<open>x\<close> makes no access outside its buffers, and its result satisfies
  \<open>P\<close>. The rules in \<open>ensures_intros\<close> take a parser apart and leave the bounds of its accesses.
\<close>

named_theorems ensures_intros

definition ensures :: "'a option \<Rightarrow> ('a \<Rightarrow> bool) \<Rightarrow> bool" where
  "ensures x P \<longleftrightarrow> (\<exists>v. x = Some v \<and> P v)"

lemma ensures_D: "ensures x P \<Longrightarrow> x = Some v \<Longrightarrow> P v"
  by (simp add: ensures_def)

lemma ensures_total: "ensures x P \<Longrightarrow> \<exists>v. x = Some v \<and> P v"
  by (simp add: ensures_def)

lemma ensures_mono: "ensures x Q \<Longrightarrow> (\<And>v. Q v \<Longrightarrow> P v) \<Longrightarrow> ensures x P"
  by (auto simp: ensures_def)

lemma ensures_Some [ensures_intros]: "P v \<Longrightarrow> ensures (Some v) P"
  by (simp add: ensures_def)

lemma ensures_if [ensures_intros]:
  "(c \<Longrightarrow> ensures x P) \<Longrightarrow> (\<not> c \<Longrightarrow> ensures y P) \<Longrightarrow> ensures (if c then x else y) P"
  by simp

lemma ensures_bind: "ensures x Q \<Longrightarrow> (\<And>v. x = Some v \<Longrightarrow> Q v \<Longrightarrow> ensures (f v) P) \<Longrightarrow> ensures (x \<bind> f) P"
  by (auto simp: ensures_def)

lemma ensures_sum [ensures_intros]:
  "(\<And>a. r = Inl a \<Longrightarrow> ensures (f a) P) \<Longrightarrow> (\<And>b. r = Inr b \<Longrightarrow> ensures (g b) P) \<Longrightarrow>
   ensures (case r of Inl a \<Rightarrow> f a | Inr b \<Rightarrow> g b) P"
  by (cases r) auto

lemma ensures_let [ensures_intros]: "(\<And>v. v = e \<Longrightarrow> ensures (f v) P) \<Longrightarrow> ensures (let v = e in f v) P"
  by simp

lemma ensures_byte [ensures_intros]:
  "i < length m \<Longrightarrow> ensures (f (m ! i)) P \<Longrightarrow> ensures (byte_at m i \<bind> f) P"
  by simp

lemma ensures_bytes [ensures_intros]:
  "i + n \<le> length m \<Longrightarrow> ensures (f (slice i n m)) P \<Longrightarrow> ensures (read_bytes m i n \<bind> f) P"
  by simp

lemma ensures_read [ensures_intros]:
  "i + 2 \<le> length m \<Longrightarrow> (\<And>v. read_le16 m i = Some v \<Longrightarrow> ensures (f v) P) \<Longrightarrow> ensures (read_le16 m i \<bind> f) P"
  "i + 4 \<le> length m \<Longrightarrow> (\<And>w. read_le32 m i = Some w \<Longrightarrow> ensures (g w) P) \<Longrightarrow> ensures (read_le32 m i \<bind> g) P"
  "i + 8 \<le> length m \<Longrightarrow> (\<And>u. read_le64 m i = Some u \<Longrightarrow> ensures (h u) P) \<Longrightarrow> ensures (read_le64 m i \<bind> h) P"
proof -
  assume "i + 2 \<le> length m" "\<And>v. read_le16 m i = Some v \<Longrightarrow> ensures (f v) P"
  then show "ensures (read_le16 m i \<bind> f) P" using read_le_ok(1) [of i m] by (metis bind.bind_lunit)
next
  assume "i + 4 \<le> length m" "\<And>w. read_le32 m i = Some w \<Longrightarrow> ensures (g w) P"
  then show "ensures (read_le32 m i \<bind> g) P" using read_le_ok(2) [of i m] by (metis bind.bind_lunit)
next
  assume "i + 8 \<le> length m" "\<And>u. read_le64 m i = Some u \<Longrightarrow> ensures (h u) P"
  then show "ensures (read_le64 m i \<bind> h) P" using read_le_ok(3) [of i m] by (metis bind.bind_lunit)
qed

lemma ensures_put [ensures_intros]:
  "i < length xs \<Longrightarrow> ensures (f (xs[i := x])) P \<Longrightarrow> ensures (array_put xs i x \<bind> f) P"
  by simp

end
