(* ===== verification/Gpt.thy ===== *)
theory Gpt
  imports Checked_Read
begin

text \<open>
  Block device descriptors and the GPT reader (\<open>src/storage/block.c\<close>, \<open>src/storage/gpt.c\<close>,
  \<open>include/Ribon/storage/block.h\<close>). The disk is the list of its bytes; reads and the writes to the
  caller's partition array are checked accesses.
\<close>

section \<open>Block devices\<close>

datatype RibonBlockStatus =
    BLOCK_OK | BLOCK_BAD_ARGUMENT | BLOCK_OUT_OF_RANGE | BLOCK_IO | BLOCK_SHORT_READ | BLOCK_UNSUPPORTED

record RibonReadOnlyBlockDevice =
  device_size :: u32
  device_abi_version :: u32
  logical_block_bytes :: u32
  max_read_blocks :: u32
  block_count :: u64
  device_context :: "nat option"
  device_read :: "nat option"

definition block_is_power_of_two :: "u32 \<Rightarrow> bool" where
  "block_is_power_of_two v = (v \<noteq> 0 \<and> v AND (v - 1) = 0)"

definition ribon_read_only_block_device_is_valid :: "RibonReadOnlyBlockDevice option \<Rightarrow> bool" where
  "ribon_read_only_block_device_is_valid device =
     (case device of
        None \<Rightarrow> False
      | Some d \<Rightarrow>
          device_size d = 40 \<and> device_abi_version d = 1 \<and>
          512 \<le> logical_block_bytes d \<and> logical_block_bytes d \<le> 4096 \<and>
          block_is_power_of_two (logical_block_bytes d) \<and>
          max_read_blocks d \<noteq> 0 \<and> block_count d \<noteq> 0 \<and>
          device_context d \<noteq> None \<and> device_read d \<noteq> None)"

definition ribon_block_status_name :: "RibonBlockStatus \<Rightarrow> string" where
  "ribon_block_status_name status =
     (case status of
        BLOCK_OK \<Rightarrow> ''ok''
      | BLOCK_BAD_ARGUMENT \<Rightarrow> ''bad-argument''
      | BLOCK_OUT_OF_RANGE \<Rightarrow> ''out-of-range''
      | BLOCK_IO \<Rightarrow> ''io''
      | BLOCK_SHORT_READ \<Rightarrow> ''short-read''
      | BLOCK_UNSUPPORTED \<Rightarrow> ''unsupported'')"

section \<open>Partition tables\<close>

datatype RibonGptStatus =
    GPT_OK | GPT_BAD_ARGUMENT | GPT_TRUNCATED | GPT_BAD_PROTECTIVE_MBR | GPT_BAD_HEADER
  | GPT_BAD_HEADER_CRC | GPT_BAD_ENTRIES_CRC | GPT_OVERFLOW | GPT_OUT_OF_CAPACITY
  | GPT_OUT_OF_RANGE | GPT_OVERLAP

definition ribon_gpt_status_name :: "RibonGptStatus \<Rightarrow> string" where
  "ribon_gpt_status_name status =
     (case status of
        GPT_OK \<Rightarrow> ''ok''
      | GPT_BAD_ARGUMENT \<Rightarrow> ''bad-argument''
      | GPT_TRUNCATED \<Rightarrow> ''truncated''
      | GPT_BAD_PROTECTIVE_MBR \<Rightarrow> ''bad-protective-mbr''
      | GPT_BAD_HEADER \<Rightarrow> ''bad-header''
      | GPT_BAD_HEADER_CRC \<Rightarrow> ''bad-header-crc''
      | GPT_BAD_ENTRIES_CRC \<Rightarrow> ''bad-entries-crc''
      | GPT_OVERFLOW \<Rightarrow> ''overflow''
      | GPT_OUT_OF_CAPACITY \<Rightarrow> ''out-of-capacity''
      | GPT_OUT_OF_RANGE \<Rightarrow> ''out-of-range''
      | GPT_OVERLAP \<Rightarrow> ''overlap'')"

record RibonGptPartition =
  type_guid :: "u8 list"
  unique_guid :: "u8 list"
  first_lba :: u64
  last_lba :: u64
  attributes :: u64
  entry_index :: u32

record RibonGptTable =
  partitions :: "RibonGptPartition list option"
  partition_capacity :: u32
  partition_count :: u32
  first_usable_lba :: u64
  last_usable_lba :: u64
  disk_last_lba :: u64

definition gpt_crc_byte :: "u8 \<Rightarrow> u32 \<Rightarrow> u32" where
  "gpt_crc_byte b crc =
     ((\<lambda>c. if c AND 1 \<noteq> 0 then drop_bit 1 c XOR 0xedb88320 else drop_bit 1 c) ^^ 8) (crc XOR ucast b)"

definition gpt_crc32 :: "u8 list \<Rightarrow> nat \<Rightarrow> nat \<Rightarrow> u32 option" where
  "gpt_crc32 disk i n = do {
     bs \<leftarrow> read_bytes disk i n;
     Some (NOT (fold gpt_crc_byte bs 0xffffffff))
   }"

definition gpt_header_crc32 :: "u8 list \<Rightarrow> nat \<Rightarrow> u32 \<Rightarrow> u32 option" where
  "gpt_header_crc32 disk header header_bytes = do {
     bs \<leftarrow> read_bytes disk header (unat header_bytes);
     Some (NOT (fold (\<lambda>i. gpt_crc_byte (if 16 \<le> i \<and> i < 20 then 0 else bs ! i)) [0..<unat header_bytes]
       0xffffffff))
   }"

definition gpt_guid_is_zero :: "u8 list \<Rightarrow> nat \<Rightarrow> bool option" where
  "gpt_guid_is_zero disk guid = do {
     bs \<leftarrow> read_bytes disk guid 16;
     Some (fold (\<lambda>b accumulator. accumulator OR b) bs 0 = 0)
   }"

definition gpt_ranges_overlap :: "u64 \<Rightarrow> u64 \<Rightarrow> u64 \<Rightarrow> u64 \<Rightarrow> bool" where
  "gpt_ranges_overlap first_a last_a first_b last_b = (first_a \<le> last_b \<and> first_b \<le> last_a)"

text \<open>The loop over the entries of the protective MBR, with the number of protective ones so far.\<close>

fun gpt_mbr_entries :: "u8 list \<Rightarrow> nat list \<Rightarrow> nat \<Rightarrow> bool option" where
  "gpt_mbr_entries mbr [] protective_entries = Some (protective_entries = 1)"
| "gpt_mbr_entries mbr (index # rest) protective_entries =
     (let entry = 446 + index * 16
      in do {
        kind \<leftarrow> byte_at mbr (entry + 4);
        if kind = 0xee then do {
          first \<leftarrow> read_le32 mbr (entry + 8);
          sectors \<leftarrow> read_le32 mbr (entry + 12);
          if first \<noteq> 1 \<or> sectors = 0 then Some False
          else gpt_mbr_entries mbr rest (protective_entries + 1)
        }
        else if kind \<noteq> 0 then Some False
        else gpt_mbr_entries mbr rest protective_entries
      })"

definition gpt_validate_protective_mbr :: "u8 list \<Rightarrow> bool option" where
  "gpt_validate_protective_mbr mbr = do {
     signature \<leftarrow> read_le16 mbr 510;
     if signature \<noteq> 0xaa55 then Some False else gpt_mbr_entries mbr [0, 1, 2, 3] 0
   }"

definition gpt_copy_partition :: "u8 list \<Rightarrow> nat \<Rightarrow> u32 \<Rightarrow> RibonGptPartition option" where
  "gpt_copy_partition disk entry index = do {
     kind \<leftarrow> read_bytes disk entry 16;
     unique \<leftarrow> read_bytes disk (entry + 16) 16;
     first \<leftarrow> read_le64 disk (entry + 32);
     last \<leftarrow> read_le64 disk (entry + 40);
     attrs \<leftarrow> read_le64 disk (entry + 48);
     Some \<lparr>type_guid = kind, unique_guid = unique, first_lba = first, last_lba = last,
       attributes = attrs, entry_index = index\<rparr>
   }"

section \<open>The primary header\<close>

record gpt_header =
  header_first_usable :: u64
  header_last_usable :: u64
  header_entry_lba :: u64
  header_entry_count :: u32
  header_entry_bytes :: u32
  header_entries_crc :: u32

text \<open>The characters \<open>EFI PART\<close>.\<close>

definition gpt_signature :: "u8 list" where
  "gpt_signature = [0x45, 0x46, 0x49, 0x20, 0x50, 0x41, 0x52, 0x54]"

definition gpt_read_header :: "u8 list \<Rightarrow> u32 \<Rightarrow> u64 \<Rightarrow> (RibonGptStatus + gpt_header) option" where
  "gpt_read_header disk block_bytes last_block =
     (let header = unat block_bytes
      in do {
        signature \<leftarrow> read_bytes disk header 8;
        revision \<leftarrow> read_le32 disk (header + 8);
        if signature \<noteq> gpt_signature \<or> revision \<noteq> 0x00010000 then Some (Inl GPT_BAD_HEADER)
        else do {
          header_bytes \<leftarrow> read_le32 disk (header + 12);
          if header_bytes < 92 \<or> block_bytes < header_bytes then Some (Inl GPT_BAD_HEADER)
          else do {
            computed \<leftarrow> gpt_header_crc32 disk header header_bytes;
            stored \<leftarrow> read_le32 disk (header + 16);
            if computed \<noteq> stored then Some (Inl GPT_BAD_HEADER_CRC)
            else do {
              my_lba \<leftarrow> read_le64 disk (header + 24);
              if my_lba \<noteq> 1 then Some (Inl GPT_BAD_HEADER)
              else do {
                backup_lba \<leftarrow> read_le64 disk (header + 32);
                first_usable \<leftarrow> read_le64 disk (header + 40);
                last_usable \<leftarrow> read_le64 disk (header + 48);
                entry_lba \<leftarrow> read_le64 disk (header + 72);
                entry_count \<leftarrow> read_le32 disk (header + 80);
                entry_bytes \<leftarrow> read_le32 disk (header + 84);
                if backup_lba = 0 \<or> last_block < backup_lba \<or> last_usable < first_usable \<or>
                   last_block < last_usable \<or> entry_lba < 2 \<or> entry_count = 0 \<or>
                   128 < entry_count \<or> entry_bytes < 128 \<or> 4096 < entry_bytes \<or>
                   entry_bytes mod 8 \<noteq> 0 \<or> UINT64_MAX div ucast entry_bytes < ucast entry_count
                then Some (Inl GPT_BAD_HEADER)
                else do {
                  entries_crc \<leftarrow> read_le32 disk (header + 88);
                  Some (Inr \<lparr>header_first_usable = first_usable, header_last_usable = last_usable,
                    header_entry_lba = entry_lba, header_entry_count = entry_count,
                    header_entry_bytes = entry_bytes, header_entries_crc = entries_crc\<rparr>)
                }
              }
            }
          }
        }
      })"

text \<open>The byte range of the entry array and its checksum.\<close>

definition gpt_entries_offset :: "u8 list \<Rightarrow> u64 \<Rightarrow> u32 \<Rightarrow> gpt_header \<Rightarrow> (RibonGptStatus + u64) option" where
  "gpt_entries_offset disk byte_count block_bytes h =
     (let entries_bytes = ucast (header_entry_count h) * ucast (header_entry_bytes h) :: u64
      in if UINT64_MAX div ucast block_bytes < header_entry_lba h then Some (Inl GPT_OVERFLOW)
         else
           let entries_offset = header_entry_lba h * ucast block_bytes
           in if byte_count < entries_offset \<or> byte_count - entries_offset < entries_bytes
              then Some (Inl GPT_TRUNCATED)
              else do {
                crc \<leftarrow> gpt_crc32 disk (unat entries_offset) (unat entries_bytes);
                if crc \<noteq> header_entries_crc h then Some (Inl GPT_BAD_ENTRIES_CRC)
                else Some (Inr entries_offset)
              })"

section \<open>The entries\<close>

definition gpt_add_partition ::
  "RibonGptPartition \<Rightarrow> gpt_header \<Rightarrow> RibonGptTable \<Rightarrow> (RibonGptStatus \<times> RibonGptTable + RibonGptTable) option"
where
  "gpt_add_partition candidate h t =
     (if last_lba candidate < first_lba candidate \<or> first_lba candidate < header_first_usable h \<or>
         header_last_usable h < last_lba candidate
      then Some (Inl (GPT_OUT_OF_RANGE, t\<lparr>partition_count := 0\<rparr>))
      else do {
        ps \<leftarrow> partitions t;
        if length ps < unat (partition_count t) then None
        else if list_ex (\<lambda>p. gpt_ranges_overlap (first_lba candidate) (last_lba candidate)
                      (first_lba p) (last_lba p)) (take (unat (partition_count t)) ps)
        then Some (Inl (GPT_OVERLAP, t\<lparr>partition_count := 0\<rparr>))
        else if partition_count t = partition_capacity t
        then Some (Inl (GPT_OUT_OF_CAPACITY, t\<lparr>partition_count := 0\<rparr>))
        else do {
          ps' \<leftarrow> array_put ps (unat (partition_count t)) candidate;
          Some (Inr (t\<lparr>partitions := Some ps', partition_count := partition_count t + 1\<rparr>))
        }
      })"

fun gpt_entry_loop ::
  "u8 list \<Rightarrow> u64 \<Rightarrow> gpt_header \<Rightarrow> nat list \<Rightarrow> RibonGptTable \<Rightarrow> (RibonGptStatus \<times> RibonGptTable) option"
where
  "gpt_entry_loop disk entries h [] t = Some (GPT_OK, t)"
| "gpt_entry_loop disk entries h (index # rest) t =
     (let entry = unat entries + unat (of_nat index * ucast (header_entry_bytes h) :: u64)
      in do {
        empty \<leftarrow> gpt_guid_is_zero disk entry;
        if empty then gpt_entry_loop disk entries h rest t
        else do {
          candidate \<leftarrow> gpt_copy_partition disk entry (of_nat index);
          r \<leftarrow> gpt_add_partition candidate h t;
          (case r of Inl e \<Rightarrow> Some e | Inr t' \<Rightarrow> gpt_entry_loop disk entries h rest t')
        }
      })"

text \<open>The status and the table that the caller's pointer leads to afterwards.\<close>

definition ribon_gpt_parse_bytes ::
  "u8 list option \<Rightarrow> u64 \<Rightarrow> u32 \<Rightarrow> RibonGptTable option \<Rightarrow> (RibonGptStatus \<times> RibonGptTable option) option"
where
  "ribon_gpt_parse_bytes disk_bytes byte_count block_bytes out =
     (let out = map_option (\<lambda>t. t\<lparr>partition_count := 0\<rparr>) out
      in if disk_bytes = None \<or> out = None \<or> partitions (the out) = None \<or>
            partition_capacity (the out) = 0 \<or> block_bytes < 512 \<or> 4096 < block_bytes \<or>
            block_bytes AND (block_bytes - 1) \<noteq> 0 \<or> byte_count < ucast block_bytes * 2 \<or>
            byte_count mod ucast block_bytes \<noteq> 0
         then Some (GPT_BAD_ARGUMENT, out)
         else
           let disk = the disk_bytes; t = the out;
               last_block = byte_count div ucast block_bytes - 1
           in do {
             mbr \<leftarrow> gpt_validate_protective_mbr disk;
             if \<not> mbr then Some (GPT_BAD_PROTECTIVE_MBR, out)
             else do {
               r \<leftarrow> gpt_read_header disk block_bytes last_block;
               (case r of
                  Inl e \<Rightarrow> Some (e, out)
                | Inr h \<Rightarrow> do {
                    o' \<leftarrow> gpt_entries_offset disk byte_count block_bytes h;
                    (case o' of
                       Inl e \<Rightarrow> Some (e, out)
                     | Inr entries \<Rightarrow> do {
                         (status, t') \<leftarrow> gpt_entry_loop disk entries h [0..<unat (header_entry_count h)]
                           (t\<lparr>first_usable_lba := header_first_usable h,
                              last_usable_lba := header_last_usable h, disk_last_lba := last_block\<rparr>);
                         Some (status, Some t')
                       })
                  })
             }
           })"

end
