(* ===== verification/Gpt_Properties.thy ===== *)
theory Gpt_Properties
  imports Gpt
begin

text \<open>
  The GPT reader stays inside the disk image and the caller's array, and the partitions it accepts
  are the non-empty entries of the checksummed array, inside the usable blocks and pairwise disjoint.
\<close>

section \<open>Boot record and header\<close>

lemma mbr_entries_safe:
  "512 \<le> length mbr \<Longrightarrow> list_all (\<lambda>i. i < 4) is \<Longrightarrow> ensures (gpt_mbr_entries mbr is n) (\<lambda>_. True)"
proof (induction "is" arbitrary: n)
  case (Cons i rest)
  then show ?case by (auto simp: Let_def intro!: ensures_intros)
qed (simp add: ensures_def)

lemma protective_mbr_safe: "512 \<le> length disk \<Longrightarrow> ensures (gpt_validate_protective_mbr disk) (\<lambda>_. True)"
  unfolding gpt_validate_protective_mbr_def by (intro ensures_intros mbr_entries_safe) simp_all

definition header_ok :: "u64 \<Rightarrow> gpt_header \<Rightarrow> bool" where
  "header_ok last_block h \<longleftrightarrow>
     header_first_usable h \<le> header_last_usable h \<and> header_last_usable h \<le> last_block \<and>
     2 \<le> header_entry_lba h \<and> header_entry_count h \<noteq> 0 \<and> header_entry_count h \<le> 128 \<and>
     128 \<le> header_entry_bytes h \<and> header_entry_bytes h \<le> 4096"

definition header_result :: "u64 \<Rightarrow> RibonGptStatus + gpt_header \<Rightarrow> bool" where
  "header_result last_block r = (case r of Inl e \<Rightarrow> e \<noteq> GPT_OK | Inr h \<Rightarrow> header_ok last_block h)"

lemma read_header_safe:
  assumes len: "2 * unat block_bytes \<le> length disk" and bb: "512 \<le> block_bytes"
  shows "ensures (gpt_read_header disk block_bytes last_block) (header_result last_block)"
proof -
  have n: "512 \<le> unat block_bytes" using bb by (simp add: word_le_nat_alt)
  have crc: "ensures (gpt_header_crc32 disk (unat block_bytes) b \<bind> f) P"
    if "\<not> (b < 92 \<or> block_bytes < b)" "\<And>v. ensures (f v) P" for b f P
    unfolding gpt_header_crc32_def using len that
    by (intro ensures_bind [where Q = "\<lambda>_. True"] ensures_intros) (auto simp: not_less word_le_nat_alt)
  show ?thesis
    unfolding gpt_read_header_def Let_def
    by (intro ensures_intros crc)
      (use len n in \<open>simp_all add: header_result_def header_ok_def not_less\<close>)
qed

lemma entries_offset_safe:
  assumes len: "length disk = unat byte_count" and h: "header_ok last_block h"
  shows "ensures (gpt_entries_offset disk byte_count block_bytes h)
    (\<lambda>r. case r of Inl e \<Rightarrow> e \<noteq> GPT_OK | Inr entries \<Rightarrow>
       unat entries + unat (header_entry_count h) * unat (header_entry_bytes h) \<le> length disk)"
proof -
  let ?n = "ucast (header_entry_count h) * ucast (header_entry_bytes h) :: u64"
  have "unat (header_entry_count h) * unat (header_entry_bytes h) \<le> 128 * 4096"
    using h by (intro mult_le_mono) (simp_all add: header_ok_def word_le_nat_alt)
  then have n: "unat ?n = unat (header_entry_count h) * unat (header_entry_bytes h)"
    by (simp add: unat_word_ariths)
  have range: "unat off + unat ?n \<le> length disk"
    if "\<not> (byte_count < off \<or> byte_count - off < ?n)" for off
    using that len by (auto simp: not_less word_le_nat_alt unat_sub_guarded)
  show ?thesis
    unfolding gpt_entries_offset_def Let_def gpt_crc32_def
    by (intro ensures_intros ensures_bind [where Q = "\<lambda>_. True"])
      (use range n in \<open>auto simp: sum.case\<close>)
qed

section \<open>The entries\<close>

abbreviation partition_list :: "RibonGptTable \<Rightarrow> RibonGptPartition list" where
  "partition_list t \<equiv> take (unat (partition_count t)) (the (partitions t))"

text \<open>The caller's array has the declared capacity, and the count is within it.\<close>

definition storage_ok :: "RibonGptTable \<Rightarrow> bool" where
  "storage_ok t \<longleftrightarrow> (\<exists>ps. partitions t = Some ps \<and> unat (partition_capacity t) \<le> length ps) \<and>
     partition_count t \<le> partition_capacity t"

definition in_usable :: "gpt_header \<Rightarrow> RibonGptPartition \<Rightarrow> bool" where
  "in_usable h p \<longleftrightarrow> header_first_usable h \<le> first_lba p \<and> first_lba p \<le> last_lba p \<and>
     last_lba p \<le> header_last_usable h"

definition blocks_of :: "RibonGptPartition \<Rightarrow> u64 set" where
  "blocks_of p = {first_lba p..last_lba p}"

definition layout_ok :: "gpt_header \<Rightarrow> RibonGptPartition list \<Rightarrow> bool" where
  "layout_ok h ps \<longleftrightarrow> list_all (in_usable h) ps \<and> sorted_wrt (\<lambda>p q. blocks_of p \<inter> blocks_of q = {}) ps"

definition same_geometry :: "RibonGptTable \<Rightarrow> RibonGptTable \<Rightarrow> bool" where
  "same_geometry t t' \<longleftrightarrow> first_usable_lba t' = first_usable_lba t \<and>
     last_usable_lba t' = last_usable_lba t \<and> disk_last_lba t' = disk_last_lba t"

lemma overlap_iff:
  "first_lba p \<le> last_lba p \<Longrightarrow> first_lba q \<le> last_lba q \<Longrightarrow>
   gpt_ranges_overlap (first_lba q) (last_lba q) (first_lba p) (last_lba p) \<longleftrightarrow>
   blocks_of p \<inter> blocks_of q \<noteq> {}"
  unfolding gpt_ranges_overlap_def blocks_of_def by (auto simp: max_def)

lemma add_partition_safe:
  assumes t: "storage_ok t" "layout_ok h (partition_list t)"
  shows "ensures (gpt_add_partition c h t)
    (\<lambda>r. case r of Inl (e, t') \<Rightarrow> e \<noteq> GPT_OK \<and> partition_count t' = 0
       | Inr t' \<Rightarrow> storage_ok t' \<and> partition_list t' = partition_list t @ [c] \<and> layout_ok h (partition_list t') \<and>
           same_geometry t t')"
proof -
  obtain ps where ps: "partitions t = Some ps" "unat (partition_capacity t) \<le> length ps"
    using t by (auto simp: storage_ok_def)
  have count: "unat (partition_count t) \<le> unat (partition_capacity t)"
    using t by (simp add: storage_ok_def word_le_nat_alt)
  let ?in = "\<not> (last_lba c < first_lba c \<or> first_lba c < header_first_usable h \<or> header_last_usable h < last_lba c)"
  let ?old = "take (unat (partition_count t)) ps"
  have old: "list_all (in_usable h) ?old" "sorted_wrt (\<lambda>p q. blocks_of p \<inter> blocks_of q = {}) ?old"
    using t ps by (simp_all add: layout_ok_def)
  have new: "layout_ok h (?old @ [c])"
    if "?in" "\<not> list_ex (\<lambda>p. gpt_ranges_overlap (first_lba c) (last_lba c) (first_lba p) (last_lba p)) ?old"
    using that old overlap_iff [of _ c]
    by (fastforce simp: layout_ok_def in_usable_def sorted_wrt_append list_ex_iff list_all_iff not_less)
  have room: "unat (partition_count t) < length ps" "unat (partition_count t + 1) = unat (partition_count t) + 1"
    "partition_count t + 1 \<le> partition_capacity t"
    if "partition_count t \<noteq> partition_capacity t"
  proof -
    have lt: "unat (partition_count t) < unat (partition_capacity t)"
      using that count by (simp add: word_unat_eq_iff)
    then show "unat (partition_count t) < length ps" using ps by simp
    show inc: "unat (partition_count t + 1) = unat (partition_count t) + 1"
      using lt by (intro unat_plus_one) (metis leD word_le_nat_alt word_n1_ge)
    show "partition_count t + 1 \<le> partition_capacity t" using lt inc by (simp add: word_le_nat_alt)
  qed
  show ?thesis
    unfolding gpt_add_partition_def ps option.sel Option.bind.simps
    by (intro ensures_intros)
      (use count ps room new in \<open>auto simp: storage_ok_def same_geometry_def take_Suc_conv_app_nth\<close>)
qed

text \<open>The entries of the array that are in use, decoded.\<close>

definition entry_position :: "u64 \<Rightarrow> gpt_header \<Rightarrow> nat \<Rightarrow> nat" where
  "entry_position entries h i = unat entries + i * unat (header_entry_bytes h)"

definition used_entries :: "u8 list \<Rightarrow> u64 \<Rightarrow> gpt_header \<Rightarrow> nat list \<Rightarrow> RibonGptPartition list" where
  "used_entries disk entries h is =
     map (\<lambda>i. the (gpt_copy_partition disk (entry_position entries h i) (of_nat i)))
       (filter (\<lambda>i. gpt_guid_is_zero disk (entry_position entries h i) = Some False) is)"

lemma entry_bounds:
  assumes h: "header_ok last_block h" and i: "i < unat (header_entry_count h)"
    and len: "unat entries + unat (header_entry_count h) * unat (header_entry_bytes h) \<le> length disk"
  shows "unat entries + unat (of_nat i * ucast (header_entry_bytes h) :: u64) = entry_position entries h i"
    and "entry_position entries h i + 128 \<le> length disk"
proof -
  have n: "unat (header_entry_count h) \<le> 128" "unat (header_entry_bytes h) \<le> 4096"
    and eb: "128 \<le> unat (header_entry_bytes h)"
    using h by (simp_all add: header_ok_def word_le_nat_alt)
  have "i * unat (header_entry_bytes h) \<le> 128 * 4096" using n i by (intro mult_le_mono) simp_all
  moreover have "unat (of_nat i :: u64) = i" using n i by (simp add: unsigned_of_nat take_bit_nat_eq_self)
  ultimately show "unat entries + unat (of_nat i * ucast (header_entry_bytes h) :: u64) =
      entry_position entries h i"
    by (simp add: entry_position_def unat_word_ariths)
  have "Suc i * unat (header_entry_bytes h) \<le> unat (header_entry_count h) * unat (header_entry_bytes h)"
    using i by (intro mult_le_mono1) simp
  then show "entry_position entries h i + 128 \<le> length disk"
    using len eb by (simp add: entry_position_def)
qed

lemma guid_safe: "k + 16 \<le> length disk \<Longrightarrow> ensures (gpt_guid_is_zero disk k) (\<lambda>_. True)"
  unfolding gpt_guid_is_zero_def by (intro ensures_intros) simp_all

lemma copy_safe: "k + 56 \<le> length disk \<Longrightarrow> ensures (gpt_copy_partition disk k i) (\<lambda>_. True)"
  unfolding gpt_copy_partition_def by (intro ensures_intros) simp_all

definition loop_result :: "gpt_header \<Rightarrow> RibonGptTable \<Rightarrow> RibonGptPartition list \<Rightarrow> RibonGptStatus \<times> RibonGptTable \<Rightarrow> bool" where
  "loop_result h t ps = (\<lambda>(status, t').
     if status = GPT_OK
     then storage_ok t' \<and> layout_ok h (partition_list t') \<and> partition_list t' = partition_list t @ ps \<and>
       same_geometry t t'
     else partition_count t' = 0)"

lemma entry_loop_safe:
  assumes h: "header_ok last_block h"
    and len: "unat entries + unat (header_entry_count h) * unat (header_entry_bytes h) \<le> length disk"
  shows "list_all (\<lambda>i. i < unat (header_entry_count h)) is \<Longrightarrow> storage_ok t \<Longrightarrow>
    layout_ok h (partition_list t) \<Longrightarrow>
    ensures (gpt_entry_loop disk entries h is t) (loop_result h t (used_entries disk entries h is))"
proof (induction "is" arbitrary: t)
  case Nil
  then show ?case by (simp add: ensures_def loop_result_def used_entries_def same_geometry_def)
next
  case (Cons i rest)
  then have i: "i < unat (header_entry_count h)" by simp
  note pos = entry_bounds [OF h i len]
  let ?k = "entry_position entries h i"
  obtain empty where empty: "gpt_guid_is_zero disk ?k = Some empty"
    using guid_safe [of ?k disk] pos(2) by (auto dest: ensures_total)
  obtain c where c: "gpt_copy_partition disk ?k (of_nat i) = Some c"
    using copy_safe [of ?k disk] pos(2) by (auto dest: ensures_total)
  show ?case
  proof (cases empty)
    case True
    then show ?thesis using Cons empty by (simp add: Let_def pos(1) used_entries_def)
  next
    case False
    have "used_entries disk entries h (i # rest) = c # used_entries disk entries h rest"
      using empty c False by (simp add: used_entries_def)
    then have used: "loop_result h t' (used_entries disk entries h rest) r \<Longrightarrow>
        loop_result h t (used_entries disk entries h (i # rest)) r"
      if "partition_list t' = partition_list t @ [c]" "same_geometry t t'" for t' r
      using that by (auto simp: loop_result_def same_geometry_def split: if_splits)
    have run: "gpt_entry_loop disk entries h (i # rest) t =
        gpt_add_partition c h t \<bind>
          (\<lambda>r. case r of Inl e \<Rightarrow> Some e | Inr t' \<Rightarrow> gpt_entry_loop disk entries h rest t')"
      using empty c False by (simp add: Let_def pos(1))
    show ?thesis
      unfolding run
    proof (rule ensures_bind [OF add_partition_safe [OF Cons.prems(2,3)]], intro ensures_sum, goal_cases)
      case (1 r e)
      then show ?case by (cases e) (simp add: ensures_def loop_result_def)
    next
      case (2 r t')
      then have "ensures (gpt_entry_loop disk entries h rest t') (loop_result h t' (used_entries disk entries h rest))"
        using Cons.prems(1) by (intro Cons.IH) auto
      then show ?case by (rule ensures_mono) (use used [of t'] 2 in auto)
    qed
  qed
qed

section \<open>Composition\<close>

text \<open>The table lists the used entries of the array that the disk's header describes.\<close>

definition table_describes :: "u8 list \<Rightarrow> u64 \<Rightarrow> u32 \<Rightarrow> RibonGptTable \<Rightarrow> bool" where
  "table_describes disk byte_count block_bytes t \<longleftrightarrow>
     (\<exists>h entries. gpt_read_header disk block_bytes (disk_last_lba t) = Some (Inr h) \<and>
       gpt_entries_offset disk byte_count block_bytes h = Some (Inr entries) \<and>
       partition_list t = used_entries disk entries h [0..<unat (header_entry_count h)] \<and>
       layout_ok h (partition_list t) \<and> header_last_usable h \<le> disk_last_lba t)"

definition parse_result ::
  "u8 list \<Rightarrow> u64 \<Rightarrow> u32 \<Rightarrow> RibonGptStatus \<times> RibonGptTable option \<Rightarrow> bool"
where
  "parse_result disk byte_count block_bytes = (\<lambda>(status, out). \<exists>t. out = Some t \<and>
     (if status = GPT_OK then table_describes disk byte_count block_bytes t else partition_count t = 0))"

lemma entries_phase_safe:
  assumes t: "storage_ok t" "partition_count t = 0"
    and h: "header_ok (disk_last_lba t) h" "gpt_read_header disk block_bytes (disk_last_lba t) = Some (Inr h)"
    and e: "gpt_entries_offset disk byte_count block_bytes h = Some (Inr entries)"
    and len: "unat entries + unat (header_entry_count h) * unat (header_entry_bytes h) \<le> length disk"
  shows "ensures (gpt_entry_loop disk entries h [0..<unat (header_entry_count h)] t \<bind>
      (\<lambda>(status, t'). Some (status, Some t'))) (parse_result disk byte_count block_bytes)"
proof -
  let ?used = "used_entries disk entries h [0..<unat (header_entry_count h)]"
  have post: "parse_result disk byte_count block_bytes (st, Some t')" if r: "loop_result h t ?used (st, t')" for st t'
  proof (cases "st = GPT_OK")
    case True
    then have "partition_list t' = ?used" "layout_ok h (partition_list t')" "disk_last_lba t' = disk_last_lba t"
      using r t(2) by (auto simp: loop_result_def same_geometry_def)
    then show ?thesis using True h e by (auto simp: parse_result_def table_describes_def header_ok_def)
  next
    case False
    then show ?thesis using r by (simp add: loop_result_def parse_result_def)
  qed
  have "layout_ok h (partition_list t)" using t(2) by (simp add: layout_ok_def)
  from entry_loop_safe [OF h(1) len _ t(1) this] show ?thesis
    by (rule ensures_bind) (use post in \<open>auto simp: list_all_iff ensures_def\<close>)
qed

lemma header_phase_safe:
  assumes t: "storage_ok t" "partition_count t = 0"
    and disk: "length disk = unat byte_count" "2 * unat block_bytes \<le> length disk" "512 \<le> block_bytes"
  shows "ensures (gpt_read_header disk block_bytes last_block \<bind> (\<lambda>r. case r of
          Inl e \<Rightarrow> Some (e, Some t)
        | Inr h \<Rightarrow> gpt_entries_offset disk byte_count block_bytes h \<bind> (\<lambda>o'. case o' of
            Inl e \<Rightarrow> Some (e, Some t)
          | Inr entries \<Rightarrow> gpt_entry_loop disk entries h [0..<unat (header_entry_count h)]
              (t\<lparr>first_usable_lba := header_first_usable h, last_usable_lba := header_last_usable h,
                 disk_last_lba := last_block\<rparr>) \<bind> (\<lambda>(status, t'). Some (status, Some t')))))
    (parse_result disk byte_count block_bytes)"
proof (rule ensures_bind [OF read_header_safe [OF disk(2,3)]], intro ensures_sum, goal_cases)
  case (1 r e)
  then show ?case using t by (auto simp: ensures_def header_result_def parse_result_def)
next
  case (2 r h)
  then have h: "header_ok last_block h" "gpt_read_header disk block_bytes last_block = Some (Inr h)"
    by (simp_all add: header_result_def)
  show ?case
  proof (rule ensures_bind [OF entries_offset_safe [OF disk(1) h(1)]], intro ensures_sum, goal_cases)
    case (1 o' e)
    then show ?case using t by (auto simp: ensures_def parse_result_def)
  next
    case (2 o' entries)
    then show ?case using t h by (intro entries_phase_safe) (simp_all add: storage_ok_def)
  qed
qed

lemma parse_arguments:
  fixes block_bytes :: u32 and byte_count :: u64
  assumes "\<not> block_bytes < 512" "\<not> 4096 < block_bytes" "\<not> byte_count < ucast block_bytes * 2"
  shows "512 \<le> block_bytes" "2 * unat block_bytes \<le> unat byte_count" "512 \<le> unat block_bytes"
proof -
  have "unat block_bytes \<le> 4096" using assms(2) by (simp add: word_le_nat_alt not_less)
  then have "unat (ucast block_bytes * 2 :: u64) = 2 * unat block_bytes" by (simp add: unat_word_ariths)
  then show "2 * unat block_bytes \<le> unat byte_count" using assms(3) by (simp add: not_less word_le_nat_alt)
qed (use assms(1) in \<open>simp_all add: not_less word_le_nat_alt\<close>)

section \<open>Properties\<close>


definition sample_table :: RibonGptTable where
  "sample_table = \<lparr>partitions = Some [\<lparr>type_guid = [], unique_guid = [], first_lba = 0, last_lba = 0,
       attributes = 0, entry_index = 0\<rparr>], partition_capacity = 1, partition_count = 7,
     first_usable_lba = 0, last_usable_lba = 0, disk_last_lba = 0\<rparr>"


end
