(* ===== verification/Boot_Config.thy ===== *)
theory Boot_Config
  imports Checked_Read
begin

text \<open>
  The boot configuration reader (\<open>src/config/boot_config.c\<close>, \<open>include/Ribon/config/boot_config.h\<close>).
  A character array is the list of all its bytes; the C string in it ends before the first zero byte.
\<close>

section \<open>Entries\<close>

datatype RibonBootConfigStatus =
    CONFIG_OK | CONFIG_BAD_ARGUMENT | CONFIG_TRUNCATED | CONFIG_SYNTAX | CONFIG_UNKNOWN_KEY
  | CONFIG_DUPLICATE_KEY | CONFIG_OUT_OF_CAPACITY | CONFIG_BAD_PATH | CONFIG_INCOMPLETE_ENTRY
  | CONFIG_AMBIGUOUS

abbreviation (input) CONFIG_MAX_ENTRIES :: nat where "CONFIG_MAX_ENTRIES \<equiv> 4"
abbreviation (input) CONFIG_MAX_MODULES :: nat where "CONFIG_MAX_MODULES \<equiv> 8"

abbreviation (input) FIELD_PRIORITY :: u32 where "FIELD_PRIORITY \<equiv> 1"
abbreviation (input) FIELD_PROTOCOL :: u32 where "FIELD_PROTOCOL \<equiv> 2"
abbreviation (input) FIELD_IMAGE :: u32 where "FIELD_IMAGE \<equiv> 4"
abbreviation (input) FIELD_KERNEL :: u32 where "FIELD_KERNEL \<equiv> 8"
abbreviation (input) REQUIRED_FIELDS :: u32 where "REQUIRED_FIELDS \<equiv> 15"

record RibonBootConfigEntry =
  entry_id :: "u8 list"
  entry_protocol :: "u8 list"
  entry_image_format :: "u8 list"
  entry_kernel_path :: "u8 list"
  entry_command_line :: "u8 list"
  entry_init_image_path :: "u8 list"
  entry_module_paths :: "u8 list list"
  entry_has_init_image :: u32
  entry_module_count :: u32
  entry_priority :: u32
  entry_required_fields :: u32

record RibonBootConfiguration =
  config_entries :: "RibonBootConfigEntry list"
  config_entry_count :: u32

definition ascii :: "string \<Rightarrow> u8 list" where
  "ascii s = map of_char s"

definition c_string :: "u8 list \<Rightarrow> u8 list" where
  "c_string chars = takeWhile (\<lambda>b. b \<noteq> 0) chars"

definition config_entry_zero :: RibonBootConfigEntry where
  "config_entry_zero =
     \<lparr>entry_id = replicate 33 0, entry_protocol = replicate 33 0, entry_image_format = replicate 33 0,
      entry_kernel_path = replicate 128 0, entry_command_line = replicate 256 0,
      entry_init_image_path = replicate 128 0,
      entry_module_paths = replicate CONFIG_MAX_MODULES (replicate 128 0),
      entry_has_init_image = 0, entry_module_count = 0, entry_priority = 0, entry_required_fields = 0\<rparr>"

definition configuration_zero :: RibonBootConfiguration where
  "configuration_zero =
     \<lparr>config_entries = replicate CONFIG_MAX_ENTRIES config_entry_zero, config_entry_count = 0\<rparr>"

section \<open>Fields\<close>

definition boot_config_identifier_byte :: "u8 \<Rightarrow> bool" where
  "boot_config_identifier_byte b =
     ((0x61 \<le> b \<and> b \<le> 0x7a) \<or> (0x41 \<le> b \<and> b \<le> 0x5a) \<or> (0x30 \<le> b \<and> b \<le> 0x39) \<or>
      b = 0x2d \<or> b = 0x5f \<or> b = 0x2e)"

text \<open>The loop of \<open>boot_config_copy\<close>: whether it went through, and the destination.\<close>

fun boot_config_copy_loop :: "bool \<Rightarrow> nat \<Rightarrow> u8 list \<Rightarrow> u8 list \<Rightarrow> bool \<times> u8 list" where
  "boot_config_copy_loop identifier_only index [] destination = (True, destination[index := 0])"
| "boot_config_copy_loop identifier_only index (b # rest) destination =
     (if b < 0x20 \<or> 0x7e < b \<or> (identifier_only \<and> \<not> boot_config_identifier_byte b)
      then (False, destination)
      else boot_config_copy_loop identifier_only (Suc index) rest (destination[index := b]))"

definition boot_config_copy :: "u8 list \<Rightarrow> u8 list \<Rightarrow> bool \<Rightarrow> bool \<times> u8 list" where
  "boot_config_copy destination source identifier_only =
     (if destination = [] \<or> source = [] \<or> length destination \<le> length source then (False, destination)
      else boot_config_copy_loop identifier_only 0 source destination)"

text \<open>The check at the end of a path component.\<close>

definition boot_config_component_bad :: "nat \<Rightarrow> nat \<Rightarrow> nat \<Rightarrow> bool" where
  "boot_config_component_bad component_bytes dots components =
     (component_bytes = 0 \<or> dots = component_bytes \<or> (component_bytes = 2 \<and> dots = 2) \<or>
      CONFIG_MAX_MODULES < components + 1)"

fun boot_config_path_loop :: "u8 list \<Rightarrow> nat \<Rightarrow> nat \<Rightarrow> nat \<Rightarrow> bool" where
  "boot_config_path_loop [] component_bytes dots components =
     (\<not> boot_config_component_bad component_bytes dots components)"
| "boot_config_path_loop (b # rest) component_bytes dots components =
     (if b = 0x2f
      then (if boot_config_component_bad component_bytes dots components then False
            else boot_config_path_loop rest 0 0 (components + 1))
      else if b < 0x21 \<or> 0x7e < b \<or> b = 0x5c \<or> 64 \<le> component_bytes + 1 then False
      else boot_config_path_loop rest (component_bytes + 1) (if b = 0x2e then dots + 1 else dots) components)"

definition boot_config_path_is_valid :: "u8 list \<Rightarrow> bool" where
  "boot_config_path_is_valid path =
     (case c_string path of
        [] \<Rightarrow> False
      | b # rest \<Rightarrow> if b \<noteq> 0x2f \<or> rest = [] then False else boot_config_path_loop rest 0 0 0)"

fun boot_config_priority_loop :: "u8 list \<Rightarrow> u64 \<Rightarrow> u64 option" where
  "boot_config_priority_loop [] r = Some r"
| "boot_config_priority_loop (b # rest) r =
     (if b < 0x30 \<or> 0x39 < b then None
      else
        let r' = r * 10 + ucast (b - 0x30)
        in if ucast UINT32_MAX < r' then None else boot_config_priority_loop rest r')"

definition boot_config_parse_priority :: "u8 list \<Rightarrow> u32 option" where
  "boot_config_parse_priority v =
     (if v = [] then None else map_option ucast (boot_config_priority_loop v 0))"

definition boot_config_entry_is_complete :: "RibonBootConfigEntry \<Rightarrow> bool" where
  "boot_config_entry_is_complete e =
     (entry_required_fields e = REQUIRED_FIELDS \<and> c_string (entry_id e) \<noteq> [] \<and>
      c_string (entry_protocol e) \<noteq> [] \<and> c_string (entry_image_format e) \<noteq> [] \<and>
      c_string (entry_kernel_path e) \<noteq> [] \<and> boot_config_path_is_valid (entry_kernel_path e))"

text \<open>
  The last part of \<open>boot_config_apply_key\<close>, for the keys with a destination: \<open>store\<close> writes the array
  that \<open>destination\<close> points to.
\<close>

definition boot_config_apply_field ::
  "RibonBootConfigEntry \<Rightarrow> u32 \<Rightarrow> u8 list \<Rightarrow> (u8 list \<Rightarrow> RibonBootConfigEntry) \<Rightarrow> bool \<Rightarrow> u8 list \<Rightarrow>
   RibonBootConfigStatus \<times> RibonBootConfigEntry"
where
  "boot_config_apply_field e field destination store identifier_only v =
     (if entry_required_fields e AND field \<noteq> 0 then (CONFIG_DUPLICATE_KEY, e)
      else
        case boot_config_copy destination v identifier_only of (copied, destination') \<Rightarrow>
          let e' = store destination'
          in if \<not> copied then (CONFIG_SYNTAX, e')
             else if field = FIELD_KERNEL \<and> \<not> boot_config_path_is_valid destination'
             then (CONFIG_BAD_PATH, e')
             else (CONFIG_OK, e'\<lparr>entry_required_fields := entry_required_fields e OR field\<rparr>))"

definition boot_config_apply_key ::
  "RibonBootConfigEntry \<Rightarrow> u8 list \<Rightarrow> u8 list \<Rightarrow> RibonBootConfigStatus \<times> RibonBootConfigEntry"
where
  "boot_config_apply_key e key v =
     (if key = ascii ''priority'' then
        (if entry_required_fields e AND FIELD_PRIORITY \<noteq> 0 then (CONFIG_DUPLICATE_KEY, e)
         else
           case boot_config_parse_priority v of
             None \<Rightarrow> (CONFIG_DUPLICATE_KEY, e)
           | Some p \<Rightarrow> (CONFIG_OK, e\<lparr>entry_priority := p,
               entry_required_fields := entry_required_fields e OR FIELD_PRIORITY\<rparr>))
      else if key = ascii ''protocol'' then
        boot_config_apply_field e FIELD_PROTOCOL (entry_protocol e) (\<lambda>d. e\<lparr>entry_protocol := d\<rparr>) True v
      else if key = ascii ''image'' then
        boot_config_apply_field e FIELD_IMAGE (entry_image_format e) (\<lambda>d. e\<lparr>entry_image_format := d\<rparr>) True v
      else if key = ascii ''kernel'' then
        boot_config_apply_field e FIELD_KERNEL (entry_kernel_path e) (\<lambda>d. e\<lparr>entry_kernel_path := d\<rparr>) False v
      else if key = ascii ''cmdline'' then
        (if c_string (entry_command_line e) \<noteq> [] then (CONFIG_DUPLICATE_KEY, e)
         else
           case boot_config_copy (entry_command_line e) v False of (copied, d) \<Rightarrow>
             (if copied then CONFIG_OK else CONFIG_DUPLICATE_KEY, e\<lparr>entry_command_line := d\<rparr>))
      else if key = ascii ''init_image'' then
        (if entry_has_init_image e \<noteq> 0 then (CONFIG_DUPLICATE_KEY, e)
         else if unat (entry_module_count e) = CONFIG_MAX_MODULES then (CONFIG_BAD_PATH, e)
         else
           case boot_config_copy (entry_init_image_path e) v False of (copied, d) \<Rightarrow>
             let e' = e\<lparr>entry_init_image_path := d\<rparr>
             in if \<not> copied \<or> \<not> boot_config_path_is_valid d then (CONFIG_BAD_PATH, e')
                else (CONFIG_OK, e'\<lparr>entry_has_init_image := 1\<rparr>))
      else if key = ascii ''module'' then
        (if unat (entry_module_count e + entry_has_init_image e) = CONFIG_MAX_MODULES
         then (CONFIG_OUT_OF_CAPACITY, e)
         else
           let i = unat (entry_module_count e)
           in case boot_config_copy (entry_module_paths e ! i) v False of (copied, d) \<Rightarrow>
             let e' = e\<lparr>entry_module_paths := (entry_module_paths e)[i := d]\<rparr>
             in if \<not> copied \<or> \<not> boot_config_path_is_valid d then (CONFIG_BAD_PATH, e')
                else (CONFIG_OK, e'\<lparr>entry_module_count := entry_module_count e + 1\<rparr>))
      else (CONFIG_UNKNOWN_KEY, e))"

section \<open>Lines\<close>

text \<open>The index of the first \<open>=\<close>, if there is a key before it and a value behind it.\<close>

definition boot_config_find_equals :: "u8 list \<Rightarrow> nat option" where
  "boot_config_find_equals line =
     (let equals = length (takeWhile (\<lambda>b. b \<noteq> 0x3d) line)
      in if equals = length line \<or> equals = 0 \<or> length line \<le> equals + 1 then None else Some equals)"

text \<open>The input between line feeds, with what follows the last one.\<close>

fun boot_config_lines :: "u8 list \<Rightarrow> u8 list list" where
  "boot_config_lines [] = [[]]"
| "boot_config_lines (b # rest) =
     (if b = 0x0a then [] # boot_config_lines rest
      else case boot_config_lines rest of
          [] \<Rightarrow> [[b]]
        | line # lines \<Rightarrow> (b # line) # lines)"

definition boot_config_trim :: "u8 list \<Rightarrow> u8 list" where
  "boot_config_trim line = (if line \<noteq> [] \<and> last line = 0x0d then butlast line else line)"

record config_state =
  state_out :: RibonBootConfiguration
  state_active :: "nat option"
  state_version_seen :: bool

definition boot_config_open_entry ::
  "u8 list \<Rightarrow> config_state \<Rightarrow> RibonBootConfigStatus \<times> RibonBootConfiguration + config_state"
where
  "boot_config_open_entry ident s =
     (let out = state_out s; n = unat (config_entry_count out)
      in if state_active s \<noteq> None \<or> n = CONFIG_MAX_ENTRIES then Inl (CONFIG_OUT_OF_CAPACITY, out)
         else
           let e = config_entries out ! n
           in case boot_config_copy (entry_id e) ident True of (copied, d) \<Rightarrow>
             let out' = out\<lparr>config_entries := (config_entries out)[n := e\<lparr>entry_id := d\<rparr>]\<rparr>
             in if \<not> copied then Inl (CONFIG_OUT_OF_CAPACITY, out')
                else if list_ex (\<lambda>previous. c_string (entry_id (config_entries out' ! previous)) = c_string d) [0..<n]
                then Inl (CONFIG_DUPLICATE_KEY, out')
                else Inr (s\<lparr>state_out := out', state_active := Some n\<rparr>))"

definition boot_config_close_entry ::
  "config_state \<Rightarrow> RibonBootConfigStatus \<times> RibonBootConfiguration + config_state"
where
  "boot_config_close_entry s =
     (let out = state_out s
      in case state_active s of
           None \<Rightarrow> Inl (CONFIG_INCOMPLETE_ENTRY, out)
         | Some i \<Rightarrow>
             if \<not> boot_config_entry_is_complete (config_entries out ! i) then Inl (CONFIG_INCOMPLETE_ENTRY, out)
             else Inr (s\<lparr>state_out := out\<lparr>config_entry_count := config_entry_count out + 1\<rparr>, state_active := None\<rparr>))"

definition boot_config_key_line ::
  "u8 list \<Rightarrow> config_state \<Rightarrow> RibonBootConfigStatus \<times> RibonBootConfiguration + config_state"
where
  "boot_config_key_line line s =
     (let out = state_out s
      in case boot_config_find_equals line of
           None \<Rightarrow> Inl (CONFIG_SYNTAX, out)
         | Some equals \<Rightarrow>
             (case state_active s of
                None \<Rightarrow> Inl (CONFIG_SYNTAX, out)
              | Some i \<Rightarrow>
                  (case boot_config_apply_key (config_entries out ! i) (take equals line) (drop (equals + 1) line) of
                     (status, e) \<Rightarrow>
                       let out' = out\<lparr>config_entries := (config_entries out)[i := e]\<rparr>
                       in if status \<noteq> CONFIG_OK then Inl (status, out') else Inr (s\<lparr>state_out := out'\<rparr>))))"

definition boot_config_line ::
  "u8 list \<Rightarrow> config_state \<Rightarrow> RibonBootConfigStatus \<times> RibonBootConfiguration + config_state"
where
  "boot_config_line raw s =
     (let line = boot_config_trim raw
      in if line = [] \<or> hd line = 0x23 then Inr s
         else if list_ex (\<lambda>b. b < 0x20 \<or> 0x7e < b) line then Inl (CONFIG_SYNTAX, state_out s)
         else if \<not> state_version_seen s then
           (if line \<noteq> ascii ''version=1'' then Inl (CONFIG_SYNTAX, state_out s)
            else Inr (s\<lparr>state_version_seen := True\<rparr>))
         else if 6 \<le> length line \<and> take 6 line = ascii ''entry='' then boot_config_open_entry (drop 6 line) s
         else if line = ascii ''end'' then boot_config_close_entry s
         else boot_config_key_line line s)"

definition ribon_boot_configuration_parse ::
  "u8 list option \<Rightarrow> bool \<Rightarrow> RibonBootConfigStatus \<times> RibonBootConfiguration option"
where
  "ribon_boot_configuration_parse input out =
     (if input = None \<or> \<not> out \<or> the input = [] \<or> CONFIG_MAX_ENTRIES * 2048 < length (the input)
      then (CONFIG_BAD_ARGUMENT, if out then Some configuration_zero else None)
      else
        case fold_result boot_config_line (boot_config_lines (the input))
               \<lparr>state_out = configuration_zero, state_active = None, state_version_seen = False\<rparr> of
          Inl (status, c) \<Rightarrow> (status, Some c)
        | Inr s \<Rightarrow>
            (if \<not> state_version_seen s \<or> state_active s \<noteq> None \<or> config_entry_count (state_out s) = 0
             then CONFIG_INCOMPLETE_ENTRY else CONFIG_OK, Some (state_out s)))"

section \<open>Selection\<close>

definition boot_config_select_step ::
  "RibonBootConfigEntry \<Rightarrow> RibonBootConfigEntry option \<Rightarrow> RibonBootConfigStatus + RibonBootConfigEntry option"
where
  "boot_config_select_step candidate selected =
     (if \<not> boot_config_entry_is_complete candidate then Inl CONFIG_INCOMPLETE_ENTRY
      else
        case selected of
          None \<Rightarrow> Inr (Some candidate)
        | Some s \<Rightarrow>
            if entry_priority s < entry_priority candidate then Inr (Some candidate)
            else if entry_priority candidate = entry_priority s then Inl CONFIG_AMBIGUOUS
            else Inr selected)"

definition ribon_boot_configuration_select ::
  "RibonBootConfiguration option \<Rightarrow> RibonBootConfigStatus \<times> RibonBootConfigEntry option"
where
  "ribon_boot_configuration_select configuration =
     (case configuration of
        None \<Rightarrow> (CONFIG_BAD_ARGUMENT, None)
      | Some c \<Rightarrow>
          if config_entry_count c = 0 \<or> CONFIG_MAX_ENTRIES < unat (config_entry_count c)
          then (CONFIG_BAD_ARGUMENT, None)
          else
            case fold_result boot_config_select_step (take (unat (config_entry_count c)) (config_entries c)) None of
              Inl e \<Rightarrow> (e, None)
            | Inr selected \<Rightarrow> (CONFIG_OK, selected))"

definition ribon_boot_config_status_name :: "RibonBootConfigStatus \<Rightarrow> string" where
  "ribon_boot_config_status_name status =
     (case status of
        CONFIG_OK \<Rightarrow> ''ok''
      | CONFIG_BAD_ARGUMENT \<Rightarrow> ''bad-argument''
      | CONFIG_TRUNCATED \<Rightarrow> ''truncated''
      | CONFIG_SYNTAX \<Rightarrow> ''syntax''
      | CONFIG_UNKNOWN_KEY \<Rightarrow> ''unknown-key''
      | CONFIG_DUPLICATE_KEY \<Rightarrow> ''duplicate-key''
      | CONFIG_OUT_OF_CAPACITY \<Rightarrow> ''out-of-capacity''
      | CONFIG_BAD_PATH \<Rightarrow> ''bad-path''
      | CONFIG_INCOMPLETE_ENTRY \<Rightarrow> ''incomplete-entry''
      | CONFIG_AMBIGUOUS \<Rightarrow> ''ambiguous'')"

end
