(* ===== verification/Boot_Config_Properties.thy ===== *)
theory Boot_Config_Properties
  imports Boot_Config
begin

text \<open>
  What the boot configuration reader accepts: paths without empty or dotted components, priorities
  in range, and configurations of complete entries with distinct identifiers; and which entry it
  selects.
\<close>

section \<open>Paths\<close>

definition component_ok :: "u8 list \<Rightarrow> bool" where
  "component_ok c \<longleftrightarrow> c \<noteq> [] \<and> length c < 64 \<and> \<not> (\<forall>b\<in>set c. b = 0x2e) \<and>
     (\<forall>b\<in>set c. 0x21 \<le> b \<and> b \<le> 0x7e \<and> b \<noteq> 0x5c \<and> b \<noteq> 0x2f)"

definition path_bytes :: "u8 list list \<Rightarrow> u8 list" where
  "path_bytes cs = concat (map (\<lambda>c. 0x2f # c) cs)"

text \<open>The loop inside a component, of which \<open>pre\<close> has been read.\<close>

definition component_prefix :: "u8 list \<Rightarrow> bool" where
  "component_prefix pre \<longleftrightarrow> length pre < 64 \<and>
     (\<forall>b\<in>set pre. 0x21 \<le> b \<and> b \<le> 0x7e \<and> b \<noteq> 0x5c \<and> b \<noteq> 0x2f)"

abbreviation dots_of :: "u8 list \<Rightarrow> nat" where
  "dots_of pre \<equiv> length (filter (\<lambda>b. b = 0x2e) pre)"

lemma component_bad_iff:
  assumes "component_prefix pre"
  shows "\<not> boot_config_component_bad (length pre) (dots_of pre) n \<longleftrightarrow> component_ok pre \<and> n < 8"
proof -
  have "dots_of pre = length pre \<longleftrightarrow> (\<forall>b\<in>set pre. b = 0x2e)"
  proof (cases "\<forall>b\<in>set pre. b = 0x2e")
    case False
    then obtain b where "b \<in> set pre" "b \<noteq> 0x2e" by blast
    then show ?thesis using False length_filter_less [of b pre "\<lambda>b. b = 0x2e"] by simp
  qed simp
  then have "\<not> boot_config_component_bad (length pre) (dots_of pre) n \<longleftrightarrow>
      pre \<noteq> [] \<and> \<not> (\<forall>b\<in>set pre. b = 0x2e) \<and> n < 8"
    unfolding boot_config_component_bad_def by auto
  then show ?thesis using assms by (auto simp: component_ok_def component_prefix_def)
qed

lemma path_bytes_simps [simp]: "path_bytes [] = []" "path_bytes (c # cs) = 0x2f # c @ path_bytes cs"
  by (simp_all add: path_bytes_def)

lemma component_slash: "component_ok c \<Longrightarrow> 0x2f \<notin> set c"
  by (auto simp: component_ok_def)

lemma takeWhile_skip: "x \<notin> set pre \<Longrightarrow> takeWhile (\<lambda>b. b \<noteq> x) (pre @ r) = pre @ takeWhile (\<lambda>b. b \<noteq> x) r"
  by (induction pre) auto

lemma first_component: "0x2f \<notin> set c \<Longrightarrow> takeWhile (\<lambda>b. b \<noteq> 0x2f) (c @ path_bytes cs) = c"
  using takeWhile_skip [of "0x2f" c] by (cases cs) auto

lemma component_split:
  assumes "0x2f \<notin> set pre" "0x2f \<notin> set c"
  shows "pre @ 0x2f # bs = c @ path_bytes cs \<longleftrightarrow> c = pre \<and> (\<exists>c' cs'. cs = c' # cs' \<and> bs = c' @ path_bytes cs')"
proof
  assume eq: "pre @ 0x2f # bs = c @ path_bytes cs"
  have "takeWhile (\<lambda>b. b \<noteq> 0x2f) (pre @ 0x2f # bs) = pre"
    using assms(1) by (simp add: takeWhile_skip)
  then have "c = pre" using first_component [OF assms(2), of cs] eq by simp
  then show "c = pre \<and> (\<exists>c' cs'. cs = c' # cs' \<and> bs = c' @ path_bytes cs')"
    using eq by (cases cs) simp_all
qed auto

lemma path_loop_iff:
  assumes "component_prefix pre"
  shows "boot_config_path_loop bs (length pre) (dots_of pre) n \<longleftrightarrow>
    (\<exists>c cs. pre @ bs = c @ path_bytes cs \<and> list_all component_ok (c # cs) \<and> n + length cs < 8)"
  using assms
proof (induction bs arbitrary: pre n)
  case Nil
  have "0x2f \<notin> set pre" using Nil by (auto simp: component_prefix_def)
  then have "pre = c @ path_bytes cs \<longleftrightarrow> c = pre \<and> cs = []" for c cs
    by (cases cs) auto
  then show ?case using component_bad_iff [OF Nil] by auto
next
  case (Cons b bs)
  have pre: "0x2f \<notin> set pre" using Cons.prems by (auto simp: component_prefix_def)
  show ?case
  proof (cases "b = 0x2f")
    case True
    have "boot_config_path_loop bs 0 0 (n + 1) \<longleftrightarrow>
      (\<exists>c cs. bs = c @ path_bytes cs \<and> list_all component_ok (c # cs) \<and> n + 1 + length cs < 8)"
      using Cons.IH [of "[]" "n + 1"] by (simp add: component_prefix_def)
    then have "boot_config_path_loop (b # bs) (length pre) (dots_of pre) n \<longleftrightarrow> component_ok pre \<and> n < 8 \<and>
      (\<exists>c cs. bs = c @ path_bytes cs \<and> list_all component_ok (c # cs) \<and> n + 1 + length cs < 8)"
      using True component_bad_iff [OF Cons.prems, of n] by auto
    also have "\<dots> \<longleftrightarrow> (\<exists>c cs. pre @ b # bs = c @ path_bytes cs \<and> list_all component_ok (c # cs) \<and> n + length cs < 8)"
      (is "?L \<longleftrightarrow> ?R")
    proof
      assume ?L
      then obtain c cs where "component_ok pre" "bs = c @ path_bytes cs" "list_all component_ok (c # cs)"
        "n + 1 + length cs < 8" by blast
      then show ?R unfolding True by (intro exI [of _ pre] exI [of _ "c # cs"]) simp
    next
      assume ?R
      then obtain c cs where R: "pre @ 0x2f # bs = c @ path_bytes cs" "component_ok c" "list_all component_ok cs"
        "n + length cs < 8" unfolding True by auto
      then obtain c' cs' where "c = pre" "cs = c' # cs'" "bs = c' @ path_bytes cs'"
        using component_split [OF pre component_slash] by blast
      then show ?L using R by (intro conjI exI [of _ c'] exI [of _ cs']) simp_all
    qed
    finally show ?thesis .
  next
    case False
    show ?thesis
    proof (cases "b < 0x21 \<or> 0x7e < b \<or> b = 0x5c \<or> 64 \<le> length pre + 1")
      case True
      have "\<not> component_ok c" if eq: "pre @ b # bs = c @ path_bytes cs" for c cs
      proof
        assume c: "component_ok c"
        have "takeWhile (\<lambda>b. b \<noteq> 0x2f) (pre @ b # bs) = pre @ b # takeWhile (\<lambda>b. b \<noteq> 0x2f) bs"
          using pre False by (simp add: takeWhile_skip)
        then have "c = pre @ b # takeWhile (\<lambda>b. b \<noteq> 0x2f) bs"
          using first_component [OF component_slash [OF c], of cs] eq by simp
        then have "b \<in> set c" "length pre + 1 \<le> length c" by simp_all
        then have "0x21 \<le> b" "b \<le> 0x7e" "b \<noteq> 0x5c" "length pre + 1 < 64"
          using c unfolding component_ok_def by (blast, blast, blast, linarith)
        then show False using True leD by (metis (no_types))
      qed
      then have "\<not> (\<exists>c cs. pre @ b # bs = c @ path_bytes cs \<and> list_all component_ok (c # cs) \<and> n + length cs < 8)"
        unfolding list.pred_inject by blast
      moreover have "\<not> boot_config_path_loop (b # bs) (length pre) (dots_of pre) n"
        unfolding boot_config_path_loop.simps if_not_P [OF False] if_P [OF True] by simp
      ultimately show ?thesis by blast
    next
      case ok: False
      then have "component_prefix (pre @ [b])"
        using Cons.prems False unfolding component_prefix_def not_less de_Morgan_disj by simp
      moreover have "boot_config_path_loop (b # bs) (length pre) (dots_of pre) n =
          boot_config_path_loop bs (length (pre @ [b])) (dots_of (pre @ [b])) n"
        unfolding boot_config_path_loop.simps if_not_P [OF False] if_not_P [OF ok] by simp
      ultimately show ?thesis using Cons.IH [of "pre @ [b]" n] by simp
    qed
  qed
qed

lemma path_valid_iff:
  "boot_config_path_is_valid path \<longleftrightarrow>
     (\<exists>cs. c_string path = path_bytes cs \<and> cs \<noteq> [] \<and> length cs \<le> 8 \<and> list_all component_ok cs)"
proof (cases "c_string path")
  case (Cons b rest)
  have "boot_config_path_loop rest 0 0 0 \<longleftrightarrow>
      (\<exists>c cs. rest = c @ path_bytes cs \<and> list_all component_ok (c # cs) \<and> length cs < 8)"
    using path_loop_iff [of "[]" rest 0] by (simp add: component_prefix_def)
  moreover have "\<not> boot_config_path_loop [] 0 0 0" by (simp add: boot_config_component_bad_def)
  ultimately have "boot_config_path_is_valid path \<longleftrightarrow> b = 0x2f \<and>
      (\<exists>c cs. rest = c @ path_bytes cs \<and> list_all component_ok (c # cs) \<and> length cs < 8)"
    using Cons by (auto simp: boot_config_path_is_valid_def)
  also have "\<dots> \<longleftrightarrow> (\<exists>cs. c_string path = path_bytes cs \<and> cs \<noteq> [] \<and> length cs \<le> 8 \<and> list_all component_ok cs)"
  proof (intro iffI)
    assume "b = 0x2f \<and> (\<exists>c cs. rest = c @ path_bytes cs \<and> list_all component_ok (c # cs) \<and> length cs < 8)"
    then obtain c cs where "b = 0x2f" "rest = c @ path_bytes cs" "list_all component_ok (c # cs)" "length cs < 8"
      by blast
    then show "\<exists>cs. c_string path = path_bytes cs \<and> cs \<noteq> [] \<and> length cs \<le> 8 \<and> list_all component_ok cs"
      unfolding Cons by (intro exI [of _ "c # cs"]) simp
  next
    assume "\<exists>cs. c_string path = path_bytes cs \<and> cs \<noteq> [] \<and> length cs \<le> 8 \<and> list_all component_ok cs"
    then obtain cs where cs: "c_string path = path_bytes cs" "cs \<noteq> []" "length cs \<le> 8" "list_all component_ok cs"
      by blast
    then obtain c cs' where "cs = c # cs'" by (cases cs) auto
    then show "b = 0x2f \<and> (\<exists>c cs. rest = c @ path_bytes cs \<and> list_all component_ok (c # cs) \<and> length cs < 8)"
      using cs Cons by (intro conjI exI [of _ c] exI [of _ cs']) auto
  qed
  finally show ?thesis .
qed (auto simp: boot_config_path_is_valid_def neq_Nil_conv)

section \<open>Priorities\<close>

definition digit :: "u8 \<Rightarrow> bool" where
  "digit b \<longleftrightarrow> 0x30 \<le> b \<and> b \<le> 0x39"

definition decimal :: "u8 list \<Rightarrow> nat" where
  "decimal v = foldl (\<lambda>n b. 10 * n + unat (b - 0x30)) 0 v"

lemma decimal_grows: "n \<le> foldl (\<lambda>n b. 10 * n + unat (b - 0x30 :: u8)) n v"
  by (induction v arbitrary: n) (simp, metis (no_types, lifting) foldl_Cons add.commute le_add2 le_trans
      mult_le_mono1 nat_mult_1 one_le_numeral trans_le_add2)

lemma priority_step:
  assumes "unat r \<le> unat UINT32_MAX" "digit b"
  shows "unat (r * 10 + ucast (b - 0x30) :: u64) = 10 * unat r + unat (b - 0x30)"
proof -
  have "unat b \<le> 57" using assms(2) by (simp add: digit_def word_le_nat_alt)
  moreover have "unat (b - 0x30) = unat b - 48" using assms(2) by (simp add: digit_def unat_sub)
  moreover have "unat r \<le> 4294967295" using assms(1) by (simp add: unat_minus_one_eq)
  moreover have "unat (ucast (b - 0x30) :: u64) = unat (b - 0x30)"
    using unat_bound [of "b - 0x30"] by (simp add: unsigned_ucast_eq take_bit_nat_eq_self)
  ultimately show ?thesis by (simp add: unat_word_ariths)
qed

lemma priority_loop_iff:
  assumes "unat r \<le> unat UINT32_MAX"
  shows "boot_config_priority_loop v r = Some r' \<longleftrightarrow> list_all digit v \<and>
    unat r' = foldl (\<lambda>n b. 10 * n + unat (b - 0x30)) (unat r) v \<and> unat r' \<le> unat UINT32_MAX"
  using assms
proof (induction v arbitrary: r)
  case Nil
  then show ?case by (auto simp: word_unat_eq_iff)
next
  case (Cons b v)
  let ?r = "r * 10 + ucast (b - 0x30) :: u64"
  show ?case
  proof (cases "digit b")
    case False
    then show ?thesis by (auto simp: digit_def not_le)
  next
    case True
    then have b: "\<not> (b < 0x30 \<or> 0x39 < b)" by (simp add: digit_def not_less)
    note step = priority_step [OF Cons.prems True]
    have max: "ucast UINT32_MAX < ?r \<longleftrightarrow> \<not> unat ?r \<le> unat UINT32_MAX"
      by (simp add: word_less_nat_alt not_le)
    show ?thesis
    proof (cases "unat ?r \<le> unat UINT32_MAX")
      case True
      have "boot_config_priority_loop (b # v) r = boot_config_priority_loop v ?r"
        unfolding boot_config_priority_loop.simps if_not_P [OF b] Let_def using max True by simp
      then show ?thesis using Cons.IH [OF True] \<open>digit b\<close> step by simp
    next
      case False
      have "boot_config_priority_loop (b # v) r = None"
        unfolding boot_config_priority_loop.simps if_not_P [OF b] Let_def using max False by simp
      moreover have "\<not> foldl (\<lambda>n b. 10 * n + unat (b - 0x30)) (unat r) (b # v) \<le> unat UINT32_MAX"
        using decimal_grows [of "unat ?r" v] False step by simp
      ultimately show ?thesis by auto
    qed
  qed
qed

lemma parse_priority_iff:
  "boot_config_parse_priority v = Some p \<longleftrightarrow>
     v \<noteq> [] \<and> list_all digit v \<and> decimal v < 2 ^ 32 \<and> unat p = decimal v"
proof -
  have iff: "boot_config_priority_loop v 0 = Some r \<longleftrightarrow>
      list_all digit v \<and> unat r = decimal v \<and> unat r \<le> 4294967295" for r
    using priority_loop_iff [of 0 v r] by (simp add: decimal_def unat_minus_one_eq)
  have cast: "unat (ucast r :: u32) = unat r" if "unat r \<le> 4294967295" for r :: u64
    using that by (simp add: unsigned_ucast_eq take_bit_nat_eq_self)
  show ?thesis
  proof
    assume "boot_config_parse_priority v = Some p"
    then obtain r where "v \<noteq> []" "boot_config_priority_loop v 0 = Some r" "p = ucast r"
      by (auto simp: boot_config_parse_priority_def split: if_splits)
    then show "v \<noteq> [] \<and> list_all digit v \<and> decimal v < 2 ^ 32 \<and> unat p = decimal v"
      using iff cast by auto
  next
    assume p: "v \<noteq> [] \<and> list_all digit v \<and> decimal v < 2 ^ 32 \<and> unat p = decimal v"
    then have "boot_config_priority_loop v 0 = Some (ucast p)" using iff by simp
    moreover have "ucast (ucast p :: u64) = p" using p cast [of "ucast p"] by (simp add: word_unat_eq_iff)
    ultimately show "boot_config_parse_priority v = Some p" using p by (simp add: boot_config_parse_priority_def)
  qed
qed

section \<open>Copies\<close>

definition text_byte :: "bool \<Rightarrow> u8 \<Rightarrow> bool" where
  "text_byte identifier_only b \<longleftrightarrow>
     \<not> (b < 0x20 \<or> 0x7e < b \<or> (identifier_only \<and> \<not> boot_config_identifier_byte b))"

lemma text_byte_nonzero: "text_byte identifier_only b \<Longrightarrow> b \<noteq> 0"
  unfolding text_byte_def by (rule notI) simp

lemma copy_loop_length [simp]: "length (snd (boot_config_copy_loop idn i src dest)) = length dest"
  by (induction idn i src dest rule: boot_config_copy_loop.induct) auto

lemma copy_loop_ok:
  assumes "boot_config_copy_loop idn i src dest = (True, d)" "i + length src < length dest"
  shows "list_all (text_byte idn) src \<and> take (i + length src + 1) d = take i dest @ src @ [0]"
  using assms
proof (induction idn i src dest rule: boot_config_copy_loop.induct)
  case (1 idn i dest)
  then show ?case by (auto simp: take_Suc_conv_app_nth)
next
  case (2 idn i b rest dest)
  have ok: "text_byte idn b" and run: "boot_config_copy_loop idn (Suc i) rest (dest[i := b]) = (True, d)"
    using "2.prems"(1) by (simp_all add: text_byte_def split: if_splits)
  have "list_all (text_byte idn) rest \<and> take (Suc i + length rest + 1) d = take (Suc i) (dest[i := b]) @ rest @ [0]"
    using "2.IH" [OF ok [unfolded text_byte_def] run] "2.prems"(2) by simp
  then show ?case using ok "2.prems"(2) by (simp add: take_Suc_conv_app_nth)
qed

text \<open>A copy that succeeds leaves the source as the string in the array; every copy keeps its size.\<close>

lemma copy_length [simp]: "length (snd (boot_config_copy dest src idn)) = length dest"
  by (simp add: boot_config_copy_def)

lemma copy_ok:
  assumes "boot_config_copy dest src idn = (True, d)"
  shows "c_string d = src" "src \<noteq> []" "list_all (text_byte idn) src" "length d = length dest"
proof -
  have run: "boot_config_copy_loop idn 0 src dest = (True, d)" "length src < length dest" "src \<noteq> []"
    using assms by (auto simp: boot_config_copy_def split: if_splits)
  note c = copy_loop_ok [OF run(1), simplified, OF run(2)]
  show "src \<noteq> []" "list_all (text_byte idn) src" using run c by simp_all
  have "take (Suc (length src)) d = src @ [0]" using c by simp
  then have d: "src @ 0 # drop (Suc (length src)) d = d"
    using append_take_drop_id [of "Suc (length src)" d] by simp
  have "0 \<notin> set src" using c text_byte_nonzero by (auto simp: list_all_iff)
  then show "c_string d = src"
    using takeWhile_skip [of 0 src "0 # drop (Suc (length src)) d"] unfolding d c_string_def by simp
  show "length d = length dest" using copy_length [of dest src idn] assms by simp
qed

section \<open>The reader's invariant\<close>

text \<open>Modules and initial image are within their arrays, and their paths are valid.\<close>

definition entry_shape :: "RibonBootConfigEntry \<Rightarrow> bool" where
  "entry_shape e \<longleftrightarrow>
     length (entry_module_paths e) = CONFIG_MAX_MODULES \<and>
     (entry_has_init_image e = 0 \<or> entry_has_init_image e = 1 \<and> boot_config_path_is_valid (entry_init_image_path e)) \<and>
     unat (entry_module_count e) + unat (entry_has_init_image e) \<le> CONFIG_MAX_MODULES \<and>
     list_all boot_config_path_is_valid (take (unat (entry_module_count e)) (entry_module_paths e))"

abbreviation config_id :: "RibonBootConfigEntry \<Rightarrow> u8 list" where
  "config_id e \<equiv> c_string (entry_id e)"

lemma if_splitE: "(if c then a else b) = r \<Longrightarrow> (c \<Longrightarrow> a = r \<Longrightarrow> P) \<Longrightarrow> (\<not> c \<Longrightarrow> b = r \<Longrightarrow> P) \<Longrightarrow> P"
  by (cases c) simp_all

lemma apply_field_ok:
  assumes "boot_config_apply_field e field dest store idn v = (CONFIG_OK, e')"
    and "\<And>d x. entry_shape ((store d)\<lparr>entry_required_fields := x\<rparr>)" "\<And>d. entry_id (store d) = entry_id e"
  shows "entry_shape e' \<and> entry_id e' = entry_id e"
  using assms by (auto simp: boot_config_apply_field_def Let_def split: if_splits prod.splits)

lemma init_image_ok:
  assumes e: "entry_shape e" and none: "entry_has_init_image e = 0"
    and count: "unat (entry_module_count e) \<noteq> CONFIG_MAX_MODULES" and d: "boot_config_path_is_valid d"
  shows "entry_shape (e\<lparr>entry_init_image_path := d, entry_has_init_image := 1\<rparr>)"
  using assms by (simp add: entry_shape_def)

lemma module_ok:
  assumes e: "entry_shape e" and room: "unat (entry_module_count e + entry_has_init_image e) \<noteq> CONFIG_MAX_MODULES"
    and d: "boot_config_path_is_valid d"
  shows "entry_shape (e\<lparr>entry_module_paths := (entry_module_paths e)[unat (entry_module_count e) := d],
    entry_module_count := entry_module_count e + 1\<rparr>)"
proof -
  let ?n = "unat (entry_module_count e)"
  have sum: "unat (entry_module_count e + entry_has_init_image e) = ?n + unat (entry_has_init_image e)"
    using e by (intro unat_add_no_overflow) (simp add: entry_shape_def)
  then have lt: "?n + unat (entry_has_init_image e) < 8" using e room by (simp add: entry_shape_def)
  then have inc: "unat (entry_module_count e + 1) = ?n + 1"
    by (intro unat_plus_one) (auto simp: unat_minus_one_eq)
  have "list_all boot_config_path_is_valid (take ?n ((entry_module_paths e)[?n := d]) @ [d])"
    using e d by (simp add: entry_shape_def)
  then show ?thesis
    using e lt inc by (simp add: entry_shape_def take_Suc_conv_app_nth)
qed

lemma apply_key_ok:
  assumes run: "boot_config_apply_key e key v = (CONFIG_OK, e')" and e: "entry_shape e"
  shows "entry_shape e' \<and> entry_id e' = entry_id e"
  using run unfolding boot_config_apply_key_def
proof (elim if_splitE, goal_cases)
  case 2
  then show ?case using e by (auto simp: entry_shape_def split: option.splits)
next
  case 3
  show ?case by (rule apply_field_ok [OF 3(3)]) (use e in \<open>simp_all add: entry_shape_def\<close>)
next
  case 4
  show ?case by (rule apply_field_ok [OF 4(4)]) (use e in \<open>simp_all add: entry_shape_def\<close>)
next
  case 5
  show ?case by (rule apply_field_ok [OF 5(5)]) (use e in \<open>simp_all add: entry_shape_def\<close>)
next
  case 7
  then show ?case using e by (auto simp: entry_shape_def split: prod.splits if_splits)
next
  case 10
  then show ?case using init_image_ok [OF e] by (auto simp: Let_def split: prod.splits if_splits)
next
  case 12
  then show ?case using module_ok [OF e] by (auto simp: Let_def split: prod.splits if_splits)
qed simp_all

definition config_inv :: "config_state \<Rightarrow> bool" where
  "config_inv s \<longleftrightarrow>
     (let es = config_entries (state_out s); n = unat (config_entry_count (state_out s))
      in length es = CONFIG_MAX_ENTRIES \<and> n \<le> CONFIG_MAX_ENTRIES \<and> list_all entry_shape es \<and>
         list_all boot_config_entry_is_complete (take n es) \<and>
         (case state_active s of
            None \<Rightarrow> distinct (map config_id (take n es))
          | Some i \<Rightarrow> i = n \<and> n < CONFIG_MAX_ENTRIES \<and> distinct (map config_id (take (Suc n) es))))"

lemma config_inv_update:
  assumes "list_all entry_shape es" "entry_shape e"
  shows "list_all entry_shape (es[i := e])"
  using assms by (auto simp: list_all_iff dest: subsetD [OF set_update_subset_insert])

lemma take_Suc_update:
  "n < length es \<Longrightarrow> take (Suc n) (es[n := e]) = take n es @ [e]"
  by (simp add: take_Suc_conv_app_nth)

lemma open_entry_inv:
  assumes inv: "config_inv s" and run: "boot_config_open_entry ident s = Inr s'"
  shows "config_inv s'"
proof -
  define out where "out = state_out s"
  define n where "n = unat (config_entry_count out)"
  define e where "e = config_entries out ! n"
  obtain copied d where copy: "boot_config_copy (entry_id e) ident True = (copied, d)" by fastforce
  let ?e = "e\<lparr>entry_id := d\<rparr>"
  let ?es = "(config_entries out)[n := ?e]"
  have f: "state_active s = None" "n \<noteq> 4"
    "\<not> list_ex (\<lambda>p. c_string (entry_id (?es ! p)) = c_string d) [0..<n]"
    "s' = s\<lparr>state_out := out\<lparr>config_entries := ?es\<rparr>, state_active := Some n\<rparr>"
    using run by (auto simp: boot_config_open_entry_def Let_def copy
        out_def [symmetric] n_def [symmetric] e_def [symmetric] split: if_splits)
  have I: "length (config_entries out) = 4" "n < 4" "list_all entry_shape (config_entries out)"
    "list_all boot_config_entry_is_complete (take n (config_entries out))"
    "distinct (map config_id (take n (config_entries out)))"
    using inv f by (auto simp: config_inv_def Let_def out_def [symmetric] n_def [symmetric])
  have "entry_shape ?e" using I by (simp add: e_def list_all_length entry_shape_def)
  then have "list_all entry_shape ?es" using I by (intro config_inv_update)
  moreover have "c_string d \<notin> set (map config_id (take n (config_entries out)))"
    using f(3) I(1,2) by (fastforce simp: list_ex_iff in_set_conv_nth)
  ultimately show ?thesis
    using I by (simp add: config_inv_def f(4) n_def [symmetric] take_Suc_update)
qed

lemma close_entry_inv:
  assumes inv: "config_inv s" and run: "boot_config_close_entry s = Inr s'"
  shows "config_inv s'"
proof -
  define out where "out = state_out s"
  define n where "n = unat (config_entry_count out)"
  obtain i where i: "state_active s = Some i" "boot_config_entry_is_complete (config_entries out ! i)"
    and s': "s' = s\<lparr>state_out := out\<lparr>config_entry_count := config_entry_count out + 1\<rparr>, state_active := None\<rparr>"
    using run by (auto simp: boot_config_close_entry_def Let_def out_def split: option.splits if_splits)
  have I: "length (config_entries out) = 4" "n < 4" "i = n" "list_all entry_shape (config_entries out)"
    "list_all boot_config_entry_is_complete (take n (config_entries out))"
    "distinct (map config_id (take (Suc n) (config_entries out)))"
    using inv i by (auto simp: config_inv_def Let_def out_def [symmetric] n_def [symmetric])
  have "unat (config_entry_count out + 1) = Suc n"
    using I(2) by (subst unat_plus_one) (auto simp: n_def unat_minus_one_eq)
  moreover have "list_all boot_config_entry_is_complete (take (Suc n) (config_entries out))"
    using I i by (simp add: take_Suc_conv_app_nth)
  ultimately show ?thesis using I by (simp add: config_inv_def s')
qed

lemma key_line_inv:
  assumes inv: "config_inv s" and run: "boot_config_key_line line s = Inr s'"
  shows "config_inv s'"
proof -
  define out where "out = state_out s"
  define n where "n = unat (config_entry_count out)"
  obtain i k e where i: "state_active s = Some i"
    and key: "boot_config_apply_key (config_entries out ! i) (take k line) (drop (k + 1) line) = (CONFIG_OK, e)"
    and s': "s' = s\<lparr>state_out := out\<lparr>config_entries := (config_entries out)[i := e]\<rparr>\<rparr>"
    using run by (auto simp: boot_config_key_line_def Let_def out_def split: option.splits if_splits prod.splits)
  have I: "length (config_entries out) = 4" "n < 4" "i = n" "list_all entry_shape (config_entries out)"
    "list_all boot_config_entry_is_complete (take n (config_entries out))"
    "distinct (map config_id (take (Suc n) (config_entries out)))"
    using inv i by (auto simp: config_inv_def Let_def out_def [symmetric] n_def [symmetric])
  have e: "entry_shape e" "entry_id e = entry_id (config_entries out ! n)"
    using apply_key_ok [OF key] I by (auto simp: list_all_length)
  then have "list_all entry_shape ((config_entries out)[i := e])" using I by (intro config_inv_update)
  moreover have "distinct (map config_id (take (Suc n) ((config_entries out)[n := e])))"
    using I e by (simp add: take_Suc_conv_app_nth)
  ultimately show ?thesis using I i by (simp add: config_inv_def s' n_def [symmetric])
qed

lemma config_inv_version [simp]: "config_inv (s\<lparr>state_version_seen := v\<rparr>) \<longleftrightarrow> config_inv s"
  by (simp add: config_inv_def)

lemma line_error: "fold_result boot_config_line lines s \<noteq> Inl (CONFIG_OK, c)"
proof
  assume "fold_result boot_config_line lines s = Inl (CONFIG_OK, c)"
  then obtain raw t where "boot_config_line raw t = Inl (CONFIG_OK, c)" using fold_result_error by metis
  then show False
    unfolding boot_config_line_def Let_def boot_config_open_entry_def boot_config_close_entry_def
      boot_config_key_line_def
    by (elim if_splitE) (auto elim!: if_splitE split: prod.splits option.splits if_splits)
qed

lemma line_inv: "config_inv s \<Longrightarrow> boot_config_line raw s = Inr s' \<Longrightarrow> config_inv s'"
  unfolding boot_config_line_def Let_def
  by (elim if_splitE) (auto intro: open_entry_inv close_entry_inv key_line_inv)

lemma zero_inv: "config_inv \<lparr>state_out = configuration_zero, state_active = None, state_version_seen = False\<rparr>"
  by (simp add: config_inv_def configuration_zero_def config_entry_zero_def entry_shape_def list_all_iff)

section \<open>Selection\<close>

text \<open>The entry that is ahead after a list of candidates: the priorities before it are all smaller.\<close>

definition leads :: "RibonBootConfigEntry list \<Rightarrow> RibonBootConfigEntry option \<Rightarrow> bool" where
  "leads es selected \<longleftrightarrow>
     (case selected of
        None \<Rightarrow> es = []
      | Some e \<Rightarrow> \<exists>i<length es. es ! i = e \<and> (\<forall>j<length es. j \<noteq> i \<longrightarrow> entry_priority (es ! j) < entry_priority e))"

lemma leads_step:
  assumes "leads es selected" "boot_config_select_step e selected = Inr selected'"
  shows "leads (es @ [e]) selected'"
proof (cases selected)
  case None
  then show ?thesis using assms by (auto simp: leads_def boot_config_select_step_def split: if_splits)
next
  case (Some s)
  then obtain i where i: "i < length es" "es ! i = s"
    "\<And>j. j < length es \<Longrightarrow> j \<noteq> i \<Longrightarrow> entry_priority (es ! j) < entry_priority s"
    using assms(1) by (auto simp: leads_def)
  have nth: "j < length (es @ [e]) \<Longrightarrow> (es @ [e]) ! j = (if j < length es then es ! j else e)" for j
    by (simp add: nth_append)
  consider (new) "entry_priority s < entry_priority e" "selected' = Some e"
    | (old) "entry_priority e < entry_priority s" "selected' = Some s"
    using assms(2) Some by (auto simp: boot_config_select_step_def split: if_splits)
  then show ?thesis
  proof cases
    case new
    have "entry_priority (es ! j) < entry_priority e" if "j < length es" for j
      using i(2) i(3) [OF that] new(1) less_trans by (cases "j = i") auto
    then show ?thesis
      unfolding leads_def new(2) option.case by (intro exI [of _ "length es"]) (auto simp: nth_append)
  next
    case old
    then show ?thesis
      unfolding leads_def old(2) option.case using i by (intro exI [of _ i]) (auto simp: nth_append)
  qed
qed

lemma select_error: "fold_result boot_config_select_step es selected \<noteq> Inl CONFIG_OK"
proof
  assume "fold_result boot_config_select_step es selected = Inl CONFIG_OK"
  then obtain e t where "boot_config_select_step e t = Inl CONFIG_OK" using fold_result_error by metis
  then show False by (auto simp: boot_config_select_step_def split: if_splits option.splits)
qed

section \<open>Properties\<close>

text \<open>
  C25. A path is accepted exactly if it is one to eight components, each behind a slash, of 1 to 63
  printable bytes other than blank, slash and backslash, and none of them only dots. No accepted path
  has an empty component or leads upwards.
\<close>

theorem boot_config_path_exact:
  "boot_config_path_is_valid path \<longleftrightarrow>
     (\<exists>cs. c_string path = path_bytes cs \<and> cs \<noteq> [] \<and> length cs \<le> CONFIG_MAX_MODULES \<and> list_all component_ok cs)"
  by (rule path_valid_iff)

text \<open>
  C28. A priority is accepted exactly if it is a non-empty string of digits that denotes a number
  below \<open>2 ^ 32\<close>, and the result is that number: the accumulator never wraps.
\<close>

theorem boot_config_priority_exact:
  "boot_config_parse_priority v = Some p \<longleftrightarrow>
     v \<noteq> [] \<and> list_all digit v \<and> decimal v < 2 ^ 32 \<and> unat p = decimal v"
  by (rule parse_priority_iff)

text \<open>
  C26. An accepted configuration has one to four entries with distinct identifiers. Each is complete,
  with a valid kernel path, and its modules and initial image fit their arrays and have valid paths.
\<close>

theorem boot_config_parse_sound:
  assumes "ribon_boot_configuration_parse input out = (CONFIG_OK, Some c)"
  shows "let es = take (unat (config_entry_count c)) (config_entries c)
    in es \<noteq> [] \<and> length es = unat (config_entry_count c) \<and> length es \<le> CONFIG_MAX_ENTRIES \<and>
       distinct (map config_id es) \<and> list_all boot_config_entry_is_complete es \<and> list_all entry_shape es"
proof -
  let ?s0 = "\<lparr>state_out = configuration_zero, state_active = None, state_version_seen = False\<rparr>"
  have "\<exists>s. fold_result boot_config_line (boot_config_lines (the input)) ?s0 = Inr s \<and>
      state_active s = None \<and> config_entry_count (state_out s) \<noteq> 0 \<and> c = state_out s"
  proof (cases "fold_result boot_config_line (boot_config_lines (the input)) ?s0")
    case (Inl r)
    then show ?thesis
      using assms line_error [of "boot_config_lines (the input)" ?s0] unfolding ribon_boot_configuration_parse_def
      by (cases r, elim if_splitE) auto
  next
    case (Inr s)
    then show ?thesis using assms unfolding ribon_boot_configuration_parse_def
      by (elim if_splitE) (auto elim: if_splitE)
  qed
  then obtain s where run: "fold_result boot_config_line (boot_config_lines (the input)) ?s0 = Inr s"
    and s: "state_active s = None" "config_entry_count (state_out s) \<noteq> 0" "c = state_out s" by blast
  have "config_inv s"
    using fold_result_invariant [OF run, where P = "\<lambda>_. config_inv"] zero_inv line_inv by blast
  then show ?thesis
    using s by (auto simp: config_inv_def Let_def unat_eq_0 list_all_iff dest: in_set_takeD)
qed

definition sample_text :: "u8 list" where
  "sample_text = ascii ''version=1'' @ [0x0a] @ ascii ''entry=main'' @ [0x0a] @ ascii ''priority=20'' @ [0x0a] @
     ascii ''protocol=linux'' @ [0x0a] @ ascii ''image=elf64'' @ [0x0a] @ ascii ''kernel=/boot/vmlinuz'' @ [0x0a] @
     ascii ''module=/boot/initrd'' @ [0x0a] @ ascii ''end'' @ [0x0a]"

lemma sample_parse:
  "case ribon_boot_configuration_parse (Some sample_text) True of
     (status, Some c) \<Rightarrow> status = CONFIG_OK \<and> config_entry_count c = 1 \<and>
       c_string (entry_kernel_path (config_entries c ! 0)) = ascii ''/boot/vmlinuz'' \<and>
       entry_priority (config_entries c ! 0) = 20 \<and> entry_module_count (config_entries c ! 0) = 1
   | _ \<Rightarrow> False"
  by code_simp

theorem boot_config_parse_sound_witness:
  "\<exists>c. ribon_boot_configuration_parse (Some sample_text) True = (CONFIG_OK, Some c) \<and>
     c_string (entry_kernel_path (config_entries c ! 0)) = ascii ''/boot/vmlinuz'' \<and>
     distinct (map config_id (take 1 (config_entries c))) \<and>
     list_all boot_config_entry_is_complete (take 1 (config_entries c))"
proof -
  obtain c where c: "ribon_boot_configuration_parse (Some sample_text) True = (CONFIG_OK, Some c)"
    "config_entry_count c = 1" "c_string (entry_kernel_path (config_entries c ! 0)) = ascii ''/boot/vmlinuz''"
    using sample_parse by (auto split: prod.splits option.splits)
  show ?thesis using boot_config_parse_sound [OF c(1)] c by (simp add: Let_def)
qed

definition sample_entry :: "u32 \<Rightarrow> RibonBootConfigEntry" where
  "sample_entry priority = config_entry_zero
     \<lparr>entry_id := ascii ''e'' @ [0], entry_protocol := ascii ''p'' @ [0], entry_image_format := ascii ''i'' @ [0],
      entry_kernel_path := ascii ''/k'' @ [0], entry_priority := priority, entry_required_fields := REQUIRED_FIELDS\<rparr>"

definition sample_configuration :: "u32 list \<Rightarrow> RibonBootConfiguration" where
  "sample_configuration priorities =
     \<lparr>config_entries = map sample_entry priorities, config_entry_count = of_nat (length priorities)\<rparr>"

lemma sample_selections:
  "ribon_boot_configuration_select (Some (sample_configuration [5, 5, 7])) = (CONFIG_AMBIGUOUS, None)"
  "ribon_boot_configuration_select (Some (sample_configuration [7, 5, 5])) = (CONFIG_OK, Some (sample_entry 7))"
proof -
  have "boot_config_entry_is_complete (sample_entry p)" for p
    unfolding boot_config_entry_is_complete_def boot_config_path_is_valid_def sample_entry_def
    by (simp add: c_string_def ascii_def boot_config_component_bad_def)
  moreover have "entry_priority (sample_entry p) = p" for p by (simp add: sample_entry_def)
  ultimately show
    "ribon_boot_configuration_select (Some (sample_configuration [5, 5, 7])) = (CONFIG_AMBIGUOUS, None)"
    "ribon_boot_configuration_select (Some (sample_configuration [7, 5, 5])) = (CONFIG_OK, Some (sample_entry 7))"
    by (simp_all add: ribon_boot_configuration_select_def sample_configuration_def boot_config_select_step_def)
qed

text \<open>
  C27. A selected entry has a higher priority than every other entry of the configuration.
\<close>

theorem boot_config_select_highest:
  assumes "ribon_boot_configuration_select (Some c) = (CONFIG_OK, selected)"
    and "unat (config_entry_count c) \<le> length (config_entries c)"
  shows "\<exists>i<unat (config_entry_count c). selected = Some (config_entries c ! i) \<and>
    (\<forall>j<unat (config_entry_count c). j \<noteq> i \<longrightarrow>
       entry_priority (config_entries c ! j) < entry_priority (config_entries c ! i))"
proof -
  let ?n = "unat (config_entry_count c)"
  let ?es = "take ?n (config_entries c)"
  have n: "?n \<noteq> 0" and run: "fold_result boot_config_select_step ?es None = Inr selected"
    using assms(1) by (auto simp: ribon_boot_configuration_select_def unat_eq_0 select_error
        split: if_splits sum.splits)
  have "leads ?es selected"
    by (rule fold_result_invariant [OF run, where P = leads]) (use leads_step in \<open>auto simp: leads_def\<close>)
  then show ?thesis using n assms(2) by (auto simp: leads_def split: option.splits)
qed

theorem boot_config_select_highest_witness:
  "\<exists>i<3. Some (sample_entry 7) = Some (config_entries (sample_configuration [7, 5, 5]) ! i) \<and>
    (\<forall>j<3. j \<noteq> i \<longrightarrow> entry_priority (config_entries (sample_configuration [7, 5, 5]) ! j) <
       entry_priority (config_entries (sample_configuration [7, 5, 5]) ! i))"
proof -
  have "unat (config_entry_count (sample_configuration [7, 5, 5])) = 3"
    "length (config_entries (sample_configuration [7, 5, 5])) = 3"
    by (simp_all add: sample_configuration_def)
  then show ?thesis using boot_config_select_highest [OF sample_selections(2)] by simp
qed


end
