(* ===== verification/Update_Layout.thy ===== *)
theory Update_Layout
  imports Protected_State
begin

text \<open>
  The A/B media layout of the update storage (\<open>src/update/storage.c\<close>,
  \<open>include/Ribon/update/storage.h\<close>): the layout calculator, its structural check, and the canonical
  512-byte identity with its encoder and decoder.

  A function that fills a structure behind an output pointer takes whether the pointer is null and
  returns the structure next to the status; \<open>memset(layout, 0, sizeof(*layout))\<close> is
  \<open>layout_zero\<close>.
\<close>

section \<open>Structures\<close>

datatype RibonUpdateStorageStatus =
  US_OK | US_INVALID_ARGUMENT | US_UNSUPPORTED | US_CAPACITY | US_OVERFLOW | US_ALIGNMENT | US_OVERLAP |
  US_MALFORMED | US_SHORT_IO | US_IO | US_PROTECTED | US_BAD_STATE | US_IDENTITY_MISMATCH

definition ribon_update_storage_status_name :: "RibonUpdateStorageStatus \<Rightarrow> string" where
  "ribon_update_storage_status_name status =
     (case status of
        US_OK \<Rightarrow> ''ok''
      | US_INVALID_ARGUMENT \<Rightarrow> ''invalid-argument''
      | US_UNSUPPORTED \<Rightarrow> ''unsupported''
      | US_CAPACITY \<Rightarrow> ''capacity''
      | US_OVERFLOW \<Rightarrow> ''overflow''
      | US_ALIGNMENT \<Rightarrow> ''alignment''
      | US_OVERLAP \<Rightarrow> ''overlap''
      | US_MALFORMED \<Rightarrow> ''malformed''
      | US_SHORT_IO \<Rightarrow> ''short-io''
      | US_IO \<Rightarrow> ''io''
      | US_PROTECTED \<Rightarrow> ''protected''
      | US_BAD_STATE \<Rightarrow> ''bad-state''
      | US_IDENTITY_MISMATCH \<Rightarrow> ''identity-mismatch'')"

abbreviation (input) UPDATE_ABI_VERSION :: u32 where "UPDATE_ABI_VERSION \<equiv> 1"
abbreviation (input) REGION_BOOTLOADER :: u32 where "REGION_BOOTLOADER \<equiv> 1"
abbreviation (input) REGION_GUARD_BOOT_RECOVERY :: u32 where "REGION_GUARD_BOOT_RECOVERY \<equiv> 2"
abbreviation (input) REGION_IMMUTABLE_RECOVERY :: u32 where "REGION_IMMUTABLE_RECOVERY \<equiv> 3"
abbreviation (input) REGION_GUARD_RECOVERY_SLOT_A :: u32 where "REGION_GUARD_RECOVERY_SLOT_A \<equiv> 4"
abbreviation (input) REGION_SLOT_A :: u32 where "REGION_SLOT_A \<equiv> 5"
abbreviation (input) REGION_GUARD_SLOT_A_SLOT_B :: u32 where "REGION_GUARD_SLOT_A_SLOT_B \<equiv> 6"
abbreviation (input) REGION_SLOT_B :: u32 where "REGION_SLOT_B \<equiv> 7"
abbreviation (input) REGION_GUARD_SLOT_B_METADATA :: u32 where "REGION_GUARD_SLOT_B_METADATA \<equiv> 8"
abbreviation (input) REGION_SLOT_METADATA :: u32 where "REGION_SLOT_METADATA \<equiv> 9"
abbreviation (input) REGION_UPDATE_JOURNAL :: u32 where "REGION_UPDATE_JOURNAL \<equiv> 10"
abbreviation (input) REGION_TRAILING_RESERVED :: u32 where "REGION_TRAILING_RESERVED \<equiv> 11"

record RibonUpdateLayoutInput =
  input_size :: u32
  input_abi_version :: u32
  input_flags :: u32
  input_reserved0 :: u32
  input_media_capacity :: u64
  input_alignment :: u64
  input_guard_gap :: u64
  input_bootloader :: u64
  input_recovery :: u64
  input_slot_payload :: u64
  input_slot_metadata :: u64
  input_update_journal :: u64
  input_minimum_trailing :: u64
  input_reserved :: "u64 list"

record RibonUpdateLayoutRegion =
  range_kind :: u32
  range_flags :: u32
  range_offset :: u64
  range_length :: u64

record RibonUpdateLayout =
  layout_size :: u32
  layout_abi_version :: u32
  layout_flags :: u32
  layout_region_count :: u32
  layout_media_capacity :: u64
  layout_alignment :: u64
  layout_regions :: "RibonUpdateLayoutRegion list"
  layout_identity_digest :: "u8 list"
  layout_reserved :: "u64 list"

definition range_zero :: RibonUpdateLayoutRegion where
  "range_zero = \<lparr>range_kind = 0, range_flags = 0, range_offset = 0, range_length = 0\<rparr>"

definition layout_zero :: RibonUpdateLayout where
  "layout_zero =
     \<lparr>layout_size = 0, layout_abi_version = 0, layout_flags = 0, layout_region_count = 0,
      layout_media_capacity = 0, layout_alignment = 0, layout_regions = replicate 11 range_zero,
      layout_identity_digest = replicate 32 0, layout_reserved = replicate 4 0\<rparr>"

section \<open>Arithmetic\<close>

definition power_of_two :: "u64 \<Rightarrow> bool" where
  "power_of_two value \<longleftrightarrow> value \<noteq> 0 \<and> value AND (value - 1) = 0"

definition add_u64 :: "u64 \<Rightarrow> u64 \<Rightarrow> u64 option" where
  "add_u64 left right = (if UINT64_MAX - right < left then None else Some (left + right))"

definition align_up_u64 :: "u64 \<Rightarrow> u64 \<Rightarrow> u64 option" where
  "align_up_u64 value alignment =
     (if \<not> power_of_two alignment then None
      else case add_u64 value (alignment - 1) of
             None \<Rightarrow> None
           | Some added \<Rightarrow> Some (added AND NOT (alignment - 1)))"

section \<open>The calculator\<close>

definition layout_append ::
  "RibonUpdateLayout \<Rightarrow> nat \<Rightarrow> u32 \<Rightarrow> u64 \<Rightarrow> u64 \<Rightarrow>
   RibonUpdateStorageStatus + RibonUpdateLayout \<times> u64"
where
  "layout_append layout index kind requested cursor =
     (if 11 \<le> index \<or> requested = 0 then Inl US_CAPACITY
      else case align_up_u64 requested (layout_alignment layout) of
             None \<Rightarrow> Inl US_CAPACITY
           | Some len \<Rightarrow>
               case add_u64 cursor len of
                 None \<Rightarrow> Inl US_CAPACITY
               | Some end_offset \<Rightarrow>
                   if layout_media_capacity layout < end_offset then Inl US_CAPACITY
                   else Inr (layout\<lparr>layout_regions := (layout_regions layout)
                               [index := (layout_regions layout ! index)
                                  \<lparr>range_kind := kind, range_offset := cursor, range_length := len\<rparr>]\<rparr>,
                             end_offset))"

text \<open>One turn of the loop over the regions: \<open>Inl\<close> is the early \<open>return 0\<close>.\<close>

definition region_step :: "RibonUpdateLayout \<Rightarrow> nat \<Rightarrow> u64 \<Rightarrow> unit + u64" where
  "region_step layout index cursor =
     (let r = layout_regions layout ! index
      in if range_kind r \<noteq> of_nat (index + 1) \<or> range_flags r \<noteq> 0 \<or> range_length r = 0 \<or>
            range_offset r \<noteq> cursor \<or>
            range_offset r AND (layout_alignment layout - 1) \<noteq> 0 \<or>
            range_length r AND (layout_alignment layout - 1) \<noteq> 0
         then Inl ()
         else case add_u64 (range_offset r) (range_length r) of
                None \<Rightarrow> Inl ()
              | Some end_offset \<Rightarrow>
                  if layout_media_capacity layout < end_offset then Inl () else Inr end_offset)"

definition layout_is_structurally_valid :: "RibonUpdateLayout option \<Rightarrow> bool" where
  "layout_is_structurally_valid layout =
     (case layout of
        None \<Rightarrow> False
      | Some l \<Rightarrow>
          if layout_size l \<noteq> 360 \<or> layout_abi_version l \<noteq> UPDATE_ABI_VERSION \<or> layout_flags l \<noteq> 0 \<or>
             layout_region_count l \<noteq> 11 \<or> layout_media_capacity l = 0 \<or>
             \<not> power_of_two (layout_alignment l) \<or> \<not> reserved_zero (layout_reserved l)
          then False
          else case fold_result (region_step l) [0..<11] 0 of
                 Inl _ \<Rightarrow> False
               | Inr cursor \<Rightarrow>
                   cursor = layout_media_capacity l \<and>
                   2 * 512 \<le> range_length (layout_regions l ! 8) \<and>
                   range_length (layout_regions l ! 4) = range_length (layout_regions l ! 6))"

section \<open>The canonical identity\<close>

definition LAYOUT_MAGIC :: "u8 list" where
  "LAYOUT_MAGIC = map of_char ''RIBON-UPDATE-LAYOUT-V1'' @ replicate 10 0"

definition layout_store_region :: "RibonUpdateLayoutRegion \<Rightarrow> nat \<Rightarrow> u8 list \<Rightarrow> u8 list" where
  "layout_store_region r row out =
     (let out = store_u32 row (range_kind r) out;
          out = store_u32 (row + 4) (range_flags r) out;
          out = store_u64 (row + 8) (range_offset r) out
      in store_u64 (row + 16) (range_length r) out)"

definition layout_header :: "RibonUpdateLayout \<Rightarrow> u8 list" where
  "layout_header l =
     (let out = blit 0 LAYOUT_MAGIC (replicate 512 0);
          out = store_u16 32 1 out;
          out = store_u16 34 128 out;
          out = store_u32 36 512 out;
          out = store_u64 40 (layout_media_capacity l) out;
          out = store_u64 48 (layout_alignment l) out
      in store_u32 56 (layout_region_count l) out)"

definition ribon_update_layout_identity_encode ::
  "RibonUpdateLayout option \<Rightarrow> bool \<Rightarrow> RibonUpdateStorageStatus \<times> u8 list"
where
  "ribon_update_layout_identity_encode layout output =
     (if \<not> output \<or> \<not> layout_is_structurally_valid layout
      then (US_INVALID_ARGUMENT, replicate 512 0)
      else let l = the layout
           in (US_OK,
               fold (\<lambda>index out. layout_store_region (layout_regions l ! index) (128 + index * 24) out)
                 [0..<unat (layout_region_count l)] (layout_header l)))"

definition layout_load_region :: "u8 list \<Rightarrow> RibonUpdateLayoutRegion" where
  "layout_load_region row =
     \<lparr>range_kind = load_u32 row, range_flags = load_u32 (drop 4 row),
      range_offset = load_u64 (drop 8 row), range_length = load_u64 (drop 16 row)\<rparr>"

definition ribon_update_layout_identity_open ::
  "u8 list option \<Rightarrow> nat \<Rightarrow> bool \<Rightarrow> RibonUpdateStorageStatus \<times> RibonUpdateLayout"
where
  "ribon_update_layout_identity_open bytes n layout =
     (case bytes of
        None \<Rightarrow> (US_MALFORMED, layout_zero)
      | Some bs \<Rightarrow>
          if \<not> layout \<or> n \<noteq> 512 \<or> \<not> bytes_equal bs LAYOUT_MAGIC 32 \<or>
             load_u16 (drop 32 bs) \<noteq> 1 \<or> load_u16 (drop 34 bs) \<noteq> 128 \<or>
             load_u32 (drop 36 bs) \<noteq> 512 \<or> load_u32 (drop 56 bs) \<noteq> 11 \<or>
             \<not> bytes_zero (drop 60 bs) (128 - 60) \<or>
             \<not> bytes_zero (drop (128 + 11 * 24) bs) ((16 - 11) * 24)
          then (US_MALFORMED, layout_zero)
          else
            let l = layout_zero
                  \<lparr>layout_size := 360, layout_abi_version := UPDATE_ABI_VERSION,
                   layout_region_count := 11, layout_media_capacity := load_u64 (drop 40 bs),
                   layout_alignment := load_u64 (drop 48 bs),
                   layout_regions := map (\<lambda>index. layout_load_region (drop (128 + index * 24) bs)) [0..<11]\<rparr>
            in if \<not> layout_is_structurally_valid (Some l) then (US_MALFORMED, layout_zero)
               else (US_OK, l\<lparr>layout_identity_digest := ribon_security_sha256 bs n\<rparr>))"

section \<open>From sizes to a layout\<close>

definition input_is_valid :: "RibonUpdateLayoutInput \<Rightarrow> bool" where
  "input_is_valid i \<longleftrightarrow>
     input_size i = 120 \<and> input_abi_version i = UPDATE_ABI_VERSION \<and> input_flags i = 0 \<and>
     input_reserved0 i = 0 \<and> input_media_capacity i \<noteq> 0 \<and> power_of_two (input_alignment i) \<and>
     input_guard_gap i \<noteq> 0 \<and> input_bootloader i \<noteq> 0 \<and> input_recovery i \<noteq> 0 \<and>
     input_slot_payload i \<noteq> 0 \<and> 2 * 512 \<le> input_slot_metadata i \<and> input_update_journal i \<noteq> 0 \<and>
     input_minimum_trailing i \<noteq> 0 \<and> reserved_zero (input_reserved i)"

definition requested_sizes :: "RibonUpdateLayoutInput \<Rightarrow> u64 list" where
  "requested_sizes i =
     [input_bootloader i, input_guard_gap i, input_recovery i, input_guard_gap i,
      input_slot_payload i, input_guard_gap i, input_slot_payload i, input_guard_gap i,
      input_slot_metadata i, input_update_journal i, input_minimum_trailing i]"

text \<open>The loop that adds up the aligned sizes and remembers the last of them.\<close>

definition prefix_step ::
  "u64 \<Rightarrow> u64 list \<Rightarrow> nat \<Rightarrow> u64 \<times> u64 \<Rightarrow> RibonUpdateStorageStatus + u64 \<times> u64"
where
  "prefix_step alignment requested index = (\<lambda>(aligned_prefix, trailing_minimum).
     case align_up_u64 (requested ! index) alignment of
       None \<Rightarrow> Inl US_OVERFLOW
     | Some aligned \<Rightarrow>
         (case add_u64 aligned_prefix aligned of
            None \<Rightarrow> Inl US_OVERFLOW
          | Some prefix_end \<Rightarrow> Inr (prefix_end, if index = 10 then aligned else trailing_minimum)))"

definition append_step ::
  "u64 list \<Rightarrow> nat \<Rightarrow> RibonUpdateLayout \<times> u64 \<Rightarrow> RibonUpdateStorageStatus + RibonUpdateLayout \<times> u64"
where
  "append_step requested index = (\<lambda>(layout, cursor).
     layout_append layout index (of_nat (index + 1)) (requested ! index) cursor)"

definition ribon_update_layout_calculate ::
  "RibonUpdateLayoutInput option \<Rightarrow> bool \<Rightarrow> RibonUpdateStorageStatus \<times> RibonUpdateLayout"
where
  "ribon_update_layout_calculate input layout =
     (if input = None \<or> \<not> layout \<or> \<not> input_is_valid (the input)
      then (US_INVALID_ARGUMENT, layout_zero)
      else
        let i = the input; requested = requested_sizes i
        in case fold_result (prefix_step (input_alignment i) requested) [0..<11] (0, 0) of
             Inl status \<Rightarrow> (status, layout_zero)
           | Inr (aligned_prefix, trailing_minimum) \<Rightarrow>
               if input_media_capacity i < aligned_prefix then (US_CAPACITY, layout_zero)
               else
                 let trailing = input_media_capacity i - (aligned_prefix - trailing_minimum)
                 in if trailing AND (input_alignment i - 1) \<noteq> 0 then (US_ALIGNMENT, layout_zero)
                    else
                      let requested = requested[10 := trailing];
                          l = layout_zero
                            \<lparr>layout_size := 360, layout_abi_version := UPDATE_ABI_VERSION,
                             layout_region_count := 11,
                             layout_media_capacity := input_media_capacity i,
                             layout_alignment := input_alignment i\<rparr>
                      in case fold_result (append_step requested) [0..<11] (l, 0) of
                           Inl status \<Rightarrow> (status, layout_zero)
                         | Inr (l, cursor) \<Rightarrow>
                             let (status, identity) = ribon_update_layout_identity_encode (Some l) True
                             in if status \<noteq> US_OK then (status, layout_zero)
                                else (US_OK, l\<lparr>layout_identity_digest :=
                                                ribon_security_sha256 identity 512\<rparr>))"

end
