(* ===== verification/Update_Slots.thy ===== *)
theory Update_Slots
  imports Update_Layout
begin

text \<open>
  The slot metadata of the update storage (\<open>src/update/storage.c\<close>): the state of the two image slots,
  its checks, its canonical 512-byte form, and the transition from one state to the next.
\<close>

section \<open>Structures\<close>

abbreviation (input) SLOT_EMPTY :: u32 where "SLOT_EMPTY \<equiv> 0"
abbreviation (input) SLOT_STAGING :: u32 where "SLOT_STAGING \<equiv> 1"
abbreviation (input) SLOT_VERIFIED :: u32 where "SLOT_VERIFIED \<equiv> 2"
abbreviation (input) SLOT_PENDING :: u32 where "SLOT_PENDING \<equiv> 3"
abbreviation (input) SLOT_CONFIRMED :: u32 where "SLOT_CONFIRMED \<equiv> 4"
abbreviation (input) SLOT_BAD :: u32 where "SLOT_BAD \<equiv> 5"

abbreviation (input) SLOT_NONE :: u32 where "SLOT_NONE \<equiv> UINT32_MAX"
abbreviation (input) MAX_BOOT_ATTEMPTS :: u32 where "MAX_BOOT_ATTEMPTS \<equiv> 32"

record RibonUpdateSlotEntry =
  entry_slot_id :: u32
  entry_state :: u32
  entry_metadata_generation :: u64
  entry_image_generation :: u64
  entry_manifest_digest :: "u8 list"
  entry_image_set_digest :: "u8 list"
  entry_layout_digest :: "u8 list"
  entry_boot_attempts :: u32
  entry_flags :: u32
  entry_reserved :: "u64 list"

record RibonUpdateSlotMetadata =
  metadata_size :: u32
  metadata_abi_version :: u32
  metadata_flags :: u32
  active_slot :: u32
  pending_slot :: u32
  metadata_slot_count :: u32
  metadata_generation :: u64
  metadata_slots :: "RibonUpdateSlotEntry list"
  metadata_wire_digest :: "u8 list"
  metadata_reserved :: "u64 list"

record RibonUpdateSlotTransition =
  transition_size :: u32
  transition_abi_version :: u32
  transition_flags :: u32
  transition_slot_id :: u32
  transition_next_state :: u32
  transition_boot_attempts :: u32
  transition_image_generation :: u64
  transition_manifest_digest :: "u8 list"
  transition_image_set_digest :: "u8 list"
  transition_layout_digest :: "u8 list"
  transition_reserved :: "u64 list"

definition entry_zero :: RibonUpdateSlotEntry where
  "entry_zero =
     \<lparr>entry_slot_id = 0, entry_state = 0, entry_metadata_generation = 0, entry_image_generation = 0,
      entry_manifest_digest = replicate 32 0, entry_image_set_digest = replicate 32 0,
      entry_layout_digest = replicate 32 0, entry_boot_attempts = 0, entry_flags = 0,
      entry_reserved = replicate 4 0\<rparr>"

definition metadata_zero :: RibonUpdateSlotMetadata where
  "metadata_zero =
     \<lparr>metadata_size = 0, metadata_abi_version = 0, metadata_flags = 0, active_slot = 0,
      pending_slot = 0, metadata_slot_count = 0, metadata_generation = 0,
      metadata_slots = replicate 2 entry_zero, metadata_wire_digest = replicate 32 0,
      metadata_reserved = replicate 4 0\<rparr>"

section \<open>Checks\<close>

definition slot_entry_is_valid :: "RibonUpdateSlotEntry option \<Rightarrow> u32 \<Rightarrow> u64 \<Rightarrow> bool" where
  "slot_entry_is_valid entry expected_slot generation =
     (case entry of
        None \<Rightarrow> False
      | Some e \<Rightarrow>
          let empty_identity = bytes_zero (entry_manifest_digest e) 32 \<and>
                bytes_zero (entry_image_set_digest e) 32 \<and> bytes_zero (entry_layout_digest e) 32
          in if entry_slot_id e \<noteq> expected_slot \<or> entry_flags e \<noteq> 0 \<or>
                entry_state e < SLOT_EMPTY \<or> SLOT_BAD < entry_state e \<or>
                MAX_BOOT_ATTEMPTS < entry_boot_attempts e \<or> \<not> reserved_zero (entry_reserved e)
             then False
             else if entry_state e = SLOT_EMPTY
             then entry_metadata_generation e = 0 \<and> entry_image_generation e = 0 \<and>
                  entry_boot_attempts e = 0 \<and> empty_identity
             else if entry_metadata_generation e = 0 \<or> generation < entry_metadata_generation e \<or>
                     entry_image_generation e = 0 \<or> empty_identity \<or>
                     bytes_zero (entry_manifest_digest e) 32 \<or>
                     bytes_zero (entry_image_set_digest e) 32 \<or> bytes_zero (entry_layout_digest e) 32
             then False
             else if entry_state e = SLOT_PENDING then entry_boot_attempts e \<noteq> 0
             else entry_boot_attempts e = 0)"

text \<open>The loop over the slots: \<open>Inl\<close> is the early \<open>return 0\<close>, \<open>Inr\<close> the pending slots so far.\<close>

definition metadata_slot_step :: "RibonUpdateSlotMetadata \<Rightarrow> nat \<Rightarrow> u32 \<Rightarrow> unit + u32" where
  "metadata_slot_step m index pending_count =
     (if \<not> slot_entry_is_valid (Some (metadata_slots m ! index)) (of_nat index) (metadata_generation m)
      then Inl ()
      else Inr (if entry_state (metadata_slots m ! index) = SLOT_PENDING
                then pending_count + 1 else pending_count))"

definition metadata_is_valid :: "RibonUpdateSlotMetadata option \<Rightarrow> bool" where
  "metadata_is_valid metadata =
     (case metadata of
        None \<Rightarrow> False
      | Some m \<Rightarrow>
          if metadata_size m \<noteq> 416 \<or> metadata_abi_version m \<noteq> UPDATE_ABI_VERSION \<or>
             metadata_flags m \<noteq> 0 \<or> metadata_slot_count m \<noteq> 2 \<or> metadata_generation m = 0 \<or>
             2 \<le> active_slot m \<or> (pending_slot m \<noteq> SLOT_NONE \<and> 2 \<le> pending_slot m) \<or>
             entry_state (metadata_slots m ! unat (active_slot m)) \<noteq> SLOT_CONFIRMED \<or>
             \<not> reserved_zero (metadata_reserved m)
          then False
          else case fold_result (metadata_slot_step m) [0..<2] 0 of
                 Inl _ \<Rightarrow> False
               | Inr pending_count \<Rightarrow>
                   if pending_slot m = SLOT_NONE then pending_count = 0
                   else pending_count = 1 \<and> pending_slot m \<noteq> active_slot m \<and>
                        entry_state (metadata_slots m ! unat (pending_slot m)) = SLOT_PENDING)"

section \<open>The canonical form\<close>

definition METADATA_MAGIC :: "u8 list" where
  "METADATA_MAGIC = map of_char ''RIBON-SLOT-METADATA-V1'' @ replicate 10 0"

definition metadata_store_slot :: "RibonUpdateSlotEntry \<Rightarrow> nat \<Rightarrow> u8 list \<Rightarrow> u8 list" where
  "metadata_store_slot e row out =
     (let out = store_u32 row (entry_slot_id e) out;
          out = store_u32 (row + 4) (entry_state e) out;
          out = store_u64 (row + 8) (entry_metadata_generation e) out;
          out = store_u64 (row + 16) (entry_image_generation e) out;
          out = blit (row + 24) (take 32 (entry_manifest_digest e)) out;
          out = blit (row + 56) (take 32 (entry_image_set_digest e)) out;
          out = blit (row + 88) (take 32 (entry_layout_digest e)) out;
          out = store_u32 (row + 120) (entry_boot_attempts e) out
      in store_u32 (row + 124) (entry_flags e) out)"

text \<open>The object up to its body digest.\<close>

definition metadata_body :: "RibonUpdateSlotMetadata \<Rightarrow> u8 list" where
  "metadata_body m =
     (let out = blit 0 METADATA_MAGIC (replicate 512 0);
          out = store_u16 32 1 out;
          out = store_u16 34 64 out;
          out = store_u32 36 512 out;
          out = store_u64 40 (metadata_generation m) out;
          out = store_u32 48 (active_slot m) out;
          out = store_u32 52 (pending_slot m) out;
          out = store_u32 56 (metadata_slot_count m) out
      in fold (\<lambda>index out. metadata_store_slot (metadata_slots m ! index) (64 + index * 160) out) [0..<2] out)"

definition ribon_update_slot_metadata_encode ::
  "RibonUpdateSlotMetadata option \<Rightarrow> bool \<Rightarrow> RibonUpdateStorageStatus \<times> u8 list"
where
  "ribon_update_slot_metadata_encode metadata output =
     (if \<not> output \<or> \<not> metadata_is_valid metadata
      then (US_INVALID_ARGUMENT, replicate 512 0)
      else
        let out = metadata_body (the metadata);
            digest = ribon_security_sha256 out 384;
            out = blit 384 digest out
        in (US_OK, store_u32 416 (crc32c out 416) out))"

definition metadata_load_slot :: "u8 list \<Rightarrow> RibonUpdateSlotEntry" where
  "metadata_load_slot row =
     \<lparr>entry_slot_id = load_u32 row, entry_state = load_u32 (drop 4 row),
      entry_metadata_generation = load_u64 (drop 8 row), entry_image_generation = load_u64 (drop 16 row),
      entry_manifest_digest = slice 24 32 row, entry_image_set_digest = slice 56 32 row,
      entry_layout_digest = slice 88 32 row, entry_boot_attempts = load_u32 (drop 120 row),
      entry_flags = load_u32 (drop 124 row), entry_reserved = replicate 4 0\<rparr>"

definition ribon_update_slot_metadata_open ::
  "u8 list option \<Rightarrow> nat \<Rightarrow> bool \<Rightarrow> RibonUpdateStorageStatus \<times> RibonUpdateSlotMetadata"
where
  "ribon_update_slot_metadata_open bytes n metadata =
     (case bytes of
        None \<Rightarrow> (US_MALFORMED, metadata_zero)
      | Some bs \<Rightarrow>
          if \<not> metadata \<or> n \<noteq> 512 \<or> \<not> bytes_equal bs METADATA_MAGIC 32 \<or>
             load_u16 (drop 32 bs) \<noteq> 1 \<or> load_u16 (drop 34 bs) \<noteq> 64 \<or>
             load_u32 (drop 36 bs) \<noteq> 512 \<or> load_u32 (drop 60 bs) \<noteq> 0 \<or>
             \<not> bytes_zero (drop 420 bs) (512 - 420)
          then (US_MALFORMED, metadata_zero)
          else
            let digest = ribon_security_sha256 bs 384
            in if \<not> bytes_equal digest (drop 384 bs) 32 \<or> load_u32 (drop 416 bs) \<noteq> crc32c bs 416
               then (US_MALFORMED, metadata_zero)
               else if list_ex (\<lambda>index. \<not> bytes_zero (drop (64 + index * 160 + 128) bs) 32) [0..<2]
               then (US_MALFORMED, metadata_zero)
               else
                 let m = metadata_zero
                       \<lparr>metadata_size := 416, metadata_abi_version := UPDATE_ABI_VERSION,
                        metadata_generation := load_u64 (drop 40 bs),
                        active_slot := load_u32 (drop 48 bs), pending_slot := load_u32 (drop 52 bs),
                        metadata_slot_count := load_u32 (drop 56 bs),
                        metadata_slots := map (\<lambda>index. metadata_load_slot (drop (64 + index * 160) bs)) [0..<2],
                        metadata_wire_digest := digest\<rparr>
                 in if \<not> metadata_is_valid (Some m) then (US_MALFORMED, metadata_zero) else (US_OK, m))"

section \<open>Transitions\<close>

definition transition_is_allowed :: "u32 \<Rightarrow> u32 \<Rightarrow> bool" where
  "transition_is_allowed current next =
     (if current = SLOT_EMPTY \<or> current = SLOT_BAD \<or> current = SLOT_CONFIRMED
      then next = SLOT_STAGING
      else if current = SLOT_STAGING then next = SLOT_VERIFIED \<or> next = SLOT_BAD
      else if current = SLOT_VERIFIED then next = SLOT_PENDING \<or> next = SLOT_BAD
      else if current = SLOT_PENDING then next = SLOT_CONFIRMED \<or> next = SLOT_BAD
      else False)"

definition transition_identity_matches :: "RibonUpdateSlotEntry \<Rightarrow> RibonUpdateSlotTransition \<Rightarrow> bool" where
  "transition_identity_matches e t \<longleftrightarrow>
     entry_image_generation e = transition_image_generation t \<and>
     bytes_equal (entry_manifest_digest e) (transition_manifest_digest t) 32 \<and>
     bytes_equal (entry_image_set_digest e) (transition_image_set_digest t) 32 \<and>
     bytes_equal (entry_layout_digest e) (transition_layout_digest t) 32"

text \<open>The guards of a transition, and the metadata it writes.\<close>

definition transition_rejected ::
  "RibonUpdateSlotMetadata option \<Rightarrow> RibonUpdateSlotTransition option \<Rightarrow> bool \<Rightarrow> bool"
where
  "transition_rejected current transition next \<longleftrightarrow>
     \<not> metadata_is_valid current \<or> transition = None \<or> \<not> next \<or>
     (let m = the current; t = the transition
      in transition_size t \<noteq> 160 \<or> transition_abi_version t \<noteq> UPDATE_ABI_VERSION \<or>
         transition_flags t \<noteq> 0 \<or> 2 \<le> transition_slot_id t \<or> transition_slot_id t = active_slot m \<or>
         transition_next_state t < SLOT_EMPTY \<or> SLOT_BAD < transition_next_state t \<or>
         MAX_BOOT_ATTEMPTS < transition_boot_attempts t \<or> transition_image_generation t = 0 \<or>
         bytes_zero (transition_manifest_digest t) 32 \<or>
         bytes_zero (transition_image_set_digest t) 32 \<or>
         bytes_zero (transition_layout_digest t) 32 \<or> \<not> reserved_zero (transition_reserved t) \<or>
         metadata_generation m = UINT64_MAX \<or>
         \<not> transition_is_allowed (entry_state (metadata_slots m ! unat (transition_slot_id t)))
             (transition_next_state t))"

definition transition_entry ::
  "u64 \<Rightarrow> RibonUpdateSlotTransition \<Rightarrow> RibonUpdateSlotEntry \<Rightarrow> RibonUpdateSlotEntry"
where
  "transition_entry generation t e =
     (let e = e\<lparr>entry_state := transition_next_state t, entry_metadata_generation := generation,
                entry_boot_attempts := transition_boot_attempts t\<rparr>
      in if transition_next_state t = SLOT_STAGING
         then e\<lparr>entry_image_generation := transition_image_generation t,
                entry_manifest_digest := take 32 (transition_manifest_digest t),
                entry_image_set_digest := take 32 (transition_image_set_digest t),
                entry_layout_digest := take 32 (transition_layout_digest t)\<rparr>
         else e)"

definition transition_apply ::
  "RibonUpdateSlotMetadata \<Rightarrow> RibonUpdateSlotTransition \<Rightarrow> RibonUpdateSlotMetadata"
where
  "transition_apply m t =
     (let slot = unat (transition_slot_id t);
          generation = metadata_generation m + 1;
          m = m\<lparr>metadata_generation := generation, metadata_wire_digest := replicate 32 0,
                metadata_slots := (metadata_slots m)
                  [slot := transition_entry generation t (metadata_slots m ! slot)]\<rparr>
      in if transition_next_state t = SLOT_PENDING then m\<lparr>pending_slot := transition_slot_id t\<rparr>
         else if transition_next_state t = SLOT_CONFIRMED
         then m\<lparr>active_slot := transition_slot_id t, pending_slot := SLOT_NONE\<rparr>
         else if transition_next_state t = SLOT_BAD then m\<lparr>pending_slot := SLOT_NONE\<rparr>
         else m)"

definition ribon_update_slot_metadata_transition ::
  "RibonUpdateSlotMetadata option \<Rightarrow> RibonUpdateSlotTransition option \<Rightarrow> bool \<Rightarrow>
   RibonUpdateStorageStatus \<times> RibonUpdateSlotMetadata"
where
  "ribon_update_slot_metadata_transition current transition next =
     (if transition_rejected current transition next then (US_BAD_STATE, metadata_zero)
      else
        let m = the current; t = the transition
        in if transition_next_state t = SLOT_PENDING \<and>
              (transition_boot_attempts t = 0 \<or> pending_slot m \<noteq> SLOT_NONE)
           then (US_BAD_STATE, metadata_zero)
           else if transition_next_state t \<noteq> SLOT_PENDING \<and> transition_boot_attempts t \<noteq> 0
           then (US_BAD_STATE, metadata_zero)
           else if transition_next_state t \<noteq> SLOT_STAGING \<and>
                   \<not> transition_identity_matches (metadata_slots m ! unat (transition_slot_id t)) t
           then (US_IDENTITY_MISMATCH, metadata_zero)
           else
             let m' = transition_apply m t;
                 (status, wire) = ribon_update_slot_metadata_encode (Some m') True
             in if \<not> metadata_is_valid (Some m') \<or> status \<noteq> US_OK then (US_BAD_STATE, metadata_zero)
                else (US_OK, m'\<lparr>metadata_wire_digest := ribon_security_sha256 wire 384\<rparr>))"

end
