(* ===== verification/Update_Layout_Facts.thy ===== *)
theory Update_Layout_Facts
  imports Update_Layout
begin

text \<open>
  The arithmetic of the layout calculator on natural numbers, what the structural check accepts, and
  the layout that the calculator builds.
\<close>

section \<open>Guarded arithmetic\<close>

lemma power_of_two_eq: "power_of_two = is_power_of_two"
  by (simp add: fun_eq_iff power_of_two_def is_power_of_two_def)

lemma power_of_two_pos: "power_of_two a \<Longrightarrow> 0 < unat a"
  by (simp add: power_of_two_def unat_gt_0)

lemma unat_of_nat_small: "n < 2 ^ 64 \<Longrightarrow> unat (of_nat n :: u64) = n"
  by (simp add: unsigned_of_nat take_bit_nat_eq_self)

lemma add_u64_eq:
  "add_u64 x y = (if unat x + unat y < 2 ^ 64 then Some (of_nat (unat x + unat y)) else None)"
  using guard_gt_max_iff [of y x] by (auto simp: add_u64_def)

lemma align_up_u64_eq:
  assumes "power_of_two a"
  shows "align_up_u64 v a =
    (if align_up_nat (unat a) (unat v) < 2 ^ 64 then Some (of_nat (align_up_nat (unat a) (unat v)))
     else None)"
proof (cases "UINT64_MAX - (a - 1) < v")
  case True
  then show ?thesis
    using align_up_overflow [of a v] assms
    by (auto simp: align_up_u64_def add_u64_def power_of_two_eq)
next
  case False
  have up: "unat ((v + a - 1) AND NOT (a - 1)) = align_up_nat (unat a) (unat v)"
    using assms False by (intro mask_align_up) (auto simp: power_of_two_eq)
  then have "align_up_nat (unat a) (unat v) < 2 ^ 64"
    using unat_bound [of "(v + a - 1) AND NOT (a - 1)"] by simp
  moreover have "of_nat (align_up_nat (unat a) (unat v)) = (v + a - 1) AND NOT (a - 1)"
    unfolding up [symmetric] by simp
  ultimately show ?thesis
    using assms False by (simp add: align_up_u64_def add_u64_def add_diff_eq)
qed

lemma align_up_multiple: "0 < n \<Longrightarrow> n dvd x \<Longrightarrow> align_up_nat n x = x"
  using align_up_nat_ge [of n x] align_up_nat_least [of n x x] by simp

section \<open>The structural check\<close>

text \<open>The lengths of the regions, and region \<open>i\<close> as the check wants it.\<close>

definition lengths :: "RibonUpdateLayout \<Rightarrow> nat list" where
  "lengths l = map (\<lambda>r. unat (range_length r)) (layout_regions l)"

definition region_ok :: "RibonUpdateLayout \<Rightarrow> nat \<Rightarrow> bool" where
  "region_ok l i \<longleftrightarrow>
     range_kind (layout_regions l ! i) = of_nat (i + 1) \<and>
     range_flags (layout_regions l ! i) = 0 \<and>
     range_length (layout_regions l ! i) \<noteq> 0 \<and>
     unat (range_offset (layout_regions l ! i)) = sum_list (take i (lengths l)) \<and>
     unat (layout_alignment l) dvd unat (range_offset (layout_regions l ! i)) \<and>
     unat (layout_alignment l) dvd unat (range_length (layout_regions l ! i)) \<and>
     sum_list (take (Suc i) (lengths l)) \<le> unat (layout_media_capacity l)"

lemma sum_take_Suc: "i < length xs \<Longrightarrow> sum_list (take (Suc i) xs) = sum_list (take i xs) + xs ! i"
  for xs :: "nat list"
  by (simp add: take_Suc_conv_app_nth)

lemma region_step_eq:
  assumes pow: "power_of_two (layout_alignment l)" and i: "i < length (layout_regions l)"
    and cursor: "unat cursor = sum_list (take i (lengths l))"
  shows "region_step l i cursor =
    (if region_ok l i then Inr (of_nat (sum_list (take (Suc i) (lengths l)))) else Inl ())"
proof -
  let ?r = "layout_regions l ! i"
  have mask: "\<And>x. x AND (layout_alignment l - 1) = 0 \<longleftrightarrow> unat (layout_alignment l) dvd unat x"
    using pow by (intro and_mask_eq_0_iff) (simp add: power_of_two_eq)
  have off: "range_offset ?r = cursor \<longleftrightarrow> unat (range_offset ?r) = sum_list (take i (lengths l))"
    using cursor by (simp add: word_unat_eq_iff)
  have total: "sum_list (take (Suc i) (lengths l)) = unat cursor + unat (range_length ?r)"
    using i cursor by (simp add: sum_take_Suc lengths_def)
  have capacity: "x + y < 2 ^ 64 \<Longrightarrow> layout_media_capacity l < of_nat (x + y) \<longleftrightarrow>
      unat (layout_media_capacity l) < x + y" for x y
    by (simp add: word_less_nat_alt unat_of_nat_small del: of_nat_add)
  have "unat cursor + unat (range_length ?r) \<le> unat (layout_media_capacity l) \<Longrightarrow>
      unat cursor + unat (range_length ?r) < 2 ^ 64"
    using unat_bound [of "layout_media_capacity l"] by simp
  then show ?thesis
    unfolding region_step_def Let_def region_ok_def mask total off [symmetric] add_u64_eq
    by (auto simp: capacity simp del: of_nat_add)
qed

lemma region_loop_eq:
  assumes pow: "power_of_two (layout_alignment l)" and len: "length (layout_regions l) = 11"
  shows "n \<le> 11 \<Longrightarrow> fold_result (region_step l) [0..<n] 0 =
    (if \<forall>i<n. region_ok l i then Inr (of_nat (sum_list (take n (lengths l)))) else Inl ())"
proof (induction n)
  case (Suc n)
  show ?case
  proof (cases "\<forall>i<n. region_ok l i")
    case True
    have "sum_list (take n (lengths l)) \<le> unat (layout_media_capacity l)"
      using True by (cases n) (auto simp: region_ok_def)
    then have "unat (of_nat (sum_list (take n (lengths l))) :: u64) = sum_list (take n (lengths l))"
      using unat_bound [of "layout_media_capacity l"] by (intro unat_of_nat_small) simp
    then have "region_step l n (of_nat (sum_list (take n (lengths l)))) =
        (if region_ok l n then Inr (of_nat (sum_list (take (Suc n) (lengths l)))) else Inl ())"
      using Suc.prems len by (intro region_step_eq pow) simp_all
    then show ?thesis
      using Suc True by (auto simp: fold_result_append less_Suc_eq)
  next
    case False
    then show ?thesis using Suc by (auto simp: fold_result_append less_Suc_eq)
  qed
qed simp

text \<open>What a structurally valid layout is, in terms of natural numbers.\<close>

definition layout_wf :: "RibonUpdateLayout \<Rightarrow> bool" where
  "layout_wf l \<longleftrightarrow>
     layout_size l = 360 \<and> layout_abi_version l = UPDATE_ABI_VERSION \<and> layout_flags l = 0 \<and>
     layout_region_count l = 11 \<and> layout_media_capacity l \<noteq> 0 \<and> power_of_two (layout_alignment l) \<and>
     reserved_zero (layout_reserved l) \<and> (\<forall>i<11. region_ok l i) \<and>
     sum_list (lengths l) = unat (layout_media_capacity l) \<and>
     1024 \<le> lengths l ! 8 \<and> lengths l ! 4 = lengths l ! 6"

lemma length_lengths [simp]: "length (lengths l) = length (layout_regions l)"
  by (simp add: lengths_def)

lemma region_ok_bound:
  assumes "\<forall>i<11. region_ok l i" and "length (layout_regions l) = 11"
  shows "sum_list (lengths l) \<le> unat (layout_media_capacity l)"
proof -
  have "region_ok l 10" using assms(1) by simp
  then show ?thesis using assms(2) by (simp add: region_ok_def)
qed

lemma layout_valid_iff:
  assumes len: "length (layout_regions l) = 11"
  shows "layout_is_structurally_valid (Some l) \<longleftrightarrow> layout_wf l"
proof (cases "power_of_two (layout_alignment l)")
  case pow: True
  have lens: "lengths l ! k = unat (range_length (layout_regions l ! k))" if "k < 11" for k
    using that len by (simp add: lengths_def)
  have final: "of_nat (sum_list (lengths l)) = layout_media_capacity l \<longleftrightarrow>
      sum_list (lengths l) = unat (layout_media_capacity l)" if "\<forall>i<11. region_ok l i"
  proof -
    have "sum_list (lengths l) < 2 ^ 64"
      using region_ok_bound [OF that len] unat_bound [of "layout_media_capacity l"] by simp
    then show ?thesis by (auto simp: word_unat_eq_iff unat_of_nat_small)
  qed
  have loop: "fold_result (region_step l) [0..<11] 0 =
      (if \<forall>i<11. region_ok l i then Inr (of_nat (sum_list (lengths l))) else Inl ())"
    using region_loop_eq [OF pow len, of 11] len by simp
  have "(2 * 512 \<le> range_length (layout_regions l ! 8)) = (1024 \<le> lengths l ! 8)"
    by (simp add: lens word_le_nat_alt)
  moreover have "(range_length (layout_regions l ! 4) = range_length (layout_regions l ! 6)) =
      (lengths l ! 4 = lengths l ! 6)"
    by (simp add: lens word_unat_eq_iff)
  ultimately show ?thesis
    using final by (auto simp: layout_is_structurally_valid_def layout_wf_def loop pow)
next
  case False
  then show ?thesis by (simp add: layout_is_structurally_valid_def layout_wf_def)
qed

section \<open>The calculator\<close>

text \<open>The lengths the calculator gives the regions, and the layout with regions of given lengths.\<close>

definition aligned_sizes :: "RibonUpdateLayoutInput \<Rightarrow> nat list" where
  "aligned_sizes i = map (\<lambda>v. align_up_nat (unat (input_alignment i)) (unat v)) (requested_sizes i)"

definition plan_range :: "nat list \<Rightarrow> nat \<Rightarrow> RibonUpdateLayoutRegion" where
  "plan_range ls k = \<lparr>range_kind = of_nat (k + 1), range_flags = 0,
     range_offset = of_nat (sum_list (take k ls)), range_length = of_nat (ls ! k)\<rparr>"

lemma sum_take_le: "sum_list (take k xs) \<le> sum_list xs" for xs :: "nat list"
  by (metis append_take_drop_id le_add1 sum_list_append)

lemma prefix_loop_eq:
  assumes pow: "power_of_two a"
  defines "f \<equiv> \<lambda>v. align_up_nat (unat a) (unat v)"
  shows "n \<le> length req \<Longrightarrow> n \<le> 11 \<Longrightarrow> fold_result (prefix_step a req) [0..<n] (0, 0) =
    (if sum_list (take n (map f req)) < 2 ^ 64
     then Inr (of_nat (sum_list (take n (map f req))), if n = 11 then of_nat (f (req ! 10)) else 0)
     else Inl US_OVERFLOW)"
proof (induction n)
  case (Suc n)
  have sum: "sum_list (take (Suc n) (map f req)) = sum_list (take n (map f req)) + f (req ! n)"
    using Suc.prems by (simp add: sum_take_Suc)
  have step: "prefix_step a req n (of_nat x, t) =
      (if x + f (req ! n) < 2 ^ 64
       then Inr (of_nat (x + f (req ! n)), if n = 10 then of_nat (f (req ! n)) else t)
       else Inl US_OVERFLOW)" if "x < 2 ^ 64" for x t
    using that by (simp add: prefix_step_def align_up_u64_eq [OF pow] f_def add_u64_eq unat_of_nat_small)
  show ?case
    unfolding sum using Suc step [of "sum_list (take n (map f req))"]
    by (cases "sum_list (take n (map f req)) < 2 ^ 64") (auto simp: fold_result_append)
qed simp

lemma append_loop_eq:
  assumes pow: "power_of_two (layout_alignment l)" and req: "length req = 11" "0 \<notin> set req"
    and regions: "layout_regions l = replicate 11 range_zero"
  defines "ls \<equiv> map (\<lambda>v. align_up_nat (unat (layout_alignment l)) (unat v)) req"
  assumes fits: "sum_list ls \<le> unat (layout_media_capacity l)"
  shows "n \<le> 11 \<Longrightarrow> fold_result (append_step req) [0..<n] (l, 0) =
    Inr (l\<lparr>layout_regions := map (plan_range ls) [0..<n] @ replicate (11 - n) range_zero\<rparr>,
         of_nat (sum_list (take n ls)))"
proof (induction n)
  case 0
  then show ?case using regions by simp
next
  case (Suc n)
  let ?l = "l\<lparr>layout_regions := map (plan_range ls) [0..<n] @ replicate (11 - n) range_zero\<rparr>"
  have len: "length ls = 11" using req by (simp add: ls_def)
  have up: "align_up_nat (unat (layout_alignment l)) (unat (req ! n)) = ls ! n"
    using Suc.prems req by (simp add: ls_def)
  have sum: "sum_list (take (Suc n) ls) = sum_list (take n ls) + ls ! n"
    using Suc.prems len by (simp add: sum_take_Suc)
  have cap: "sum_list (take n ls) + ls ! n \<le> unat (layout_media_capacity l)"
    using sum_take_le [of "Suc n" ls] fits unfolding sum by simp
  then have bound: "sum_list (take n ls) + ls ! n < 2 ^ 64"
    using unat_bound [of "layout_media_capacity l"] by simp
  have "req ! n \<noteq> 0" using req Suc.prems nth_mem [of n req] by fastforce
  moreover have "(map (plan_range ls) [0..<n] @ replicate (11 - n) range_zero)[n := plan_range ls n] =
      map (plan_range ls) [0..<Suc n] @ replicate (11 - Suc n) range_zero"
    using Suc.prems Suc_diff_le [of n 10] by (simp add: list_update_append)
  moreover have "\<not> layout_media_capacity l < of_nat (sum_list (take n ls) + ls ! n)"
    using cap bound by (simp add: word_less_nat_alt unat_of_nat_small del: of_nat_add)
  ultimately have "append_step req n (?l, of_nat (sum_list (take n ls))) =
      Inr (l\<lparr>layout_regions := map (plan_range ls) [0..<Suc n] @ replicate (11 - Suc n) range_zero\<rparr>,
           of_nat (sum_list (take n ls) + ls ! n))"
    using Suc.prems bound pow
    by (simp add: append_step_def layout_append_def align_up_u64_eq up add_u64_eq unat_of_nat_small
        nth_append range_zero_def plan_range_def del: of_nat_add)
  then show ?case
    unfolding sum using Suc by (simp add: fold_result_append)
qed

text \<open>The layout of an input whose aligned sizes fit.\<close>

definition plan_lengths :: "RibonUpdateLayoutInput \<Rightarrow> nat list" where
  "plan_lengths i = (aligned_sizes i)
     [10 := unat (input_media_capacity i) - sum_list (take 10 (aligned_sizes i))]"

definition plan_layout :: "RibonUpdateLayoutInput \<Rightarrow> RibonUpdateLayout" where
  "plan_layout i = layout_zero
     \<lparr>layout_size := 360, layout_abi_version := UPDATE_ABI_VERSION, layout_region_count := 11,
      layout_media_capacity := input_media_capacity i, layout_alignment := input_alignment i,
      layout_regions := map (plan_range (plan_lengths i)) [0..<11]\<rparr>"

lemma plan_layout_simps:
  "layout_media_capacity (plan_layout i) = input_media_capacity i"
  "layout_alignment (plan_layout i) = input_alignment i"
  "layout_regions (plan_layout i) = map (plan_range (plan_lengths i)) [0..<11]"
  by (simp_all add: plan_layout_def)

lemma length_requested [simp]: "length (requested_sizes i) = 11"
  by (simp add: requested_sizes_def)

lemma length_aligned [simp]: "length (aligned_sizes i) = 11" "length (plan_lengths i) = 11"
  by (simp_all add: aligned_sizes_def plan_lengths_def)

lemma sum_take_all: "length xs = Suc n \<Longrightarrow> sum_list xs = sum_list (take n xs) + xs ! n"
  for xs :: "nat list"
  using sum_take_Suc [of n xs] by simp

lemma requested_nonzero: "input_is_valid i \<Longrightarrow> 0 \<notin> set (requested_sizes i)"
  by (auto simp: input_is_valid_def requested_sizes_def)

lemma aligned_dvd: "v \<in> set (aligned_sizes i) \<Longrightarrow> unat (input_alignment i) dvd v"
  by (auto simp: aligned_sizes_def align_up_nat_dvd)

lemma aligned_ge:
  "input_is_valid i \<Longrightarrow> k < 11 \<Longrightarrow> unat (requested_sizes i ! k) \<le> aligned_sizes i ! k"
  by (simp add: aligned_sizes_def align_up_nat_ge power_of_two_pos input_is_valid_def)

lemma dvd_sum_take: "(\<And>v. v \<in> set xs \<Longrightarrow> (n :: nat) dvd v) \<Longrightarrow> n dvd sum_list (take k xs)"
  by (induction xs arbitrary: k) (auto simp: take_Cons' intro: dvd_add)

lemma plan_lengths_facts:
  assumes i: "input_is_valid i" and fits: "sum_list (aligned_sizes i) \<le> unat (input_media_capacity i)"
    and dvd: "unat (input_alignment i) dvd unat (input_media_capacity i)"
  shows "sum_list (plan_lengths i) = unat (input_media_capacity i)"
    and "v \<in> set (plan_lengths i) \<Longrightarrow> unat (input_alignment i) dvd v"
    and "k < 11 \<Longrightarrow> aligned_sizes i ! k \<le> plan_lengths i ! k"
proof -
  have split: "sum_list (take 10 (aligned_sizes i)) + aligned_sizes i ! 10 \<le> unat (input_media_capacity i)"
    using fits sum_take_all [of "aligned_sizes i" 10] by simp
  have "take 10 (plan_lengths i) = take 10 (aligned_sizes i)"
    by (simp add: plan_lengths_def)
  then show "sum_list (plan_lengths i) = unat (input_media_capacity i)"
    using split sum_take_all [of "plan_lengths i" 10] by (simp add: plan_lengths_def)
  have "unat (input_alignment i) dvd sum_list (take 10 (aligned_sizes i))"
    by (rule dvd_sum_take) (rule aligned_dvd)
  then show "v \<in> set (plan_lengths i) \<Longrightarrow> unat (input_alignment i) dvd v"
    using dvd aligned_dvd set_update_subset_insert
    unfolding plan_lengths_def by (metis dvd_diff_nat in_mono insert_iff)
  show "k < 11 \<Longrightarrow> aligned_sizes i ! k \<le> plan_lengths i ! k"
    using split by (cases "k = 10") (simp_all add: plan_lengths_def)
qed

lemma plan_layout_lengths:
  assumes "input_is_valid i" "sum_list (aligned_sizes i) \<le> unat (input_media_capacity i)"
    "unat (input_alignment i) dvd unat (input_media_capacity i)"
  shows "lengths (plan_layout i) = plan_lengths i"
proof -
  have "unat (of_nat (plan_lengths i ! k) :: u64) = plan_lengths i ! k" if "k < 11" for k
  proof (rule unat_of_nat_small)
    show "plan_lengths i ! k < 2 ^ 64"
      using plan_lengths_facts(1) [OF assms] elem_le_sum_list [of k "plan_lengths i"] that
        unat_bound [of "input_media_capacity i"] by simp
  qed
  then show ?thesis
    by (auto simp: lengths_def plan_layout_def plan_range_def intro!: nth_equalityI)
qed

lemma plan_layout_wf:
  assumes i: "input_is_valid i" and fits: "sum_list (aligned_sizes i) \<le> unat (input_media_capacity i)"
    and dvd: "unat (input_alignment i) dvd unat (input_media_capacity i)"
  shows "layout_wf (plan_layout i)"
proof -
  note plan = plan_lengths_facts [OF assms] and lens = plan_layout_lengths [OF assms]
  have ok: "region_ok (plan_layout i) k" if k: "k < 11" for k
  proof -
    have total: "sum_list (take (Suc k) (plan_lengths i)) \<le> unat (input_media_capacity i)"
      using sum_take_le [of "Suc k" "plan_lengths i"] plan(1) by simp
    have offset: "unat (of_nat (sum_list (take k (plan_lengths i))) :: u64) =
        sum_list (take k (plan_lengths i))"
      using total k unat_bound [of "input_media_capacity i"]
      by (intro unat_of_nat_small) (simp add: sum_take_Suc)
    have len: "unat (of_nat (plan_lengths i ! k) :: u64) = plan_lengths i ! k"
      using total k unat_bound [of "input_media_capacity i"]
      by (intro unat_of_nat_small) (simp add: sum_take_Suc)
    have "0 < unat (requested_sizes i ! k)"
      using requested_nonzero [OF i] k nth_mem [of k "requested_sizes i"]
      by (metis length_requested unat_gt_0)
    then have "plan_lengths i ! k \<noteq> 0"
      using aligned_ge [OF i k] plan(3) [OF k] by linarith
    then have "(of_nat (plan_lengths i ! k) :: u64) \<noteq> 0" using len by (metis unat_0)
    moreover have "unat (input_alignment i) dvd sum_list (take k (plan_lengths i))"
      by (rule dvd_sum_take) (rule plan(2))
    ultimately show ?thesis
      using k total plan(2) [of "plan_lengths i ! k"]
      by (simp add: region_ok_def lens plan_layout_simps plan_range_def offset len)
  qed
  have "1024 \<le> plan_lengths i ! 8"
    using aligned_ge [OF i, of 8] plan(3) [of 8] i
    by (simp add: input_is_valid_def requested_sizes_def word_le_nat_alt)
  moreover have "plan_lengths i ! 4 = plan_lengths i ! 6"
    by (simp add: plan_lengths_def aligned_sizes_def requested_sizes_def)
  ultimately show ?thesis
    using i ok plan(1)
    by (simp add: layout_wf_def lens) (simp add: plan_layout_def layout_zero_def input_is_valid_def reserved_zero_def list_all_iff)
qed

lemma calculate_plan:
  assumes i: "input_is_valid i" and fits: "sum_list (aligned_sizes i) \<le> unat (input_media_capacity i)"
    and dvd: "unat (input_alignment i) dvd unat (input_media_capacity i)"
  defines "trailing \<equiv> input_media_capacity i - of_nat (sum_list (take 10 (aligned_sizes i)))"
  shows "fold_result (append_step ((requested_sizes i)[10 := trailing])) [0..<11]
    (plan_layout i\<lparr>layout_regions := replicate 11 range_zero\<rparr>, 0) =
    Inr (plan_layout i, input_media_capacity i)"
proof -
  let ?l = "plan_layout i\<lparr>layout_regions := replicate 11 range_zero\<rparr>"
  let ?up = "\<lambda>v. align_up_nat (unat (layout_alignment ?l)) (unat v)"
  note plan = plan_lengths_facts [OF i fits dvd]
  have pow: "power_of_two (input_alignment i)" using i by (simp add: input_is_valid_def)
  have last: "plan_lengths i ! 10 = unat (input_media_capacity i) - sum_list (take 10 (aligned_sizes i))"
    by (simp add: plan_lengths_def)
  have small: "sum_list (take 10 (aligned_sizes i)) \<le> unat (input_media_capacity i)"
    using fits sum_take_le [of 10 "aligned_sizes i"] by simp
  then have un: "unat (of_nat (sum_list (take 10 (aligned_sizes i))) :: u64) = sum_list (take 10 (aligned_sizes i))"
    using unat_bound [of "input_media_capacity i"] by (intro unat_of_nat_small) simp
  have tr: "unat trailing = plan_lengths i ! 10"
    unfolding trailing_def last using small un by (simp add: unat_sub word_le_nat_alt)
  have "align_up_nat (unat (input_alignment i)) (plan_lengths i ! 10) = plan_lengths i ! 10"
    by (rule align_up_multiple [OF power_of_two_pos [OF pow] plan(2)]) simp
  then have lens: "map ?up ((requested_sizes i)[10 := trailing]) = plan_lengths i"
    using tr by (simp add: map_update plan_layout_def plan_lengths_def aligned_sizes_def)
  have "0 < unat (requested_sizes i ! 10)"
    using i by (simp add: input_is_valid_def requested_sizes_def unat_gt_0)
  then have "trailing \<noteq> 0"
    using aligned_ge [OF i, of 10] plan(3) [of 10] tr by auto
  then have nz: "0 \<notin> set ((requested_sizes i)[10 := trailing])"
    using requested_nonzero [OF i] set_update_subset_insert [of "requested_sizes i" 10 trailing] by auto
  show ?thesis
    using append_loop_eq [of ?l "(requested_sizes i)[10 := trailing]" 11, unfolded lens] pow nz plan(1)
    by (simp add: plan_layout_def)
qed

lemma calculate_eq:
  assumes i: "input_is_valid i"
  shows "ribon_update_layout_calculate (Some i) True =
    (if 2 ^ 64 \<le> sum_list (aligned_sizes i) then (US_OVERFLOW, layout_zero)
     else if unat (input_media_capacity i) < sum_list (aligned_sizes i) then (US_CAPACITY, layout_zero)
     else if \<not> unat (input_alignment i) dvd unat (input_media_capacity i) then (US_ALIGNMENT, layout_zero)
     else (US_OK, (plan_layout i)\<lparr>layout_identity_digest :=
             ribon_security_sha256 (snd (ribon_update_layout_identity_encode (Some (plan_layout i)) True)) 512\<rparr>))"
proof -
  have pow: "power_of_two (input_alignment i)" using i by (simp add: input_is_valid_def)
  let ?need = "sum_list (aligned_sizes i)" and ?ten = "sum_list (take 10 (aligned_sizes i))"
  have loop: "fold_result (prefix_step (input_alignment i) (requested_sizes i)) [0..<11] (0, 0) =
      (if ?need < 2 ^ 64 then Inr (of_nat ?need, of_nat (aligned_sizes i ! 10)) else Inl US_OVERFLOW)"
    using prefix_loop_eq [OF pow, of 11 "requested_sizes i"] by (simp add: aligned_sizes_def)
  have need: "?need = ?ten + aligned_sizes i ! 10" by (rule sum_take_all) simp
  have diff: "(of_nat ?need :: u64) - of_nat (aligned_sizes i ! 10) = of_nat ?ten"
    unfolding need by simp
  have less: "input_media_capacity i < of_nat ?need \<longleftrightarrow> unat (input_media_capacity i) < ?need"
    if "?need < 2 ^ 64"
    using that by (simp add: word_less_nat_alt unat_of_nat_small)
  have mask: "(input_media_capacity i - of_nat ?ten) AND (input_alignment i - 1) \<noteq> 0 \<longleftrightarrow>
      \<not> unat (input_alignment i) dvd unat (input_media_capacity i)"
    if fits: "?need \<le> unat (input_media_capacity i)"
  proof -
    have ten: "?ten \<le> unat (input_media_capacity i)" using fits need by simp
    then have "unat (of_nat ?ten :: u64) = ?ten"
      using unat_bound [of "input_media_capacity i"] by (intro unat_of_nat_small) simp
    then have "unat (input_media_capacity i - of_nat ?ten) = unat (input_media_capacity i) - ?ten"
      using ten by (simp add: unat_sub word_le_nat_alt)
    moreover have "unat (input_alignment i) dvd ?ten" by (rule dvd_sum_take) (rule aligned_dvd)
    ultimately show ?thesis
      using pow ten by (auto simp: and_mask_eq_0_iff power_of_two_eq intro: dvd_diff_nat dest: dvd_diffD)
  qed
  show ?thesis
  proof (cases "?need < 2 ^ 64 \<and> ?need \<le> unat (input_media_capacity i) \<and>
      unat (input_alignment i) dvd unat (input_media_capacity i)")
    case True
    then have valid: "layout_is_structurally_valid (Some (plan_layout i))"
      using plan_layout_wf [OF i] by (subst layout_valid_iff) (simp_all add: plan_layout_def)
    have start: "layout_zero\<lparr>layout_size := 360, layout_abi_version := UPDATE_ABI_VERSION,
        layout_region_count := 11, layout_media_capacity := input_media_capacity i,
        layout_alignment := input_alignment i\<rparr> = plan_layout i\<lparr>layout_regions := replicate 11 range_zero\<rparr>"
      by (simp add: plan_layout_def layout_zero_def)
    show ?thesis
      using i True less mask calculate_plan [OF i] valid
      unfolding ribon_update_layout_calculate_def Let_def option.sel start loop
      by (simp add: diff ribon_update_layout_identity_encode_def Let_def)
  next
    case False
    then show ?thesis
      using i less mask unfolding ribon_update_layout_calculate_def Let_def option.sel loop
      by (auto simp: diff)
  qed
qed

section \<open>The identity codec\<close>

abbreviation identity_layout :: "nat list" where
  "identity_layout \<equiv>
     [32, 2, 2, 4, 8, 8, 4, 68, 24, 24, 24, 24, 24, 24, 24, 24, 24, 24, 24, 120]"

definition region_bytes :: "RibonUpdateLayoutRegion \<Rightarrow> u8 list" where
  "region_bytes r =
     u32_bytes (range_kind r) @ u32_bytes (range_flags r) @ u64_bytes (range_offset r) @
     u64_bytes (range_length r)"

lemma length_region_bytes [simp]: "length (region_bytes r) = 24"
  by (simp add: region_bytes_def)

lemma blit_blit_append:
  "off + length xs + length ys \<le> length buf \<Longrightarrow>
     blit (off + length xs) ys (blit off xs buf) = blit off (xs @ ys) buf"
  by (simp add: blit_def ac_simps)

lemma store_region_blit:
  assumes "row + 24 \<le> length out"
  shows "layout_store_region r row out = blit row (region_bytes r) out"
proof -
  have "row + 4 = row + length (u32_bytes (range_kind r))"
    "row + 8 = row + length (u32_bytes (range_kind r) @ u32_bytes (range_flags r))"
    "row + 16 = row + length ((u32_bytes (range_kind r) @ u32_bytes (range_flags r)) @ u64_bytes (range_offset r))"
    by simp_all
  then show ?thesis
    using assms unfolding layout_store_region_def Let_def region_bytes_def
    by (simp only: store_u64_blit store_u32_def blit_blit_append) (simp add: store_u64_blit blit_def ac_simps)
qed

lemma region_bytes_load:
  assumes "24 \<le> length row"
  shows "region_bytes (layout_load_region row) = take 24 row"
proof -
  have "take 24 row = take 4 row @ take 4 (drop 4 row) @ take 8 (drop 8 row) @ take 8 (drop 16 row)"
    using take_add [of 4 20 row] take_add [of 4 16 "drop 4 row"] take_add [of 8 8 "drop 8 row"] by simp
  then show ?thesis
    using assms by (simp add: region_bytes_def layout_load_region_def u32_bytes_load u64_bytes_load)
qed

lemma region_load_bytes [simp]: "layout_load_region (region_bytes r @ rest) = r"
  by (simp add: layout_load_region_def region_bytes_def)

lemma laid_store_region:
  assumes "laid ns buf vals" and "field_index ns k = Some i" and "ns ! i = 24"
  shows "laid ns (layout_store_region r k buf) (vals[i := region_bytes r])"
proof -
  have "k + 24 \<le> length buf"
    using field_index_bound [OF assms(2)] assms(1,3) by (simp add: laid_def)
  then show ?thesis using assms by (simp add: store_region_blit laid_blit)
qed

definition identity_fields :: "RibonUpdateLayout \<Rightarrow> u8 list list" where
  "identity_fields l =
     [LAYOUT_MAGIC, u16_bytes 1, u16_bytes 128, u32_bytes 512, u64_bytes (layout_media_capacity l),
      u64_bytes (layout_alignment l), u32_bytes 11, replicate 68 0] @
     map (\<lambda>k. region_bytes (layout_regions l ! k)) [0..<11] @ [replicate 120 0]"

lemma length_layout_magic [simp]: "length LAYOUT_MAGIC = 32"
  by (simp add: LAYOUT_MAGIC_def)

lemma upt_eleven: "[0..<11] = [0, 1, 2, 3, 4, 5, 6, 7, 8, 9, 10 :: nat]"
  by (simp add: upt_rec)

lemma layout_header_laid:
  assumes "layout_region_count l = 11"
  shows "laid identity_layout (layout_header l)
    ((map (\<lambda>n. replicate n 0) identity_layout)
       [0 := LAYOUT_MAGIC, 1 := u16_bytes 1, 2 := u16_bytes 128, 3 := u32_bytes 512,
        4 := u64_bytes (layout_media_capacity l), 5 := u64_bytes (layout_alignment l),
        6 := u32_bytes 11])"
  unfolding layout_header_def Let_def assms by (intro laid_intros) simp_all

definition header_fields :: "RibonUpdateLayout \<Rightarrow> u8 list list" where
  "header_fields l =
     [LAYOUT_MAGIC, u16_bytes 1, u16_bytes 128, u32_bytes 512, u64_bytes (layout_media_capacity l),
      u64_bytes (layout_alignment l), u32_bytes 11, replicate 68 0] @
     replicate 11 (replicate 24 0) @ [replicate 120 0]"

lemma identity_field_index:
  assumes "n < 11"
  shows "field_index identity_layout (128 + n * 24) = Some (8 + n)" and "identity_layout ! (8 + n) = 24"
proof -
  have "list_all (\<lambda>n. field_index identity_layout (128 + n * 24) = Some (8 + n) \<and>
      identity_layout ! (8 + n) = 24) [0, 1, 2, 3, 4, 5, 6, 7, 8, 9, 10]" by simp
  then have "list_all (\<lambda>n. field_index identity_layout (128 + n * 24) = Some (8 + n) \<and>
      identity_layout ! (8 + n) = 24) [0..<11]" by (simp only: upt_eleven)
  moreover have "n \<in> set [0..<11]" using assms by simp
  ultimately show "field_index identity_layout (128 + n * 24) = Some (8 + n)" "identity_layout ! (8 + n) = 24"
    unfolding list_all_iff by blast+
qed

lemma header_laid:
  "layout_region_count l = 11 \<Longrightarrow> laid identity_layout (layout_header l) (header_fields l)"
  using layout_header_laid [of l] by (simp add: header_fields_def numeral_eq_Suc)

lemma identity_rows_laid:
  assumes "layout_region_count l = 11"
  shows "n \<le> 11 \<Longrightarrow> laid identity_layout
    (fold (\<lambda>k. layout_store_region (layout_regions l ! k) (128 + k * 24)) [0..<n] (layout_header l))
    (take 8 (header_fields l) @ map (\<lambda>k. region_bytes (layout_regions l ! k)) [0..<n] @
     drop (8 + n) (header_fields l))"
proof (induction n)
  case 0
  then show ?case using header_laid [OF assms] by (simp add: header_fields_def)
next
  case (Suc n)
  let ?f = "header_fields l" and ?g = "\<lambda>k. region_bytes (layout_regions l ! k)"
  have "length ?f = 20" by (simp add: header_fields_def)
  then have "(take 8 ?f @ map ?g [0..<n] @ drop (8 + n) ?f)[8 + n := ?g n] =
      take 8 ?f @ map ?g [0..<Suc n] @ drop (8 + Suc n) ?f"
    using Suc.prems Cons_nth_drop_Suc [of "8 + n" ?f, symmetric]
    by (simp add: list_update_append)
  then show ?case
    using laid_store_region [OF Suc.IH identity_field_index [of n], of "layout_regions l ! n"] Suc.prems by simp
qed

lemma identity_encode_laid:
  assumes "layout_is_structurally_valid (Some l)"
  shows "fst (ribon_update_layout_identity_encode (Some l) True) = US_OK"
    and "laid identity_layout (snd (ribon_update_layout_identity_encode (Some l) True)) (identity_fields l)"
proof -
  have count: "layout_region_count l = 11"
  proof (rule ccontr)
    assume "layout_region_count l \<noteq> 11"
    then show False using assms by (simp add: layout_is_structurally_valid_def)
  qed
  have enc: "ribon_update_layout_identity_encode (Some l) True =
      (US_OK, fold (\<lambda>k. layout_store_region (layout_regions l ! k) (128 + k * 24)) [0..<11] (layout_header l))"
    using assms unfolding ribon_update_layout_identity_encode_def Let_def option.sel count by simp
  then show "fst (ribon_update_layout_identity_encode (Some l) True) = US_OK" by simp
  have "take 8 (header_fields l) @ map (\<lambda>k. region_bytes (layout_regions l ! k)) [0..<11] @
      drop (8 + 11) (header_fields l) = identity_fields l"
    by (simp add: header_fields_def identity_fields_def)
  then show "laid identity_layout (snd (ribon_update_layout_identity_encode (Some l) True)) (identity_fields l)"
    using identity_rows_laid [OF count, of 11] unfolding enc by simp
qed

text \<open>The sizes of the arrays inside a layout, which the C type fixes.\<close>

definition layout_shape :: "RibonUpdateLayout \<Rightarrow> bool" where
  "layout_shape l \<longleftrightarrow> length (layout_regions l) = 11 \<and> length (layout_identity_digest l) = 32 \<and>
     length (layout_reserved l) = 4"

lemma region_step_digest [simp]: "region_step (l\<lparr>layout_identity_digest := d\<rparr>) = region_step l"
  by (simp add: fun_eq_iff region_step_def Let_def split: option.split)

lemma layout_valid_digest [simp]:
  "layout_is_structurally_valid (Some (l\<lparr>layout_identity_digest := d\<rparr>)) =
   layout_is_structurally_valid (Some l)"
  by (simp add: layout_is_structurally_valid_def split: sum.split)

lemma identity_fields_digest [simp]: "identity_fields (l\<lparr>layout_identity_digest := d\<rparr>) = identity_fields l"
  by (simp add: identity_fields_def)

text \<open>The layout that a buffer describes, before the structural check.\<close>

definition identity_view :: "u8 list \<Rightarrow> RibonUpdateLayout" where
  "identity_view bs = layout_zero
     \<lparr>layout_size := 360, layout_abi_version := UPDATE_ABI_VERSION, layout_region_count := 11,
      layout_media_capacity := load_u64 (drop 40 bs), layout_alignment := load_u64 (drop 48 bs),
      layout_regions := map (\<lambda>index. layout_load_region (drop (128 + index * 24) bs)) [0..<11]\<rparr>"

lemma open_eq:
  assumes len: "length bs = 512"
  shows "ribon_update_layout_identity_open (Some bs) 512 True =
    (if laid identity_layout bs (identity_fields (identity_view bs)) \<and>
        layout_is_structurally_valid (Some (identity_view bs))
     then (US_OK, (identity_view bs)\<lparr>layout_identity_digest := ribon_security_sha256 bs 512\<rparr>)
     else (US_MALFORMED, layout_zero))"
proof -
  have rows: "region_bytes (layout_regions (identity_view bs) ! k) = slice (128 + k * 24) 24 bs" if "k < 11" for k
    using that len by (simp add: identity_view_def region_bytes_load slice_def)
  have cap: "u64_bytes (layout_media_capacity (identity_view bs)) = slice 40 8 bs"
      "u64_bytes (layout_alignment (identity_view bs)) = slice 48 8 bs"
    using len by (simp_all add: identity_view_def slice_u64)
  have "map (\<lambda>k. region_bytes (layout_regions (identity_view bs) ! k)) [0..<11] =
      map (\<lambda>k. slice (128 + k * 24) 24 bs) [0..<11]" using rows by simp
  then have fields: "identity_fields (identity_view bs) =
      [LAYOUT_MAGIC, u16_bytes 1, u16_bytes 128, u32_bytes 512, slice 40 8 bs, slice 48 8 bs,
       u32_bytes 11, replicate 68 0] @ map (\<lambda>k. slice (128 + k * 24) 24 bs) [0..<11] @ [replicate 120 0]"
    by (simp add: identity_fields_def cap)
  have words: "load_u16 (drop k bs) = v \<longleftrightarrow> slice k 2 bs = u16_bytes v" if "k + 2 \<le> 512" for k v
    using that len by (metis load_u16_exact slice_u16)
  have words': "load_u32 (drop k bs) = v \<longleftrightarrow> slice k 4 bs = u32_bytes v" if "k + 4 \<le> 512" for k v
    using that len by (metis load_bytes_exact(1) slice_u32)
  have "laid identity_layout bs (identity_fields (identity_view bs)) \<longleftrightarrow>
      bytes_equal bs LAYOUT_MAGIC 32 \<and> load_u16 (drop 32 bs) = 1 \<and> load_u16 (drop 34 bs) = 128 \<and>
      load_u32 (drop 36 bs) = 512 \<and> load_u32 (drop 56 bs) = 11 \<and>
      bytes_zero (drop 60 bs) 68 \<and> bytes_zero (drop 392 bs) 120"
    unfolding fields laid_def upt_eleven
    using len by (simp add: words words' bytes_equal_slice bytes_zero_drop)
  then show ?thesis
    unfolding ribon_update_layout_identity_open_def Let_def identity_view_def [symmetric] by simp
qed

lemma identity_view_encoded:
  assumes shape: "layout_shape l" and valid: "layout_is_structurally_valid (Some l)"
    and laid: "laid identity_layout bs (identity_fields l)"
  shows "(identity_view bs)\<lparr>layout_identity_digest := layout_identity_digest l\<rparr> = l"
proof -
  have wf: "layout_wf l" using layout_valid_iff valid shape by (simp add: layout_shape_def)
  have len: "length bs = 512" using laid_length [OF laid] by simp
  have field: "slice k (identity_layout ! i) bs = identity_fields l ! i"
    if "field_index identity_layout k = Some i" for k i by (rule laid_slice [OF laid that])
  have row: "layout_load_region (drop (128 + k * 24) bs) = layout_regions l ! k" if k: "k < 11" for k
  proof -
    have "take 24 (drop (128 + k * 24) bs) = region_bytes (layout_regions l ! k)"
      using field [OF identity_field_index(1) [OF k]] identity_field_index(2) [OF k] k
      by (simp add: identity_fields_def slice_def nth_append)
    then show ?thesis
      using region_load_bytes [of "layout_regions l ! k" "drop 24 (drop (128 + k * 24) bs)"]
      by (metis append_take_drop_id)
  qed
  have "load_u64 (drop 40 bs) = layout_media_capacity l" "load_u64 (drop 48 bs) = layout_alignment l"
    using field [of 40 4] field [of 48 5] len
    by (simp_all add: load_u64_drop identity_fields_def)
  moreover have "map (\<lambda>k. layout_load_region (drop (128 + k * 24) bs)) [0..<11] = layout_regions l"
    using shape row by (intro nth_equalityI) (simp_all add: layout_shape_def)
  moreover have "layout_reserved l = replicate 4 0"
    using wf shape by (intro replicate_eqI) (auto simp: layout_wf_def layout_shape_def reserved_zero_def list_all_iff)
  ultimately show ?thesis
    using wf by (simp add: identity_view_def layout_wf_def layout_zero_def)
qed

end
