(* ===== verification/Update_Slots_Facts.thy ===== *)
theory Update_Slots_Facts
  imports Update_Slots Update_Layout_Facts
begin

text \<open>
  Which slot metadata is valid, that every transition keeps it valid, the exact outcome of a
  transition, and that the 512-byte form is canonical.
\<close>

section \<open>Validity\<close>

definition entry_shape :: "RibonUpdateSlotEntry \<Rightarrow> bool" where
  "entry_shape e \<longleftrightarrow> length (entry_manifest_digest e) = 32 \<and> length (entry_image_set_digest e) = 32 \<and>
     length (entry_layout_digest e) = 32 \<and> length (entry_reserved e) = 4"

text \<open>The sizes of the arrays inside the metadata, which the C type fixes.\<close>

definition metadata_shape :: "RibonUpdateSlotMetadata \<Rightarrow> bool" where
  "metadata_shape m \<longleftrightarrow> length (metadata_slots m) = 2 \<and> list_all entry_shape (metadata_slots m) \<and>
     length (metadata_wire_digest m) = 32 \<and> length (metadata_reserved m) = 4"

lemma upt_two: "[0..<2] = [0, 1 :: nat]"
  by (simp add: upt_rec)

lemma slot_id_cases:
  assumes "(s :: u32) < 2"
  obtains "s = 0" | "s = 1"
proof -
  have "unat s < 2" using assms by (simp add: word_less_nat_alt)
  then have "unat s = unat (0 :: u32) \<or> unat s = unat (1 :: u32)" by auto
  then show ?thesis using that by (metis word_unat_eq_iff)
qed

lemma slot_less [simp]: "(0 :: u32) < 2" "(1 :: u32) < 2" "\<not> 2 \<le> (0 :: u32)" "\<not> 2 \<le> (1 :: u32)"
  by (simp_all add: word_less_nat_alt word_le_nat_alt)

lemma slot_none [simp]:
  "(0 :: u32) \<noteq> SLOT_NONE" "(1 :: u32) \<noteq> SLOT_NONE" "SLOT_NONE \<noteq> (0 :: u32)" "SLOT_NONE \<noteq> (1 :: u32)"
  "\<not> SLOT_NONE < (2 :: u32)"
  by (simp_all add: word_less_nat_alt unat_minus_one_eq)

definition slot_state :: "RibonUpdateSlotMetadata \<Rightarrow> u32 \<Rightarrow> u32" where
  "slot_state m s = entry_state (metadata_slots m ! unat s)"

definition slot_ok :: "RibonUpdateSlotMetadata \<Rightarrow> u32 \<Rightarrow> bool" where
  "slot_ok m s \<longleftrightarrow> slot_entry_is_valid (Some (metadata_slots m ! unat s)) s (metadata_generation m)"

definition metadata_wf :: "RibonUpdateSlotMetadata \<Rightarrow> bool" where
  "metadata_wf m \<longleftrightarrow>
     metadata_size m = 416 \<and> metadata_abi_version m = UPDATE_ABI_VERSION \<and> metadata_flags m = 0 \<and>
     metadata_slot_count m = 2 \<and> metadata_generation m \<noteq> 0 \<and> active_slot m < 2 \<and>
     slot_state m (active_slot m) = SLOT_CONFIRMED \<and> reserved_zero (metadata_reserved m) \<and>
     slot_ok m 0 \<and> slot_ok m 1 \<and> (pending_slot m = SLOT_NONE \<or> pending_slot m < 2) \<and>
     (slot_state m 0 = SLOT_PENDING \<longleftrightarrow> pending_slot m = 0) \<and>
     (slot_state m 1 = SLOT_PENDING \<longleftrightarrow> pending_slot m = 1)"

lemma metadata_loop_eq:
  "fold_result (metadata_slot_step m) [0..<2] 0 =
   (if slot_ok m 0 \<and> slot_ok m 1
    then Inr (of_bool (slot_state m 0 = SLOT_PENDING) + of_bool (slot_state m 1 = SLOT_PENDING)) else Inl ())"
  by (simp add: upt_two metadata_slot_step_def slot_ok_def slot_state_def)

lemma metadata_valid_iff: "metadata_is_valid (Some m) \<longleftrightarrow> metadata_wf m"
proof (cases "active_slot m < 2 \<and> (pending_slot m = SLOT_NONE \<or> pending_slot m < 2)")
  case True
  from True have "active_slot m < 2" by simp
  then show ?thesis
  proof (cases rule: slot_id_cases)
    case 1
    show ?thesis
    proof (cases "pending_slot m = SLOT_NONE")
      case False
      then have "pending_slot m < 2" using True by simp
      then show ?thesis
        by (cases rule: slot_id_cases)
          (use 1 in \<open>auto simp: metadata_is_valid_def metadata_wf_def metadata_loop_eq slot_state_def\<close>)
    qed (use 1 in \<open>auto simp: metadata_is_valid_def metadata_wf_def metadata_loop_eq slot_state_def of_bool_def\<close>)
  next
    case 2
    show ?thesis
    proof (cases "pending_slot m = SLOT_NONE")
      case False
      then have "pending_slot m < 2" using True by simp
      then show ?thesis
        by (cases rule: slot_id_cases)
          (use 2 in \<open>auto simp: metadata_is_valid_def metadata_wf_def metadata_loop_eq slot_state_def\<close>)
    qed (use 2 in \<open>auto simp: metadata_is_valid_def metadata_wf_def metadata_loop_eq slot_state_def of_bool_def\<close>)
  qed
next
  case False
  then show ?thesis by (auto simp: metadata_is_valid_def metadata_wf_def not_less)
qed

lemma entry_valid_iff:
  "slot_entry_is_valid (Some e) s g \<longleftrightarrow>
     entry_slot_id e = s \<and> entry_flags e = 0 \<and> entry_state e \<le> SLOT_BAD \<and>
     entry_boot_attempts e \<le> MAX_BOOT_ATTEMPTS \<and> reserved_zero (entry_reserved e) \<and>
     (if entry_state e = SLOT_EMPTY
      then entry_metadata_generation e = 0 \<and> entry_image_generation e = 0 \<and> entry_boot_attempts e = 0 \<and>
           bytes_zero (entry_manifest_digest e) 32 \<and> bytes_zero (entry_image_set_digest e) 32 \<and>
           bytes_zero (entry_layout_digest e) 32
      else entry_metadata_generation e \<noteq> 0 \<and> entry_metadata_generation e \<le> g \<and>
           entry_image_generation e \<noteq> 0 \<and> \<not> bytes_zero (entry_manifest_digest e) 32 \<and>
           \<not> bytes_zero (entry_image_set_digest e) 32 \<and> \<not> bytes_zero (entry_layout_digest e) 32 \<and>
           (entry_boot_attempts e \<noteq> 0 \<longleftrightarrow> entry_state e = SLOT_PENDING))"
  by (auto simp: slot_entry_is_valid_def Let_def not_less)

section \<open>Transitions\<close>

text \<open>The conditions under which a transition is carried out.\<close>

definition transition_enabled :: "RibonUpdateSlotMetadata \<Rightarrow> RibonUpdateSlotTransition \<Rightarrow> bool" where
  "transition_enabled m t \<longleftrightarrow>
     \<not> transition_rejected (Some m) (Some t) True \<and>
     (transition_next_state t = SLOT_PENDING \<longrightarrow> transition_boot_attempts t \<noteq> 0 \<and> pending_slot m = SLOT_NONE) \<and>
     (transition_next_state t \<noteq> SLOT_PENDING \<longrightarrow> transition_boot_attempts t = 0) \<and>
     (transition_next_state t \<noteq> SLOT_STAGING \<longrightarrow>
        transition_identity_matches (metadata_slots m ! unat (transition_slot_id t)) t)"

lemma bytes_zero_take: "bytes_zero (take 32 bs) 32 = bytes_zero bs 32"
  by (simp add: bytes_zero_def)

lemma entry_valid_mono:
  "slot_entry_is_valid (Some e) s g \<Longrightarrow> g \<noteq> UINT64_MAX \<Longrightarrow> slot_entry_is_valid (Some e) s (g + 1)"
  unfolding entry_valid_iff by (auto simp: word_le_nat_alt unat_plus_one split: if_splits)

lemma transition_entry_valid:
  assumes valid: "slot_entry_is_valid (Some e) s g" and g: "g \<noteq> UINT64_MAX"
    and allowed: "transition_is_allowed (entry_state e) (transition_next_state t)"
    and attempts: "transition_boot_attempts t \<le> MAX_BOOT_ATTEMPTS"
      "transition_boot_attempts t \<noteq> 0 \<longleftrightarrow> transition_next_state t = SLOT_PENDING"
    and image: "transition_image_generation t \<noteq> 0" "\<not> bytes_zero (transition_manifest_digest t) 32"
      "\<not> bytes_zero (transition_image_set_digest t) 32" "\<not> bytes_zero (transition_layout_digest t) 32"
  shows "slot_entry_is_valid (Some (transition_entry (g + 1) t e)) s (g + 1)"
proof -
  have states: "transition_next_state t \<noteq> SLOT_EMPTY" "transition_next_state t \<le> SLOT_BAD"
    using allowed by (auto simp: transition_is_allowed_def word_le_nat_alt split: if_splits)
  have "g + 1 \<noteq> 0" using unat_plus_one [OF g] by auto
  moreover have "entry_state e \<noteq> SLOT_EMPTY" if "transition_next_state t \<noteq> SLOT_STAGING"
    using allowed that by (auto simp: transition_is_allowed_def)
  ultimately show ?thesis
    using valid states attempts image
    by (cases "transition_next_state t = SLOT_STAGING")
      (auto simp: entry_valid_iff transition_entry_def Let_def bytes_zero_take)
qed

lemma enabled_facts:
  assumes "transition_enabled m t"
  shows "metadata_wf m" "transition_slot_id t < 2" "transition_slot_id t \<noteq> active_slot m"
    "metadata_generation m \<noteq> UINT64_MAX"
    "transition_is_allowed (slot_state m (transition_slot_id t)) (transition_next_state t)"
    "transition_boot_attempts t \<le> MAX_BOOT_ATTEMPTS"
    "transition_boot_attempts t \<noteq> 0 \<longleftrightarrow> transition_next_state t = SLOT_PENDING"
    "transition_next_state t = SLOT_PENDING \<Longrightarrow> pending_slot m = SLOT_NONE"
    "transition_image_generation t \<noteq> 0" "\<not> bytes_zero (transition_manifest_digest t) 32"
    "\<not> bytes_zero (transition_image_set_digest t) 32" "\<not> bytes_zero (transition_layout_digest t) 32"
  using assms
  by (auto simp: transition_enabled_def transition_rejected_def metadata_valid_iff Let_def slot_state_def not_less)

lemma transition_apply_simps:
  "metadata_size (transition_apply m t) = metadata_size m"
  "metadata_abi_version (transition_apply m t) = metadata_abi_version m"
  "metadata_flags (transition_apply m t) = metadata_flags m"
  "metadata_slot_count (transition_apply m t) = metadata_slot_count m"
  "metadata_reserved (transition_apply m t) = metadata_reserved m"
  "metadata_generation (transition_apply m t) = metadata_generation m + 1"
  "metadata_slots (transition_apply m t) = (metadata_slots m)[unat (transition_slot_id t) :=
     transition_entry (metadata_generation m + 1) t (metadata_slots m ! unat (transition_slot_id t))]"
  "active_slot (transition_apply m t) =
     (if transition_next_state t = SLOT_CONFIRMED then transition_slot_id t else active_slot m)"
  "pending_slot (transition_apply m t) =
     (if transition_next_state t = SLOT_PENDING then transition_slot_id t
      else if transition_next_state t = SLOT_CONFIRMED \<or> transition_next_state t = SLOT_BAD then SLOT_NONE
      else pending_slot m)"
  "metadata_wire_digest (transition_apply m t) = replicate 32 0"
  by (simp_all add: transition_apply_def Let_def)

lemma transition_entry_simps:
  "entry_state (transition_entry g t e) = transition_next_state t"
  "entry_boot_attempts (transition_entry g t e) = transition_boot_attempts t"
  "entry_reserved (transition_entry g t e) = entry_reserved e"
  by (simp_all add: transition_entry_def Let_def)

lemma slot_ok_apply:
  assumes en: "transition_enabled m t" and len: "length (metadata_slots m) = 2" and s: "s < 2"
  shows "slot_ok (transition_apply m t) s"
proof -
  note f = enabled_facts [OF en]
  have ok: "slot_ok m s" using f(1) s by (auto simp: metadata_wf_def elim: slot_id_cases)
  have "unat s < length (metadata_slots m)" using s len by (simp add: word_less_nat_alt)
  then have slots: "metadata_slots (transition_apply m t) ! unat s =
      (if s = transition_slot_id t
       then transition_entry (metadata_generation m + 1) t (metadata_slots m ! unat s)
       else metadata_slots m ! unat s)"
    by (simp add: transition_apply_simps nth_list_update word_unat_eq_iff)
  show ?thesis
  proof (cases "s = transition_slot_id t")
    case True
    show ?thesis
      unfolding slot_ok_def slots transition_apply_simps(6) if_P [OF True]
      by (rule transition_entry_valid)
        (use ok f(4-7,9-12) True in \<open>simp_all add: slot_ok_def slot_state_def\<close>)
  next
    case False
    then show ?thesis
      using ok entry_valid_mono f(4) by (simp add: slot_ok_def slots transition_apply_simps(6))
  qed
qed

lemma slot_state_apply:
  assumes "transition_enabled m t" and "length (metadata_slots m) = 2" and "s < 2"
  shows "slot_state (transition_apply m t) s =
    (if s = transition_slot_id t then transition_next_state t else slot_state m s)"
  using assms
  by (auto simp: slot_state_def transition_apply_simps transition_entry_simps nth_list_update
      word_unat_eq_iff word_less_nat_alt)

lemma transition_apply_wf:
  assumes en: "transition_enabled m t" and len: "length (metadata_slots m) = 2"
  shows "metadata_wf (transition_apply m t)"
proof -
  note f = enabled_facts [OF en] and state = slot_state_apply [OF en len]
  have gen: "metadata_generation m + 1 \<noteq> 0" using unat_plus_one [OF f(4)] by auto
  have confirmed: "slot_state m (active_slot m) = SLOT_CONFIRMED" "active_slot m < 2"
    using f(1) by (simp_all add: metadata_wf_def)
  have "transition_next_state t \<noteq> SLOT_PENDING \<Longrightarrow>
      slot_state m (transition_slot_id t) = SLOT_PENDING \<Longrightarrow>
      transition_next_state t = SLOT_CONFIRMED \<or> transition_next_state t = SLOT_BAD"
    using f(5) by (simp add: transition_is_allowed_def)
  note more = this
  show ?thesis
    using f(2)
  proof (cases rule: slot_id_cases)
    case 1
    then have "active_slot m = 1" using f(3) confirmed(2) by (auto elim: slot_id_cases)
    then show ?thesis
      using f(1,8) 1 gen confirmed more slot_ok_apply [OF en len] state
      by (auto simp: metadata_wf_def transition_apply_simps)
  next
    case 2
    then have "active_slot m = 0" using f(3) confirmed(2) by (auto elim: slot_id_cases)
    then show ?thesis
      using f(1,8) 2 gen confirmed more slot_ok_apply [OF en len] state
      by (auto simp: metadata_wf_def transition_apply_simps)
  qed
qed

text \<open>What the function returns: the checks after the update never fail.\<close>

definition sealed :: "RibonUpdateSlotMetadata \<Rightarrow> RibonUpdateSlotMetadata" where
  "sealed m = m\<lparr>metadata_wire_digest :=
     ribon_security_sha256 (snd (ribon_update_slot_metadata_encode (Some m) True)) 384\<rparr>"

lemma transition_ok:
  assumes en: "transition_enabled m t" and len: "length (metadata_slots m) = 2"
  shows "ribon_update_slot_metadata_transition (Some m) (Some t) True =
    (US_OK, sealed (transition_apply m t))"
proof -
  have "metadata_is_valid (Some (transition_apply m t))"
    using transition_apply_wf [OF assms] by (simp add: metadata_valid_iff)
  then show ?thesis
    using en by (auto simp: ribon_update_slot_metadata_transition_def transition_enabled_def Let_def
        ribon_update_slot_metadata_encode_def sealed_def)
qed

lemma transition_ok_iff:
  assumes "length (metadata_slots m) = 2"
  shows "fst (ribon_update_slot_metadata_transition (Some m) (Some t) True) = US_OK \<longleftrightarrow> transition_enabled m t"
proof
  assume "fst (ribon_update_slot_metadata_transition (Some m) (Some t) True) = US_OK"
  then show "transition_enabled m t"
    by (auto simp: ribon_update_slot_metadata_transition_def transition_enabled_def Let_def split: if_splits)
qed (simp add: transition_ok assms)

end
