(* ===== verification/Update_Slots_Codec.thy ===== *)
theory Update_Slots_Codec
  imports Update_Slots_Facts
begin

text \<open>
  The 512-byte form of the slot metadata is canonical: what opens is the encoding of what it opens to.
\<close>

section \<open>Digests depend on the bytes they cover\<close>

lemma slice_cong: "take n xs = take n ys \<Longrightarrow> k + c \<le> n \<Longrightarrow> slice k c xs = slice k c ys"
proof -
  assume eq: "take n xs = take n ys" and le: "k + c \<le> n"
  have "take (c + k) (take n xs) = take (c + k) (take n ys)" unfolding eq by (rule refl)
  then have "take (c + k) xs = take (c + k) ys" using le by (simp add: min_def add.commute)
  then show ?thesis by (simp add: slice_def take_drop)
qed

lemma update_loop_cong:
  assumes "take n xs = take n ys"
  shows "update_loop context xs n k = update_loop context ys n k"
  using assms
proof (induction "context" xs n k rule: update_loop.induct)
  case (1 "context" xs n k)
  let ?c = "min (64 - sha_used context) (n - k)"
  show ?case
  proof (cases "k < n \<and> sha_used context < 64")
    case True
    have slices: "slice k ?c xs = slice k ?c ys"
      using True by (intro slice_cong [OF "1.prems"]) auto
    have "update_loop (update_step context (slice k ?c xs)) xs n (k + ?c) =
        update_loop (update_step context (slice k ?c xs)) ys n (k + ?c)"
      by (rule "1.IH" [OF True refl "1.prems"])
    then show ?thesis
      using True unfolding update_loop.simps [of "context" xs] update_loop.simps [of "context" ys] Let_def slices
      by simp
  next
    case False
    show ?thesis
      unfolding update_loop.simps [of "context" xs] update_loop.simps [of "context" ys] if_not_P [OF False]
      by (rule refl)
  qed
qed

lemma sha256_cong: "take n xs = take n ys \<Longrightarrow> ribon_security_sha256 xs n = ribon_security_sha256 ys n"
  by (simp add: ribon_security_sha256_def update_def update_loop_cong [of n xs ys])

section \<open>Fields\<close>

abbreviation metadata_layout :: "nat list" where
  "metadata_layout \<equiv>
     [32, 2, 2, 4, 8, 4, 4, 4, 4,
      4, 4, 8, 8, 32, 32, 32, 4, 4, 32,
      4, 4, 8, 8, 32, 32, 32, 4, 4, 32, 32, 4, 92]"

definition entry_fields :: "RibonUpdateSlotEntry \<Rightarrow> u8 list list" where
  "entry_fields e =
     [u32_bytes (entry_slot_id e), u32_bytes (entry_state e), u64_bytes (entry_metadata_generation e),
      u64_bytes (entry_image_generation e), entry_manifest_digest e, entry_image_set_digest e,
      entry_layout_digest e, u32_bytes (entry_boot_attempts e), u32_bytes (entry_flags e), replicate 32 0]"

definition metadata_fields :: "RibonUpdateSlotMetadata \<Rightarrow> u8 list \<Rightarrow> u8 list \<Rightarrow> u8 list list" where
  "metadata_fields m digest crc =
     [METADATA_MAGIC, u16_bytes 1, u16_bytes 64, u32_bytes 512, u64_bytes (metadata_generation m),
      u32_bytes (active_slot m), u32_bytes (pending_slot m), u32_bytes (metadata_slot_count m),
      replicate 4 0] @ entry_fields (metadata_slots m ! 0) @ entry_fields (metadata_slots m ! 1) @
     [digest, crc, replicate 92 0]"

lemma length_metadata_magic [simp]: "length METADATA_MAGIC = 32"
  by (simp add: METADATA_MAGIC_def)

lemma metadata_body_laid:
  assumes "entry_shape (metadata_slots m ! 0)" and "entry_shape (metadata_slots m ! 1)"
  shows "laid metadata_layout (metadata_body m) (metadata_fields m (replicate 32 0) (replicate 4 0))"
proof -
  let ?a = "metadata_slots m ! 0" and ?b = "metadata_slots m ! 1"
  have "laid metadata_layout (metadata_body m)
      ((map (\<lambda>n. replicate n 0) metadata_layout)
        [0 := METADATA_MAGIC, 1 := u16_bytes 1, 2 := u16_bytes 64, 3 := u32_bytes 512,
         4 := u64_bytes (metadata_generation m), 5 := u32_bytes (active_slot m),
         6 := u32_bytes (pending_slot m), 7 := u32_bytes (metadata_slot_count m),
         9 := u32_bytes (entry_slot_id ?a), 10 := u32_bytes (entry_state ?a),
         11 := u64_bytes (entry_metadata_generation ?a), 12 := u64_bytes (entry_image_generation ?a),
         13 := take 32 (entry_manifest_digest ?a), 14 := take 32 (entry_image_set_digest ?a),
         15 := take 32 (entry_layout_digest ?a),
         16 := u32_bytes (entry_boot_attempts ?a), 17 := u32_bytes (entry_flags ?a),
         19 := u32_bytes (entry_slot_id ?b), 20 := u32_bytes (entry_state ?b),
         21 := u64_bytes (entry_metadata_generation ?b), 22 := u64_bytes (entry_image_generation ?b),
         23 := take 32 (entry_manifest_digest ?b), 24 := take 32 (entry_image_set_digest ?b),
         25 := take 32 (entry_layout_digest ?b),
         26 := u32_bytes (entry_boot_attempts ?b), 27 := u32_bytes (entry_flags ?b)])"
    unfolding metadata_body_def metadata_store_slot_def Let_def upt_two fold_simps id_apply
      mult_zero_left add_0_right mult_1
    by (intro laid_intros) (use assms in \<open>simp_all add: entry_shape_def\<close>)
  then show ?thesis using assms by (simp add: metadata_fields_def entry_fields_def entry_shape_def)
qed

section \<open>Encoding\<close>

definition metadata_bytes :: "RibonUpdateSlotMetadata \<Rightarrow> u8 list" where
  "metadata_bytes m = snd (ribon_update_slot_metadata_encode (Some m) True)"

text \<open>The digest and the checksum of a buffer, as fields.\<close>

abbreviation seal_digest :: "u8 list \<Rightarrow> u8 list" where
  "seal_digest bs \<equiv> ribon_security_sha256 bs 384"

abbreviation seal_crc :: "u8 list \<Rightarrow> u8 list" where
  "seal_crc bs \<equiv> u32_bytes (crc32c bs 416)"

lemma metadata_shapeD:
  "metadata_shape m \<Longrightarrow> entry_shape (metadata_slots m ! 0)"
  "metadata_shape m \<Longrightarrow> entry_shape (metadata_slots m ! 1)"
  "metadata_shape m \<Longrightarrow> length (metadata_slots m) = 2"
  by (auto simp: metadata_shape_def list_all_length)

lemma seal_laid:
  assumes laid: "laid metadata_layout body (metadata_fields m (replicate 32 0) (replicate 4 0))"
    and out: "out = (let out = blit 384 (seal_digest body) body in store_u32 416 (crc32c out 416) out)"
  shows "laid metadata_layout out (metadata_fields m (seal_digest out) (seal_crc out))"
proof -
  let ?mid = "blit 384 (seal_digest body) body"
  have len: "length body = 512" using laid_length [OF laid] by simp
  have out': "out = blit 416 (u32_bytes (crc32c ?mid 416)) ?mid"
    unfolding out Let_def store_u32_def by (rule refl)
  have "take 384 out = take 384 body" unfolding out' using len by (simp add: take_blit)
  then have d: "seal_digest out = seal_digest body" by (rule sha256_cong)
  have "take 416 out = take 416 ?mid" unfolding out' using len by (simp add: take_blit)
  then have c: "crc32c out 416 = crc32c ?mid 416" by (rule crc32c_cong)
  have "laid metadata_layout ?mid ((metadata_fields m (replicate 32 0) (replicate 4 0)) [29 := seal_digest body])"
    by (rule laid_blit [OF laid]) simp_all
  then have "laid metadata_layout out ((metadata_fields m (replicate 32 0) (replicate 4 0))
      [29 := seal_digest body, 30 := u32_bytes (crc32c ?mid 416)])"
    unfolding out' by (rule laid_blit) simp_all
  then show ?thesis unfolding d c by (simp add: metadata_fields_def entry_fields_def)
qed

lemma metadata_encode_laid:
  assumes shape: "metadata_shape m" and valid: "metadata_is_valid (Some m)"
  shows "fst (ribon_update_slot_metadata_encode (Some m) True) = US_OK"
    and "laid metadata_layout (metadata_bytes m)
      (metadata_fields m (seal_digest (metadata_bytes m)) (seal_crc (metadata_bytes m)))"
proof -
  show "fst (ribon_update_slot_metadata_encode (Some m) True) = US_OK"
    using valid by (simp add: ribon_update_slot_metadata_encode_def Let_def)
  show "laid metadata_layout (metadata_bytes m)
      (metadata_fields m (seal_digest (metadata_bytes m)) (seal_crc (metadata_bytes m)))"
    using metadata_body_laid metadata_shapeD [OF shape] valid
    by (intro seal_laid [of "metadata_body m"])
      (simp_all add: metadata_bytes_def ribon_update_slot_metadata_encode_def Let_def)
qed

section \<open>Decoding\<close>

text \<open>The metadata that a buffer describes, before it is checked.\<close>

definition metadata_view :: "u8 list \<Rightarrow> RibonUpdateSlotMetadata" where
  "metadata_view bs = metadata_zero
     \<lparr>metadata_size := 416, metadata_abi_version := UPDATE_ABI_VERSION,
      metadata_generation := load_u64 (drop 40 bs), active_slot := load_u32 (drop 48 bs),
      pending_slot := load_u32 (drop 52 bs), metadata_slot_count := load_u32 (drop 56 bs),
      metadata_slots := map (\<lambda>index. metadata_load_slot (drop (64 + index * 160) bs)) [0..<2],
      metadata_wire_digest := seal_digest bs\<rparr>"

lemma metadata_view_slots:
  "metadata_slots (metadata_view bs) ! 0 = metadata_load_slot (drop 64 bs)"
  "metadata_slots (metadata_view bs) ! 1 = metadata_load_slot (drop 224 bs)"
  by (simp_all add: metadata_view_def)

lemma entry_fields_load:
  "k + 160 \<le> length bs \<Longrightarrow> entry_fields (metadata_load_slot (drop k bs)) =
     [slice k 4 bs, slice (k + 4) 4 bs, slice (k + 8) 8 bs, slice (k + 16) 8 bs, slice (k + 24) 32 bs,
      slice (k + 56) 32 bs, slice (k + 88) 32 bs, slice (k + 120) 4 bs, slice (k + 124) 4 bs, replicate 32 0]"
  by (simp add: entry_fields_def metadata_load_slot_def slice_u32 slice_u64 add.commute)
     (simp add: slice_def add.commute)

lemma metadata_open_eq:
  assumes len: "length bs = 512"
  shows "ribon_update_slot_metadata_open (Some bs) 512 True =
    (if laid metadata_layout bs (metadata_fields (metadata_view bs) (seal_digest bs) (seal_crc bs)) \<and>
        metadata_is_valid (Some (metadata_view bs))
     then (US_OK, metadata_view bs) else (US_MALFORMED, metadata_zero))"
proof -
  have words: "load_u16 (drop k bs) = v \<longleftrightarrow> slice k 2 bs = u16_bytes v" if "k + 2 \<le> 512" for k v
    using that len by (metis load_u16_exact slice_u16)
  have words': "load_u32 (drop k bs) = v \<longleftrightarrow> slice k 4 bs = u32_bytes v" if "k + 4 \<le> 512" for k v
    using that len by (metis load_bytes_exact(1) slice_u32)
  have digest: "bytes_equal (seal_digest bs) (drop 384 bs) 32 \<longleftrightarrow> slice 384 32 bs = seal_digest bs"
    using len by (auto simp: bytes_equal_iff slice_def)
  have zero: "load_u32 (drop 60 bs) = 0 \<longleftrightarrow> slice 60 4 bs = replicate 4 0"
    using words' [of 60 0] by simp
  have view: "u64_bytes (metadata_generation (metadata_view bs)) = slice 40 8 bs"
      "u32_bytes (active_slot (metadata_view bs)) = slice 48 4 bs"
      "u32_bytes (pending_slot (metadata_view bs)) = slice 52 4 bs"
      "u32_bytes (metadata_slot_count (metadata_view bs)) = slice 56 4 bs"
    using len by (simp_all add: metadata_view_def slice_u32 slice_u64)
  have "laid metadata_layout bs (metadata_fields (metadata_view bs) (seal_digest bs) (seal_crc bs)) \<longleftrightarrow>
      bytes_equal bs METADATA_MAGIC 32 \<and> load_u16 (drop 32 bs) = 1 \<and> load_u16 (drop 34 bs) = 64 \<and>
      load_u32 (drop 36 bs) = 512 \<and> load_u32 (drop 60 bs) = 0 \<and> bytes_zero (drop 420 bs) 92 \<and>
      bytes_equal (seal_digest bs) (drop 384 bs) 32 \<and> load_u32 (drop 416 bs) = crc32c bs 416 \<and>
      bytes_zero (drop 192 bs) 32 \<and> bytes_zero (drop 352 bs) 32"
    unfolding laid_def metadata_fields_def metadata_view_slots view
    using len by (auto simp: entry_fields_load words words' zero digest bytes_equal_slice bytes_zero_drop)
  then show ?thesis
    unfolding ribon_update_slot_metadata_open_def Let_def metadata_view_def [symmetric]
    by (auto simp: upt_two)
qed

lemma entry_load_laid:
  assumes shape: "entry_shape e" "reserved_zero (entry_reserved e)" and k: "k + 160 \<le> length bs"
    and fields: "entry_fields (metadata_load_slot (drop k bs)) = entry_fields e"
  shows "metadata_load_slot (drop k bs) = e"
proof -
  have u32: "u32_bytes v = u32_bytes w \<longleftrightarrow> v = w" for v w by (metis load_bytes_exact(1))
  have u64: "u64_bytes v = u64_bytes w \<longleftrightarrow> v = w" for v w by (metis load_bytes_exact(2))
  have "entry_reserved e = replicate 4 0"
    using shape by (intro replicate_eqI) (auto simp: entry_shape_def reserved_zero_def list_all_iff)
  then show ?thesis
    using fields by (cases e) (simp add: entry_fields_def metadata_load_slot_def u32 u64)
qed

lemma metadata_view_encoded:
  assumes shape: "metadata_shape m" and valid: "metadata_is_valid (Some m)"
    and laid: "laid metadata_layout bs (metadata_fields m digest crc)"
  shows "metadata_view bs = m\<lparr>metadata_wire_digest := seal_digest bs\<rparr>"
proof -
  have wf: "metadata_wf m" using valid by (simp add: metadata_valid_iff)
  have len: "length bs = 512" using laid_length [OF laid] by simp
  note cut = laid [unfolded laid_def metadata_fields_def entry_fields_def, simplified]
  have head: "load_u64 (drop 40 bs) = metadata_generation m" "load_u32 (drop 48 bs) = active_slot m"
      "load_u32 (drop 52 bs) = pending_slot m" "load_u32 (drop 56 bs) = metadata_slot_count m"
    using cut len by (simp_all add: load_u32_drop load_u64_drop)
  have reserved: "reserved_zero (entry_reserved (metadata_slots m ! 0))"
      "reserved_zero (entry_reserved (metadata_slots m ! 1))"
    using wf by (simp_all add: metadata_wf_def slot_ok_def entry_valid_iff)
  have "metadata_load_slot (drop 64 bs) = metadata_slots m ! 0"
    by (rule entry_load_laid [OF metadata_shapeD(1) [OF shape] reserved(1)])
      (use cut len in \<open>simp_all add: entry_fields_load entry_fields_def [of "metadata_slots m ! 0"]\<close>)
  moreover have "metadata_load_slot (drop 224 bs) = metadata_slots m ! 1"
    by (rule entry_load_laid [OF metadata_shapeD(2) [OF shape] reserved(2)])
      (use cut len in \<open>simp_all add: entry_fields_load entry_fields_def [of "metadata_slots m ! Suc 0"]\<close>)
  ultimately have "map (\<lambda>index. metadata_load_slot (drop (64 + index * 160) bs)) [0..<2] = metadata_slots m"
    using metadata_shapeD(3) [OF shape] by (auto simp: upt_two less_Suc_eq intro!: nth_equalityI)
  moreover have "metadata_reserved m = replicate 4 0"
    using wf shape by (intro replicate_eqI)
      (auto simp: metadata_wf_def metadata_shape_def reserved_zero_def list_all_iff)
  ultimately show ?thesis
    using wf by (cases m) (simp add: metadata_view_def head metadata_wf_def metadata_zero_def)
qed

lemma metadata_view_shape: "length bs = 512 \<Longrightarrow> metadata_shape (metadata_view bs)"
  by (simp add: metadata_shape_def metadata_view_def metadata_zero_def upt_two entry_shape_def
      metadata_load_slot_def)

lemma metadata_body_digest [simp]: "metadata_body (m\<lparr>metadata_wire_digest := d\<rparr>) = metadata_body m"
  by (simp add: metadata_body_def upt_two)

lemma metadata_open_encoded:
  assumes shape: "metadata_shape m" and valid: "metadata_is_valid (Some m)"
  shows "ribon_update_slot_metadata_open (Some (metadata_bytes m)) 512 True =
    (US_OK, m\<lparr>metadata_wire_digest := seal_digest (metadata_bytes m)\<rparr>)"
proof -
  note laid = metadata_encode_laid(2) [OF assms]
  have len: "length (metadata_bytes m) = 512" using laid_length [OF laid] by simp
  note view = metadata_view_encoded [OF assms laid]
  have "metadata_is_valid (Some (metadata_view (metadata_bytes m)))"
    using valid unfolding view
    by (simp add: metadata_valid_iff metadata_wf_def slot_ok_def slot_state_def)
  moreover have "metadata_fields (metadata_view (metadata_bytes m)) d c = metadata_fields m d c" for d c
    unfolding view by (simp add: metadata_fields_def)
  ultimately show ?thesis
    using metadata_open_eq [OF len] laid unfolding view by simp
qed

lemma metadata_encode_opened:
  assumes len: "length bs = 512" and ok: "ribon_update_slot_metadata_open (Some bs) 512 True = (US_OK, m)"
  shows "metadata_is_valid (Some m)" "metadata_shape m" "metadata_wire_digest m = seal_digest bs"
    "metadata_bytes m = bs"
proof -
  have m: "m = metadata_view bs" "metadata_is_valid (Some m)"
      "laid metadata_layout bs (metadata_fields m (seal_digest bs) (seal_crc bs))"
    using ok unfolding metadata_open_eq [OF len] by (auto split: if_splits)
  show "metadata_is_valid (Some m)" by (rule m(2))
  show shape: "metadata_shape m" unfolding m(1) by (rule metadata_view_shape [OF len])
  show "metadata_wire_digest m = seal_digest bs" unfolding m(1) by (simp add: metadata_view_def)
  have enc: "metadata_bytes m =
      (let out = blit 384 (seal_digest (metadata_body m)) (metadata_body m) in store_u32 416 (crc32c out 416) out)"
    using m(2) by (simp add: metadata_bytes_def ribon_update_slot_metadata_encode_def Let_def)
  note body = metadata_body_laid [OF metadata_shapeD(1) [OF shape] metadata_shapeD(2) [OF shape]]
  have len': "length (metadata_body m) = 512" using laid_length [OF body] by simp
  have "laid metadata_layout (blit 416 (seal_crc bs) (blit 384 (seal_digest bs) (metadata_body m)))
      ((metadata_fields m (replicate 32 0) (replicate 4 0)) [29 := seal_digest bs, 30 := seal_crc bs])"
    by (intro laid_blit body) simp_all
  then have "laid metadata_layout (blit 416 (seal_crc bs) (blit 384 (seal_digest bs) (metadata_body m)))
      (metadata_fields m (seal_digest bs) (seal_crc bs))"
    by (simp add: metadata_fields_def entry_fields_def)
  then have eq: "blit 416 (seal_crc bs) (blit 384 (seal_digest bs) (metadata_body m)) = bs"
    using m(3) by (rule laid_unique)
  have "take 384 bs = take 384 (metadata_body m)"
    using arg_cong [OF eq, of "take 384"] len' by (simp add: take_blit)
  then have d: "seal_digest bs = seal_digest (metadata_body m)" by (rule sha256_cong)
  have "take 416 bs = take 416 (blit 384 (seal_digest bs) (metadata_body m))"
    using arg_cong [OF eq, of "take 416"] len' by (simp add: take_blit)
  then have "crc32c bs 416 = crc32c (blit 384 (seal_digest bs) (metadata_body m)) 416" by (rule crc32c_cong)
  then show "metadata_bytes m = bs"
    unfolding enc Let_def store_u32_def d [symmetric] using eq by simp
qed

end
