(* ===== verification/Update_Bank.thy ===== *)
theory Update_Bank
  imports Update_Slots_Codec
begin

text \<open>
  What the slot metadata promises: one slot runs a confirmed image, and the other goes through a fixed
  life cycle. The transitions of the metadata are exactly the steps of this life cycle.
\<close>

section \<open>The life cycle\<close>

record slot_image =
  img_generation :: u64
  img_manifest :: "u8 list"
  img_image_set :: "u8 list"
  img_layout :: "u8 list"

datatype spare_state =
  Empty | Staging slot_image | Verified slot_image | Pending slot_image nat |
  Confirmed slot_image | Bad slot_image

record bank =
  boot_slot :: u32
  running :: slot_image
  spare :: spare_state

definition image_ok :: "slot_image \<Rightarrow> bool" where
  "image_ok i \<longleftrightarrow> img_generation i \<noteq> 0 \<and>
     length (img_manifest i) = 32 \<and> \<not> bytes_zero (img_manifest i) 32 \<and>
     length (img_image_set i) = 32 \<and> \<not> bytes_zero (img_image_set i) 32 \<and>
     length (img_layout i) = 32 \<and> \<not> bytes_zero (img_layout i) 32"

inductive bank_step :: "bank \<Rightarrow> bank \<Rightarrow> bool" where
  stage: "spare b = Empty \<or> spare b = Bad i \<or> spare b = Confirmed i \<Longrightarrow> image_ok j \<Longrightarrow>
     bank_step b (b\<lparr>spare := Staging j\<rparr>)"
| verify: "spare b = Staging i \<Longrightarrow> bank_step b (b\<lparr>spare := Verified i\<rparr>)"
| arm: "spare b = Verified i \<Longrightarrow> 0 < n \<Longrightarrow> n \<le> 32 \<Longrightarrow> bank_step b (b\<lparr>spare := Pending i n\<rparr>)"
| confirm: "spare b = Pending i n \<Longrightarrow>
     bank_step b \<lparr>boot_slot = 1 - boot_slot b, running = i, spare = Confirmed (running b)\<rparr>"
| reject: "spare b = Staging i \<or> spare b = Verified i \<or> spare b = Pending i n \<Longrightarrow>
     bank_step b (b\<lparr>spare := Bad i\<rparr>)"

inductive_cases bank_stepE: "bank_step b b'"

section \<open>The life cycle of a metadata object\<close>

definition image_of :: "RibonUpdateSlotEntry \<Rightarrow> slot_image" where
  "image_of e = \<lparr>img_generation = entry_image_generation e, img_manifest = entry_manifest_digest e,
     img_image_set = entry_image_set_digest e, img_layout = entry_layout_digest e\<rparr>"

definition spare_of :: "RibonUpdateSlotEntry \<Rightarrow> spare_state" where
  "spare_of e =
     (if entry_state e = SLOT_EMPTY then Empty
      else if entry_state e = SLOT_STAGING then Staging (image_of e)
      else if entry_state e = SLOT_VERIFIED then Verified (image_of e)
      else if entry_state e = SLOT_PENDING then Pending (image_of e) (unat (entry_boot_attempts e))
      else if entry_state e = SLOT_CONFIRMED then Confirmed (image_of e)
      else Bad (image_of e))"

definition bank_of :: "RibonUpdateSlotMetadata \<Rightarrow> bank" where
  "bank_of m = \<lparr>boot_slot = active_slot m, running = image_of (metadata_slots m ! unat (active_slot m)),
     spare = spare_of (metadata_slots m ! unat (1 - active_slot m))\<rparr>"

lemma spare_of_simps:
  "spare_of e = Empty \<longleftrightarrow> entry_state e = SLOT_EMPTY"
  "spare_of e = Staging i \<longleftrightarrow> entry_state e = SLOT_STAGING \<and> image_of e = i"
  "spare_of e = Verified i \<longleftrightarrow> entry_state e = SLOT_VERIFIED \<and> image_of e = i"
  "spare_of e = Pending i n \<longleftrightarrow>
     entry_state e = SLOT_PENDING \<and> image_of e = i \<and> unat (entry_boot_attempts e) = n"
  "spare_of e = Confirmed i \<longleftrightarrow> entry_state e = SLOT_CONFIRMED \<and> image_of e = i"
  by (auto simp: spare_of_def)

lemma spare_of_bad:
  assumes "entry_state e \<le> SLOT_BAD"
  shows "spare_of e = Bad i \<longleftrightarrow> entry_state e = SLOT_BAD \<and> image_of e = i"
proof -
  have "unat (entry_state e) \<le> 5" using assms by (simp add: word_le_nat_alt)
  then have "unat (entry_state e) \<in> {unat (0 :: u32), unat (1 :: u32), unat (2 :: u32), unat (3 :: u32),
      unat (4 :: u32), unat (5 :: u32)}" by auto
  then have "entry_state e \<in> {0, 1, 2, 3, 4, 5}" unfolding insert_iff word_unat_eq_iff [symmetric] by simp
  then show ?thesis by (auto simp: spare_of_def)
qed

lemma other_slot_id:
  "s < 2 \<Longrightarrow> t < 2 \<Longrightarrow> s \<noteq> t \<longleftrightarrow> s = 1 - t" for s t :: u32
  by (auto elim!: slot_id_cases)

lemma other_slot_less: "t < 2 \<Longrightarrow> 1 - t < 2" for t :: u32
  by (auto elim!: slot_id_cases)

lemma other_other_id [simp]: "1 - (1 - t) = (t :: u32)"
  by simp

definition transition_shape :: "RibonUpdateSlotTransition \<Rightarrow> bool" where
  "transition_shape t \<longleftrightarrow> length (transition_manifest_digest t) = 32 \<and>
     length (transition_image_set_digest t) = 32 \<and> length (transition_layout_digest t) = 32 \<and>
     length (transition_reserved t) = 4"

lemma sealed_simps [simp]:
  "active_slot (sealed m) = active_slot m" "metadata_slots (sealed m) = metadata_slots m"
  "metadata_generation (sealed m) = metadata_generation m" "pending_slot (sealed m) = pending_slot m"
  "bank_of (sealed m) = bank_of m"
  by (simp_all add: sealed_def bank_of_def)

lemma sealed_wf: "metadata_wf (sealed m) = metadata_wf m"
  by (simp add: metadata_wf_def slot_ok_def slot_state_def sealed_def)

lemma sealed_shape: "metadata_shape m \<Longrightarrow> metadata_shape (sealed m)"
  by (simp add: metadata_shape_def sealed_def)

lemma transition_apply_shape:
  assumes "metadata_shape m" and "transition_shape t" and "unat (transition_slot_id t) < 2"
  shows "metadata_shape (transition_apply m t)"
proof -
  have "entry_shape (metadata_slots m ! unat (transition_slot_id t))"
    using assms by (auto simp: metadata_shape_def list_all_length)
  then have "entry_shape (transition_entry g t (metadata_slots m ! unat (transition_slot_id t)))" for g
    using assms(2) by (simp add: entry_shape_def transition_entry_def Let_def transition_shape_def)
  then show ?thesis
    using assms by (auto simp: metadata_shape_def transition_apply_simps list_all_iff
        dest!: set_update_subset_insert [THEN subsetD])
qed

section \<open>The transitions are the steps\<close>

lemma inactive_entry:
  assumes wf: "metadata_wf m" and shape: "metadata_shape m"
  shows "slot_entry_is_valid (Some (metadata_slots m ! unat (1 - active_slot m))) (1 - active_slot m)
      (metadata_generation m)"
    and "entry_shape (metadata_slots m ! unat (1 - active_slot m))"
    and "unat (1 - active_slot m) < length (metadata_slots m)"
    and "unat (1 - active_slot m) \<noteq> unat (active_slot m)"
    and "unat (active_slot m) < length (metadata_slots m)"
    and "spare_of (metadata_slots m ! unat (active_slot m)) = Confirmed (running (bank_of m))"
proof -
  have "active_slot m < 2" using wf by (simp add: metadata_wf_def)
  then show "slot_entry_is_valid (Some (metadata_slots m ! unat (1 - active_slot m))) (1 - active_slot m)
      (metadata_generation m)" "entry_shape (metadata_slots m ! unat (1 - active_slot m))"
    "unat (1 - active_slot m) < length (metadata_slots m)"
    "unat (1 - active_slot m) \<noteq> unat (active_slot m)" "unat (active_slot m) < length (metadata_slots m)"
    using wf metadata_shapeD [OF shape]
    by (auto simp: metadata_wf_def slot_ok_def elim!: slot_id_cases)
  show "spare_of (metadata_slots m ! unat (active_slot m)) = Confirmed (running (bank_of m))"
    using wf by (simp add: metadata_wf_def slot_state_def spare_of_simps bank_of_def)
qed

lemma bank_apply:
  assumes wf: "metadata_wf m" and shape: "metadata_shape m" and slot: "transition_slot_id t = 1 - active_slot m"
  defines "e \<equiv> transition_entry (metadata_generation m + 1) t (metadata_slots m ! unat (1 - active_slot m))"
  shows "bank_of (transition_apply m t) =
    (if transition_next_state t = SLOT_CONFIRMED
     then \<lparr>boot_slot = 1 - active_slot m, running = image_of e, spare = Confirmed (running (bank_of m))\<rparr>
     else (bank_of m)\<lparr>spare := spare_of e\<rparr>)"
  using inactive_entry [OF wf shape]
  by (simp add: bank_of_def transition_apply_simps slot e_def)

lemma image_of_transition:
  "transition_next_state t \<noteq> SLOT_STAGING \<Longrightarrow> image_of (transition_entry g t e) = image_of e"
  "transition_next_state t = SLOT_STAGING \<Longrightarrow> transition_shape t \<Longrightarrow> image_of (transition_entry g t e) =
     \<lparr>img_generation = transition_image_generation t, img_manifest = transition_manifest_digest t,
      img_image_set = transition_image_set_digest t, img_layout = transition_layout_digest t\<rparr>"
  by (simp_all add: image_of_def transition_entry_def Let_def transition_shape_def)

lemma transition_simulates:
  assumes shape: "metadata_shape m" "transition_shape t" and en: "transition_enabled m t"
  shows "bank_step (bank_of m) (bank_of (transition_apply m t))"
proof -
  note f = enabled_facts [OF en]
  let ?e = "metadata_slots m ! unat (1 - active_slot m)"
  let ?e' = "transition_entry (metadata_generation m + 1) t ?e"
  have slot: "transition_slot_id t = 1 - active_slot m"
    using f(1-3) other_slot_id by (simp add: metadata_wf_def)
  note apply' = bank_apply [OF f(1) shape(1) slot]
  have allowed: "transition_is_allowed (entry_state ?e) (transition_next_state t)"
    using f(5) by (simp add: slot_state_def slot)
  have le: "entry_state ?e \<le> SLOT_BAD" using inactive_entry(1) [OF f(1) shape(1)] by (simp add: entry_valid_iff)
  have old: "spare (bank_of m) = spare_of ?e" by (simp add: bank_of_def)
  have new: "entry_state ?e' = transition_next_state t" "entry_boot_attempts ?e' = transition_boot_attempts t"
    by (simp_all add: transition_entry_simps)
  have staged: "spare_of ?e = Empty \<or> (\<exists>i. spare_of ?e = Bad i) \<or> (\<exists>i. spare_of ?e = Confirmed i)"
    if "transition_next_state t = SLOT_STAGING"
    using allowed that spare_of_bad [OF le] by (auto simp: transition_is_allowed_def spare_of_simps split: if_splits)
  have image: "image_ok (image_of ?e')" if "transition_next_state t = SLOT_STAGING"
    using image_of_transition(2) [OF that shape(2)] f(9-12) shape(2) by (simp add: image_ok_def transition_shape_def)
  consider (stage) "transition_next_state t = SLOT_STAGING" |
    (verify) "entry_state ?e = SLOT_STAGING" "transition_next_state t = SLOT_VERIFIED" |
    (arm) "entry_state ?e = SLOT_VERIFIED" "transition_next_state t = SLOT_PENDING" |
    (confirm) "entry_state ?e = SLOT_PENDING" "transition_next_state t = SLOT_CONFIRMED" |
    (bad) "entry_state ?e = SLOT_STAGING \<or> entry_state ?e = SLOT_VERIFIED \<or> entry_state ?e = SLOT_PENDING"
      "transition_next_state t = SLOT_BAD"
    using allowed by (auto simp: transition_is_allowed_def split: if_splits)
  then show ?thesis
  proof cases
    case stage
    then have "spare_of ?e' = Staging (image_of ?e')" by (simp add: spare_of_simps new)
    then show ?thesis
      using staged [OF stage] image [OF stage] bank_step.stage old unfolding apply'
      by (auto simp: stage)
  next
    case verify
    then have "spare_of ?e' = Verified (image_of ?e)"
      by (simp add: spare_of_simps new image_of_transition)
    moreover have "spare (bank_of m) = Staging (image_of ?e)" by (simp add: old spare_of_simps verify)
    ultimately show ?thesis using bank_step.verify verify unfolding apply' by simp
  next
    case arm
    then have "spare_of ?e' = Pending (image_of ?e) (unat (transition_boot_attempts t))"
      by (simp add: spare_of_simps new image_of_transition)
    moreover have "spare (bank_of m) = Verified (image_of ?e)" by (simp add: old spare_of_simps arm)
    moreover have "0 < unat (transition_boot_attempts t)" "unat (transition_boot_attempts t) \<le> 32"
      using f(6,7) arm by (simp_all add: word_le_nat_alt unat_gt_0)
    ultimately show ?thesis using bank_step.arm arm unfolding apply' by simp
  next
    case confirm
    then have "spare (bank_of m) = Pending (image_of ?e) (unat (entry_boot_attempts ?e))"
      by (simp add: old spare_of_simps)
    from bank_step.confirm [OF this] show ?thesis
      using confirm unfolding apply' by (simp add: image_of_transition) (simp add: bank_of_def)
  next
    case bad
    then have "spare_of ?e' = Bad (image_of ?e)"
      by (subst spare_of_bad) (simp_all add: new image_of_transition)
    moreover have "spare (bank_of m) = Staging (image_of ?e) \<or> spare (bank_of m) = Verified (image_of ?e) \<or>
        spare (bank_of m) = Pending (image_of ?e) (unat (entry_boot_attempts ?e))"
      using bad by (auto simp: old spare_of_simps)
    ultimately show ?thesis using bank_step.reject bad unfolding apply' by simp
  qed
qed

text \<open>The request that carries out a step.\<close>

definition slot_request :: "u32 \<Rightarrow> u32 \<Rightarrow> u32 \<Rightarrow> slot_image \<Rightarrow> RibonUpdateSlotTransition" where
  "slot_request s next attempts i =
     \<lparr>transition_size = 160, transition_abi_version = UPDATE_ABI_VERSION, transition_flags = 0,
      transition_slot_id = s, transition_next_state = next,
      transition_boot_attempts = attempts, transition_image_generation = img_generation i,
      transition_manifest_digest = img_manifest i, transition_image_set_digest = img_image_set i,
      transition_layout_digest = img_layout i, transition_reserved = replicate 4 0\<rparr>"

lemma slot_request_simps [simp]:
  "transition_slot_id (slot_request s next n i) = s"
  "transition_next_state (slot_request s next n i) = next"
  "transition_boot_attempts (slot_request s next n i) = n"
  by (simp_all add: slot_request_def)

lemma slot_request_shape: "image_ok i \<Longrightarrow> transition_shape (slot_request s next n i)"
  by (simp add: transition_shape_def slot_request_def image_ok_def)

lemma inactive_image_ok:
  assumes wf: "metadata_wf m" and shape: "metadata_shape m"
    and "entry_state (metadata_slots m ! unat (1 - active_slot m)) \<noteq> SLOT_EMPTY"
  shows "image_ok (image_of (metadata_slots m ! unat (1 - active_slot m)))"
  using inactive_entry(1,2) [OF wf shape] assms(3)
  by (simp add: image_ok_def image_of_def entry_valid_iff entry_shape_def)

lemma no_pending:
  assumes "metadata_wf m" and "entry_state (metadata_slots m ! unat (1 - active_slot m)) \<noteq> SLOT_PENDING"
  shows "pending_slot m = SLOT_NONE"
proof (rule ccontr)
  assume "pending_slot m \<noteq> SLOT_NONE"
  moreover have "active_slot m < 2" using assms(1) by (simp add: metadata_wf_def)
  ultimately show False
    using assms by (auto simp: metadata_wf_def slot_state_def elim!: slot_id_cases)
qed

lemma request_enabled:
  assumes wf: "metadata_wf m" and shape: "metadata_shape m" and gen: "metadata_generation m \<noteq> UINT64_MAX"
    and i: "image_ok i" and s: "s = 1 - active_slot m"
    and allowed: "transition_is_allowed (entry_state (metadata_slots m ! unat s)) next"
    and n: "n \<le> MAX_BOOT_ATTEMPTS" "n \<noteq> 0 \<longleftrightarrow> next = SLOT_PENDING"
    and same: "next \<noteq> SLOT_STAGING \<Longrightarrow> i = image_of (metadata_slots m ! unat s)"
  shows "transition_enabled m (slot_request s next n i)"
proof -
  have active: "active_slot m < 2" using wf by (simp add: metadata_wf_def)
  have slot: "s < 2" "s \<noteq> active_slot m"
    unfolding s other_slot_id [OF other_slot_less [OF active] active] by (rule other_slot_less [OF active], rule refl)
  have le: "next \<le> SLOT_BAD"
    using allowed by (auto simp: transition_is_allowed_def word_le_nat_alt split: if_splits)
  have "entry_state (metadata_slots m ! unat s) = SLOT_PENDING \<Longrightarrow> next = SLOT_CONFIRMED \<or> next = SLOT_BAD"
    using allowed by (simp add: transition_is_allowed_def)
  then have "next = SLOT_PENDING \<Longrightarrow> entry_state (metadata_slots m ! unat s) \<noteq> SLOT_PENDING" by fastforce
  then have pending: "next = SLOT_PENDING \<Longrightarrow> pending_slot m = SLOT_NONE" using no_pending [OF wf] s by simp
  have eq: "bytes_equal bs bs 32" if "length bs = 32" for bs using that by (simp add: bytes_equal_iff)
  have "entry_shape (metadata_slots m ! unat s)" unfolding s by (rule inactive_entry(2) [OF wf shape])
  then have identity: "next \<noteq> SLOT_STAGING \<Longrightarrow>
      transition_identity_matches (metadata_slots m ! unat s) (slot_request s next n i)"
    using same by (simp add: transition_identity_matches_def slot_request_def image_of_def entry_shape_def eq)
  have "\<not> transition_rejected (Some m) (Some (slot_request s next n i)) True"
    using wf gen i allowed n(1) slot le
    by (simp add: transition_rejected_def metadata_valid_iff slot_request_def image_ok_def reserved_zero_def
        list_all_iff not_le not_less)
  then show ?thesis
    using n(2) pending identity by (auto simp: transition_enabled_def)
qed

lemma step_realised:
  assumes wf: "metadata_wf m" and shape: "metadata_shape m" and gen: "metadata_generation m \<noteq> UINT64_MAX"
    and step: "bank_step (bank_of m) b"
  shows "\<exists>t. transition_shape t \<and> transition_enabled m t \<and> bank_of (transition_apply m t) = b"
proof -
  let ?e = "metadata_slots m ! unat (1 - active_slot m)"
  have spare: "spare (bank_of m) = spare_of ?e" by (simp add: bank_of_def)
  have le: "entry_state ?e \<le> SLOT_BAD" using inactive_entry(1) [OF wf shape] by (simp add: entry_valid_iff)
  note old = spare_of_simps [of ?e, folded spare] spare_of_bad [OF le, folded spare]
  have goal: "\<exists>t. transition_shape t \<and> transition_enabled m t \<and> bank_of (transition_apply m t) = b"
    if "image_ok i" "transition_is_allowed (entry_state ?e) next" "n \<le> MAX_BOOT_ATTEMPTS"
      "n \<noteq> 0 \<longleftrightarrow> next = SLOT_PENDING" "next \<noteq> SLOT_STAGING \<Longrightarrow> i = image_of ?e"
      "b = (if next = SLOT_CONFIRMED
        then \<lparr>boot_slot = 1 - active_slot m, running = i, spare = Confirmed (running (bank_of m))\<rparr>
        else (bank_of m)\<lparr>spare := spare_of (?e\<lparr>entry_state := next, entry_boot_attempts := n,
          entry_image_generation := img_generation i, entry_manifest_digest := img_manifest i,
          entry_image_set_digest := img_image_set i, entry_layout_digest := img_layout i\<rparr>)\<rparr>)" for i "next" n
  proof -
    let ?t = "slot_request (1 - active_slot m) next n i"
    have same: "spare_of (transition_entry g ?t ?e) = spare_of (?e\<lparr>entry_state := next, entry_boot_attempts := n,
        entry_image_generation := img_generation i, entry_manifest_digest := img_manifest i,
        entry_image_set_digest := img_image_set i, entry_layout_digest := img_layout i\<rparr>)"
      "next \<noteq> SLOT_STAGING \<Longrightarrow> image_of (transition_entry g ?t ?e) = i" for g
      using that(1,5) by (auto simp: spare_of_def image_of_def transition_entry_def Let_def slot_request_def image_ok_def)
    have "bank_of (transition_apply m ?t) = b"
      using bank_apply [OF wf shape, of ?t] that(6) same by (cases "next = SLOT_CONFIRMED") simp_all
    then show ?thesis
      using slot_request_shape request_enabled [OF wf shape gen that(1) refl that(2-5)] that(1) by blast
  qed
  have mk: "spare_of (?e\<lparr>entry_state := st, entry_boot_attempts := n,
      entry_image_generation := img_generation i, entry_manifest_digest := img_manifest i,
      entry_image_set_digest := img_image_set i, entry_layout_digest := img_layout i\<rparr>) =
      (if st = SLOT_EMPTY then Empty else if st = SLOT_STAGING then Staging i
       else if st = SLOT_VERIFIED then Verified i else if st = SLOT_PENDING then Pending i (unat n)
       else if st = SLOT_CONFIRMED then Confirmed i else Bad i)" for st n i
    by (simp add: spare_of_def image_of_def)
  from step show ?thesis
  proof cases
    case (stage i j)
    have "transition_is_allowed (entry_state ?e) SLOT_STAGING"
      using stage(2) unfolding old transition_is_allowed_def by auto
    then show ?thesis
      by (intro goal [of j SLOT_STAGING 0]) (simp_all add: stage mk)
  next
    case (verify i)
    note e = verify(2) [unfolded old]
    then have "image_ok i" using inactive_image_ok [OF wf shape] by auto
    then show ?thesis
      by (intro goal [of i SLOT_VERIFIED 0]) (simp_all add: verify(1) e transition_is_allowed_def mk)
  next
    case (arm i n)
    note e = arm(2) [unfolded old]
    then have "image_ok i" using inactive_image_ok [OF wf shape] by auto
    moreover have n: "unat (of_nat n :: u32) = n" using arm(4) by (simp add: unsigned_of_nat take_bit_nat_eq_self)
    moreover have "(of_nat n :: u32) \<noteq> 0" using n arm(3) by (metis less_numeral_extra(3) unat_0)
    ultimately show ?thesis
      by (intro goal [of i SLOT_PENDING "of_nat n"])
        (simp_all add: arm e transition_is_allowed_def mk word_le_nat_alt)
  next
    case (confirm i n)
    note e = confirm(2) [unfolded old]
    then have "image_ok i" using inactive_image_ok [OF wf shape] by auto
    moreover have "boot_slot (bank_of m) = active_slot m" by (simp add: bank_of_def)
    ultimately show ?thesis
      by (intro goal [of i SLOT_CONFIRMED 0]) (simp_all add: confirm(1) e transition_is_allowed_def)
  next
    case (reject i n)
    note e = reject(2) [unfolded old]
    then have "image_ok i" "image_of ?e = i" using inactive_image_ok [OF wf shape] by auto
    moreover have "transition_is_allowed (entry_state ?e) SLOT_BAD"
      using e unfolding transition_is_allowed_def by auto
    ultimately show ?thesis
      by (intro goal [of i SLOT_BAD 0]) (simp_all add: reject(1) mk)
  qed
qed

end
