(* ===== verification/Update_Properties.thy ===== *)
theory Update_Properties
  imports Update_Bank
begin

text \<open>
  The properties of the update layout and of the slot metadata.
\<close>

section \<open>Layout\<close>

lemma open_encoded:
  assumes shape: "layout_shape l" and valid: "layout_is_structurally_valid (Some l)"
  defines "bs \<equiv> snd (ribon_update_layout_identity_encode (Some l) True)"
  shows "ribon_update_layout_identity_open (Some bs) 512 True =
    (US_OK, l\<lparr>layout_identity_digest := ribon_security_sha256 bs 512\<rparr>)"
proof -
  have laid: "laid identity_layout bs (identity_fields l)"
    unfolding bs_def by (rule identity_encode_laid(2) [OF valid])
  have len: "length bs = 512" using laid_length [OF laid] by simp
  have view: "(identity_view bs)\<lparr>layout_identity_digest := layout_identity_digest l\<rparr> = l"
    by (rule identity_view_encoded [OF shape valid laid])
  have "layout_is_structurally_valid (Some (identity_view bs))"
    using valid layout_valid_digest [of "layout_identity_digest l" "identity_view bs"] unfolding view by simp
  moreover have "laid identity_layout bs (identity_fields (identity_view bs))"
    using laid identity_fields_digest [of "layout_identity_digest l" "identity_view bs"] unfolding view by simp
  moreover have "(identity_view bs)\<lparr>layout_identity_digest := d\<rparr> = l\<lparr>layout_identity_digest := d\<rparr>" for d
    using arg_cong [OF view, of "\<lambda>l. l\<lparr>layout_identity_digest := d\<rparr>"] by simp
  ultimately show ?thesis unfolding open_eq [OF len] by simp
qed

lemma encode_opened:
  assumes len: "length bs = 512" and ok: "ribon_update_layout_identity_open (Some bs) 512 True = (US_OK, l)"
  shows "layout_is_structurally_valid (Some l)" "layout_shape l"
    "snd (ribon_update_layout_identity_encode (Some l) True) = bs"
    "layout_identity_digest l = ribon_security_sha256 bs 512"
proof -
  have l: "l = (identity_view bs)\<lparr>layout_identity_digest := ribon_security_sha256 bs 512\<rparr>"
    and laid: "laid identity_layout bs (identity_fields (identity_view bs))"
    and valid: "layout_is_structurally_valid (Some (identity_view bs))"
    using ok unfolding open_eq [OF len] by (auto split: if_splits)
  show valid': "layout_is_structurally_valid (Some l)" using valid unfolding l by simp
  show "layout_shape l" unfolding l by (simp add: layout_shape_def identity_view_def layout_zero_def)
  show "layout_identity_digest l = ribon_security_sha256 bs 512" unfolding l by simp
  have "laid identity_layout (snd (ribon_update_layout_identity_encode (Some l) True)) (identity_fields l)"
    by (rule identity_encode_laid(2) [OF valid'])
  then show "snd (ribon_update_layout_identity_encode (Some l) True) = bs"
    using laid laid_unique unfolding l identity_fields_digest by blast
qed

lemma calculate_ok:
  assumes i: "input_is_valid i" and fits: "sum_list (aligned_sizes i) \<le> unat (input_media_capacity i)"
    "unat (input_alignment i) dvd unat (input_media_capacity i)"
  obtains l where "ribon_update_layout_calculate (Some i) True = (US_OK, l)"
    "layout_is_structurally_valid (Some l)" "layout_shape l" "lengths l = plan_lengths i"
    "ribon_update_layout_identity_open (Some (snd (ribon_update_layout_identity_encode (Some l) True))) 512 True =
       (US_OK, l)"
proof -
  have valid: "layout_is_structurally_valid (Some (plan_layout i))"
    using plan_layout_wf [OF assms] layout_valid_iff by (simp add: plan_layout_simps)
  let ?bs = "snd (ribon_update_layout_identity_encode (Some (plan_layout i)) True)"
  let ?l = "(plan_layout i)\<lparr>layout_identity_digest := ribon_security_sha256 ?bs 512\<rparr>"
  have shape: "layout_shape (plan_layout i)"
    by (simp add: layout_shape_def plan_layout_def layout_zero_def)
  have bs: "snd (ribon_update_layout_identity_encode (Some ?l) True) = ?bs"
    using valid by (simp add: ribon_update_layout_identity_encode_def Let_def layout_header_def)
  show ?thesis
  proof
    show "ribon_update_layout_calculate (Some i) True = (US_OK, ?l)"
      using calculate_eq [OF i] fits unat_bound [of "input_media_capacity i"] by simp
    show "layout_is_structurally_valid (Some ?l)" using valid by simp
    show "layout_shape ?l" using shape by (simp add: layout_shape_def)
    show "lengths ?l = plan_lengths i" using plan_layout_lengths [OF assms] by (simp add: lengths_def)
    show "ribon_update_layout_identity_open (Some (snd (ribon_update_layout_identity_encode (Some ?l) True))) 512 True =
        (US_OK, ?l)"
      unfolding bs by (rule open_encoded [OF shape valid])
  qed
qed

text \<open>
  C30. The layout calculator is exact: for sizes that pass its argument check, it reports an overflow,
  a lack of capacity or a misaligned capacity exactly in that order of precedence, where the required
  capacity is the sum of the sizes rounded up to the alignment; otherwise it returns a layout that its
  own structural check accepts, that covers the whole medium, in which the first ten regions have
  exactly the rounded sizes and the last one takes the rest, and whose identity opens to this very layout.
\<close>

theorem layout_calculate_exact:
  assumes "input_is_valid i"
  shows "case ribon_update_layout_calculate (Some i) True of (st, l) \<Rightarrow>
    st = (if 2 ^ 64 \<le> sum_list (aligned_sizes i) then US_OVERFLOW
          else if unat (input_media_capacity i) < sum_list (aligned_sizes i) then US_CAPACITY
          else if \<not> unat (input_alignment i) dvd unat (input_media_capacity i) then US_ALIGNMENT
          else US_OK) \<and>
    (st \<noteq> US_OK \<longrightarrow> l = layout_zero) \<and>
    (st = US_OK \<longrightarrow>
       layout_is_structurally_valid (Some l) \<and> sum_list (lengths l) = unat (input_media_capacity i) \<and>
       take 10 (lengths l) = take 10 (aligned_sizes i) \<and> aligned_sizes i ! 10 \<le> lengths l ! 10 \<and>
       ribon_update_layout_identity_open
         (Some (snd (ribon_update_layout_identity_encode (Some l) True))) 512 True = (US_OK, l))"
proof (cases "sum_list (aligned_sizes i) \<le> unat (input_media_capacity i) \<and>
    unat (input_alignment i) dvd unat (input_media_capacity i)")
  case True
  then have fits: "sum_list (aligned_sizes i) \<le> unat (input_media_capacity i)"
    "unat (input_alignment i) dvd unat (input_media_capacity i)" by simp_all
  obtain l where "ribon_update_layout_calculate (Some i) True = (US_OK, l)"
    "layout_is_structurally_valid (Some l)" "lengths l = plan_lengths i"
    "ribon_update_layout_identity_open (Some (snd (ribon_update_layout_identity_encode (Some l) True))) 512 True =
       (US_OK, l)"
    using assms fits by (rule calculate_ok)
  moreover have "take 10 (plan_lengths i) = take 10 (aligned_sizes i)" by (simp add: plan_lengths_def)
  ultimately show ?thesis
    using fits plan_lengths_facts(1,3) [OF assms fits] unat_bound [of "input_media_capacity i"] by simp
next
  case False
  then show ?thesis
    using calculate_eq [OF assms(1)] by auto
qed

definition sample_input :: RibonUpdateLayoutInput where
  "sample_input =
     \<lparr>input_size = 120, input_abi_version = 1, input_flags = 0, input_reserved0 = 0,
      input_media_capacity = 131072, input_alignment = 512, input_guard_gap = 512,
      input_bootloader = 70000, input_recovery = 2000, input_slot_payload = 3000,
      input_slot_metadata = 1024, input_update_journal = 100, input_minimum_trailing = 1,
      input_reserved = replicate 4 0\<rparr>"

lemma sample_input_facts:
  "input_is_valid sample_input"
  "aligned_sizes sample_input = [70144, 512, 2048, 512, 3072, 512, 3072, 512, 1024, 512, 512]"
  "unat (input_media_capacity sample_input) = 131072" "unat (input_alignment sample_input) = 512"
  by (simp_all add: sample_input_def input_is_valid_def power_of_two_def reserved_zero_def list_all_iff
      aligned_sizes_def requested_sizes_def align_up_nat_def)

theorem layout_calculate_exact_witness:
  "fst (ribon_update_layout_calculate (Some sample_input) True) = US_OK \<and>
   take 10 (lengths (snd (ribon_update_layout_calculate (Some sample_input) True))) =
     [70144, 512, 2048, 512, 3072, 512, 3072, 512, 1024, 512]"
  using layout_calculate_exact [OF sample_input_facts(1)]
  by (cases "ribon_update_layout_calculate (Some sample_input) True") (simp add: sample_input_facts)

text \<open>
  C31. The identity of a layout is canonical: a 512-byte object opens to a layout exactly if that
  layout is structurally valid, the object is its encoding, and its digest is that of the object.
\<close>

theorem layout_identity_canonical:
  assumes "length bs = 512"
  shows "ribon_update_layout_identity_open (Some bs) 512 True = (US_OK, l) \<longleftrightarrow>
    layout_shape l \<and> layout_is_structurally_valid (Some l) \<and>
    ribon_update_layout_identity_encode (Some l) True = (US_OK, bs) \<and>
    layout_identity_digest l = ribon_security_sha256 bs 512"
  using encode_opened [OF assms, of l] open_encoded [of l] identity_encode_laid(1) [of l]
  by (auto simp: prod_eq_iff)

theorem layout_identity_canonical_witness:
  "\<exists>l bs. ribon_update_layout_calculate (Some sample_input) True = (US_OK, l) \<and>
     ribon_update_layout_identity_encode (Some l) True = (US_OK, bs) \<and>
     layout_identity_digest l = ribon_security_sha256 bs 512"
proof -
  have fits: "sum_list (aligned_sizes sample_input) \<le> unat (input_media_capacity sample_input)"
    "unat (input_alignment sample_input) dvd unat (input_media_capacity sample_input)"
    by (simp_all add: sample_input_facts)
  obtain l where l: "ribon_update_layout_calculate (Some sample_input) True = (US_OK, l)"
    "layout_is_structurally_valid (Some l)"
    "ribon_update_layout_identity_open (Some (snd (ribon_update_layout_identity_encode (Some l) True))) 512 True =
       (US_OK, l)"
    using sample_input_facts(1) fits by (rule calculate_ok)
  have "length (snd (ribon_update_layout_identity_encode (Some l) True)) = 512"
    using laid_length [OF identity_encode_laid(2) [OF l(2)]] by simp
  from layout_identity_canonical [OF this, of l] show ?thesis using l by auto
qed

section \<open>Slot metadata\<close>

text \<open>
  C32. The form of the slot metadata is canonical: a 512-byte object opens to a metadata object exactly
  if that object is valid, the bytes are its encoding, and its recorded digest is that of the bytes.
\<close>

theorem slot_metadata_canonical:
  assumes "length bs = 512"
  shows "ribon_update_slot_metadata_open (Some bs) 512 True = (US_OK, m) \<longleftrightarrow>
    metadata_shape m \<and> metadata_is_valid (Some m) \<and>
    ribon_update_slot_metadata_encode (Some m) True = (US_OK, bs) \<and>
    metadata_wire_digest m = ribon_security_sha256 bs 384"
proof
  assume "ribon_update_slot_metadata_open (Some bs) 512 True = (US_OK, m)"
  from metadata_encode_opened [OF assms this] show "metadata_shape m \<and> metadata_is_valid (Some m) \<and>
      ribon_update_slot_metadata_encode (Some m) True = (US_OK, bs) \<and>
      metadata_wire_digest m = ribon_security_sha256 bs 384"
    using metadata_encode_laid(1) [of m] by (auto simp: metadata_bytes_def prod_eq_iff)
next
  assume "metadata_shape m \<and> metadata_is_valid (Some m) \<and>
      ribon_update_slot_metadata_encode (Some m) True = (US_OK, bs) \<and>
      metadata_wire_digest m = ribon_security_sha256 bs 384"
  then show "ribon_update_slot_metadata_open (Some bs) 512 True = (US_OK, m)"
    using metadata_open_encoded [of m] by (simp add: metadata_bytes_def)
qed

definition sample_image :: "u64 \<Rightarrow> slot_image" where
  "sample_image g = \<lparr>img_generation = g, img_manifest = replicate 32 1, img_image_set = replicate 32 2,
     img_layout = replicate 32 3\<rparr>"

definition sample_metadata :: RibonUpdateSlotMetadata where
  "sample_metadata =
     \<lparr>metadata_size = 416, metadata_abi_version = 1, metadata_flags = 0, active_slot = 0,
      pending_slot = SLOT_NONE, metadata_slot_count = 2, metadata_generation = 1,
      metadata_slots =
        [\<lparr>entry_slot_id = 0, entry_state = SLOT_CONFIRMED, entry_metadata_generation = 1,
          entry_image_generation = 1, entry_manifest_digest = replicate 32 1,
          entry_image_set_digest = replicate 32 2, entry_layout_digest = replicate 32 3,
          entry_boot_attempts = 0, entry_flags = 0, entry_reserved = replicate 4 0\<rparr>,
         entry_zero\<lparr>entry_slot_id := 1\<rparr>],
      metadata_wire_digest = replicate 32 0, metadata_reserved = replicate 4 0\<rparr>"

lemma sample_zero: "bytes_zero (replicate 32 v) 32 \<longleftrightarrow> v = 0"
  by (auto simp: bytes_zero_iff)

lemma sample_metadata_valid: "metadata_wf sample_metadata" "metadata_shape sample_metadata"
  by (simp_all add: metadata_wf_def sample_metadata_def slot_state_def slot_ok_def entry_valid_iff entry_zero_def
      reserved_zero_def list_all_iff sample_zero metadata_shape_def entry_shape_def word_le_nat_alt)

theorem slot_metadata_canonical_witness:
  "ribon_update_slot_metadata_open (Some (metadata_bytes sample_metadata)) 512 True =
     (US_OK, sealed sample_metadata)"
proof -
  have valid: "metadata_is_valid (Some sample_metadata)"
    using sample_metadata_valid(1) by (simp add: metadata_valid_iff)
  note laid = metadata_encode_laid [OF sample_metadata_valid(2) valid]
  have len: "length (metadata_bytes sample_metadata) = 512" using laid_length [OF laid(2)] by simp
  have enc: "ribon_update_slot_metadata_encode (Some (sealed sample_metadata)) True =
      ribon_update_slot_metadata_encode (Some sample_metadata) True"
    using valid sealed_wf [of sample_metadata] sample_metadata_valid(1)
    by (simp add: ribon_update_slot_metadata_encode_def metadata_valid_iff) (simp add: sealed_def)
  show ?thesis
    by (rule slot_metadata_canonical [OF len, THEN iffD2])
      (use enc laid(1) sealed_shape [OF sample_metadata_valid(2)] sealed_wf [of sample_metadata]
        sample_metadata_valid(1) in \<open>simp add: metadata_valid_iff metadata_bytes_def prod_eq_iff sealed_def\<close>)
qed



end
