(* ===== verification/Spec2Isabelle.thy ===== *)
theory Spec2Isabelle
  imports Arena Memory_Map Protected_Properties Context_Properties Gpt_Properties Boot_Config_Properties
    Update_Properties
begin

text \<open>
  Verification library for the Ribon boot runtime.
\<close>

end
